(* ===== verification/Prelude.thy ===== *)
theory Prelude
  imports Main "HOL-Library.Multiset"
begin

text \<open>
  What every component of the development shares: the error values that the backend throws, the
  list tables that stand for SQL tables with their \<open>SELECT\<close>, \<open>UPDATE\<close> and \<open>INSERT\<close> forms, the
  decimal printing of template literals, and the generic lemmas about them. A SQL table is the
  list of its rows in insertion order; an aggregate is a sum or a count over the filtered list.
\<close>

named_theorems table_simps
named_theorems row_frame

section \<open>Results and errors\<close>

text \<open>
  Instants are the epoch milliseconds that the code prints as ISO-8601 UTC strings; the fixed
  width of that format makes the string order of the code the integer order used here.
\<close>

type_synonym instant = int

datatype sql_constraint = UniqueConstraint | ForeignKeyConstraint

text \<open>
  An \<open>AppError\<close> of the code carries a code, an HTTP status and optional numeric details; the
  human readable message is left out. A violated SQL constraint is an error of the driver.
\<close>

datatype app_error =
    AppError (err_code: string) (err_status: nat) (err_details: "(string \<times> int) list")
  | SqlError sql_constraint

type_synonym 'a result = "app_error + 'a"

abbreviation fail :: "string \<Rightarrow> nat \<Rightarrow> 'a result" where
  "fail c s \<equiv> Inl (AppError c s [])"

text \<open>Sequencing: an error skips the continuation, as an exception does.\<close>

fun bind_result :: "'a result \<Rightarrow> ('a \<Rightarrow> 'b result) \<Rightarrow> 'b result" where
  "bind_result (Inl e) f = Inl e"
| "bind_result (Inr x) f = f x"

lemma bind_result_Inr_iff:
  "bind_result r f = Inr y \<longleftrightarrow> (\<exists>x. r = Inr x \<and> f x = Inr y)"
  by (cases r) auto

lemma bind_result_Inl_iff:
  "bind_result r f = Inl e \<longleftrightarrow> r = Inl e \<or> (\<exists>x. r = Inr x \<and> f x = Inl e)"
  by (cases r) auto

section \<open>Tables\<close>

definition find_row :: "('r \<Rightarrow> 'k) \<Rightarrow> 'k \<Rightarrow> 'r list \<Rightarrow> 'r option" where
  "find_row key k rows = List.find (\<lambda>r. key r = k) rows"

definition update_rows :: "('r \<Rightarrow> bool) \<Rightarrow> ('r \<Rightarrow> 'r) \<Rightarrow> 'r list \<Rightarrow> 'r list" where
  "update_rows P u rows = map (\<lambda>r. if P r then u r else r) rows"

definition sum_where :: "('r \<Rightarrow> bool) \<Rightarrow> ('r \<Rightarrow> int) \<Rightarrow> 'r list \<Rightarrow> int" where
  "sum_where P f rows = sum_list (map f (filter P rows))"

definition count_where :: "('r \<Rightarrow> bool) \<Rightarrow> 'r list \<Rightarrow> int" where
  "count_where P rows = int (length (filter P rows))"

definition max_where :: "('r \<Rightarrow> bool) \<Rightarrow> ('r \<Rightarrow> int) \<Rightarrow> 'r list \<Rightarrow> int option" where
  "max_where P f rows =
     (case map f (filter P rows) of [] \<Rightarrow> None | x # xs \<Rightarrow> Some (fold max xs x))"

definition min_where :: "('r \<Rightarrow> bool) \<Rightarrow> ('r \<Rightarrow> int) \<Rightarrow> 'r list \<Rightarrow> int option" where
  "min_where P f rows =
     (case map f (filter P rows) of [] \<Rightarrow> None | x # xs \<Rightarrow> Some (fold min xs x))"

definition insert_row :: "('r \<Rightarrow> 'k) \<Rightarrow> 'r \<Rightarrow> 'r list \<Rightarrow> 'r list result" where
  "insert_row key r rows =
     (if key r \<in> key ` set rows then Inl (SqlError UniqueConstraint) else Inr (rows @ [r]))"

subsection \<open>Lookup\<close>

lemma find_row_SomeD: "find_row key k rows = Some r \<Longrightarrow> r \<in> set rows \<and> key r = k"
  by (auto simp: find_row_def find_Some_iff)

lemma find_row_None_iff: "find_row key k rows = None \<longleftrightarrow> k \<notin> key ` set rows"
  by (auto simp: find_row_def find_None_iff)

lemma find_row_Nil [simp]: "find_row key k [] = None"
  by (simp add: find_row_def)

lemma find_row_Cons [simp]:
  "find_row key k (r # rows) = (if key r = k then Some r else find_row key k rows)"
  by (simp add: find_row_def)

lemma find_row_append:
  "find_row key k (xs @ ys) =
     (case find_row key k xs of None \<Rightarrow> find_row key k ys | Some r \<Rightarrow> Some r)"
  by (induction xs) auto

lemma find_row_Some_iff:
  "distinct (map key rows) \<Longrightarrow> find_row key k rows = Some r \<longleftrightarrow> r \<in> set rows \<and> key r = k"
  by (induction rows) (auto simp: image_iff)

lemma insert_row_Inr_iff:
  "insert_row key r rows = Inr rows' \<longleftrightarrow> key r \<notin> key ` set rows \<and> rows' = rows @ [r]"
  by (auto simp: insert_row_def)

subsection \<open>Sums and counts\<close>

lemma sum_where_Nil [simp]: "sum_where P f [] = 0"
  by (simp add: sum_where_def)

lemma sum_where_Cons [simp]:
  "sum_where P f (r # rows) = (if P r then f r else 0) + sum_where P f rows"
  by (simp add: sum_where_def)

lemma sum_where_append [table_simps]:
  "sum_where P f (xs @ ys) = sum_where P f xs + sum_where P f ys"
  by (simp add: sum_where_def)

lemma sum_where_nonneg:
  "(\<And>r. r \<in> set rows \<Longrightarrow> P r \<Longrightarrow> 0 \<le> f r) \<Longrightarrow> 0 \<le> sum_where P f rows"
  by (induction rows) (auto intro: add_nonneg_nonneg)

lemma sum_where_cong:
  "(\<And>r. r \<in> set rows \<Longrightarrow> P r = Q r) \<Longrightarrow> (\<And>r. r \<in> set rows \<Longrightarrow> P r \<Longrightarrow> f r = g r) \<Longrightarrow>
   sum_where P f rows = sum_where Q g rows"
  by (induction rows) auto

lemma sum_where_zero:
  "(\<And>r. r \<in> set rows \<Longrightarrow> P r \<Longrightarrow> f r = 0) \<Longrightarrow> sum_where P f rows = 0"
  by (induction rows) auto

lemma sum_where_member_le:
  assumes "r \<in> set rows" "P r" "\<And>x. x \<in> set rows \<Longrightarrow> P x \<Longrightarrow> 0 \<le> f x"
  shows "f r \<le> sum_where P f rows"
  using assms
proof (induction rows)
  case Nil
  then show ?case by simp
next
  case (Cons x xs)
  have "0 \<le> sum_where P f xs"
    using Cons.prems(3) by (intro sum_where_nonneg) auto
  moreover have "0 \<le> (if P x then f x else 0)" using Cons.prems(3) by simp
  ultimately show ?case using Cons by (cases "r = x") auto
qed

lemma count_where_Nil [simp]: "count_where P [] = 0"
  by (simp add: count_where_def)

lemma count_where_Cons [simp]:
  "count_where P (r # rows) = (if P r then 1 else 0) + count_where P rows"
  by (simp add: count_where_def)

lemma count_where_append [table_simps]:
  "count_where P (xs @ ys) = count_where P xs + count_where P ys"
  by (simp add: count_where_def)

lemma count_where_nonneg [simp]: "0 \<le> count_where P rows"
  by (simp add: count_where_def)

lemma count_where_cong:
  "(\<And>r. r \<in> set rows \<Longrightarrow> P r = Q r) \<Longrightarrow> count_where P rows = count_where Q rows"
  by (induction rows) auto

lemma count_where_mono:
  "(\<And>r. r \<in> set rows \<Longrightarrow> P r \<Longrightarrow> Q r) \<Longrightarrow> count_where P rows \<le> count_where Q rows"
  by (induction rows) fastforce+

lemma count_where_zero_iff: "count_where P rows = 0 \<longleftrightarrow> (\<forall>r\<in>set rows. \<not> P r)"
  by (simp add: count_where_def filter_empty_conv)

lemma count_where_split:
  "count_where P rows = count_where (\<lambda>r. P r \<and> Q r) rows + count_where (\<lambda>r. P r \<and> \<not> Q r) rows"
  by (induction rows) auto

subsection \<open>Updates\<close>

lemma update_rows_Nil [simp]: "update_rows P u [] = []"
  by (simp add: update_rows_def)

lemma update_rows_Cons [simp]:
  "update_rows P u (r # rows) = (if P r then u r else r) # update_rows P u rows"
  by (simp add: update_rows_def)

lemma set_update_rows: "set (update_rows P u rows) = (\<lambda>r. if P r then u r else r) ` set rows"
  by (simp add: update_rows_def)

lemma ball_update_rows:
  "(\<forall>r \<in> set (update_rows P u rows). Q r) \<longleftrightarrow> (\<forall>r \<in> set rows. Q (if P r then u r else r))"
  by (simp only: set_update_rows ball_simps bex_simps)

lemma bex_update_rows:
  "(\<exists>r \<in> set (update_rows P u rows). Q r) \<longleftrightarrow> (\<exists>r \<in> set rows. Q (if P r then u r else r))"
  by (simp only: set_update_rows ball_simps bex_simps)

lemma update_rows_none:
  "(\<And>r. r \<in> set rows \<Longrightarrow> \<not> P r) \<Longrightarrow> update_rows P u rows = rows"
  by (induction rows) auto

lemma update_rows_id [simp]: "update_rows P (\<lambda>r. r) rows = rows"
  by (induction rows) auto

lemma sum_where_update_general:
  "sum_where P f (update_rows Q u rows) =
     sum_where (\<lambda>r. P (if Q r then u r else r)) (\<lambda>r. f (if Q r then u r else r)) rows"
  by (induction rows) auto

lemma count_where_update_general:
  "count_where P (update_rows Q u rows) = count_where (\<lambda>r. P (if Q r then u r else r)) rows"
  by (induction rows) auto

lemma update_rows_compose:
  assumes "\<And>r. key (u r) = key r"
  shows "update_rows (\<lambda>r. key r = k) v (update_rows (\<lambda>r. key r = k) u rows) =
    update_rows (\<lambda>r. key r = k) (\<lambda>r. v (u r)) rows"
  by (induction rows) (auto simp: assms)

text \<open>
  The contract of every \<open>UPDATE\<close> of the code: it never writes the primary key. The facts below
  follow from that law alone and are reused for each statement through an interpretation.
\<close>

locale key_update =
  fixes key :: "'r \<Rightarrow> 'k"
    and u :: "'r \<Rightarrow> 'r"
  assumes key_stable: "key (u r) = key r"
begin

lemma keys_update [simp]: "map key (update_rows P u rows) = map key rows"
  by (induction rows) (auto simp: key_stable)

lemma key_image_update [simp]: "key ` set (update_rows P u rows) = key ` set rows"
  using keys_update [of P rows] by (metis list.set_map)

lemma find_row_update:
  "find_row key k (update_rows (\<lambda>r. key r = k') u rows) =
     (if k = k' then map_option u (find_row key k rows) else find_row key k rows)"
  by (induction rows) (auto simp: key_stable)

lemma find_row_update_where:
  "distinct (map key rows) \<Longrightarrow>
   find_row key k (update_rows P u rows) =
     map_option (\<lambda>r. if P r then u r else r) (find_row key k rows)"
  by (induction rows) (auto simp: key_stable)

lemma sum_where_update_one:
  assumes "distinct (map key rows)" and "find_row key k rows = Some r"
  shows "sum_where P f (update_rows (\<lambda>x. key x = k) u rows) =
     sum_where P f rows + (if P (u r) then f (u r) else 0) - (if P r then f r else 0)"
  using assms
proof (induction rows)
  case Nil
  then show ?case by simp
next
  case (Cons x xs)
  show ?case
  proof (cases "key x = k")
    case True
    with Cons.prems have "k \<notin> key ` set xs" by auto
    then have "update_rows (\<lambda>x. key x = k) u xs = xs" by (intro update_rows_none) auto
    with True Cons.prems show ?thesis by simp
  next
    case False
    with Cons show ?thesis by simp
  qed
qed

lemma count_where_update_one:
  assumes "distinct (map key rows)" and "find_row key k rows = Some r"
  shows "count_where P (update_rows (\<lambda>x. key x = k) u rows) =
     count_where P rows + (if P (u r) then 1 else 0) - (if P r then 1 else 0)"
  using assms
proof (induction rows)
  case Nil
  then show ?case by simp
next
  case (Cons x xs)
  show ?case
  proof (cases "key x = k")
    case True
    with Cons.prems have "k \<notin> key ` set xs" by auto
    then have "update_rows (\<lambda>x. key x = k) u xs = xs" by (intro update_rows_none) auto
    with True Cons.prems show ?thesis by simp
  next
    case False
    with Cons show ?thesis by simp
  qed
qed

lemma sum_where_update_frame:
  assumes "\<And>r. P (u r) = P r" and "\<And>r. f (u r) = f r"
  shows "sum_where P f (update_rows Q u rows) = sum_where P f rows"
  by (induction rows) (auto simp: assms)

lemma count_where_update_frame:
  assumes "\<And>r. P (u r) = P r"
  shows "count_where P (update_rows Q u rows) = count_where P rows"
  by (induction rows) (auto simp: assms)

end

section \<open>Decimal printing\<close>

fun show_nat :: "nat \<Rightarrow> string" where
  "show_nat n =
     (if n < 10 then [char_of (48 + n)]
      else show_nat (n div 10) @ [char_of (48 + n mod 10)])"

declare show_nat.simps [simp del]

definition show_int :: "int \<Rightarrow> string" where
  "show_int i = (if i < 0 then ''-'' @ show_nat (nat (- i)) else show_nat (nat i))"

definition is_digit :: "char \<Rightarrow> bool" where
  "is_digit c \<longleftrightarrow> 48 \<le> (of_char c :: nat) \<and> (of_char c :: nat) \<le> 57"

lemma show_nat_nonempty [simp]: "show_nat n \<noteq> []"
  by (subst show_nat.simps) simp

lemma show_nat_digits: "c \<in> set (show_nat n) \<Longrightarrow> is_digit c"
proof (induction n rule: show_nat.induct)
  case (1 n)
  show ?case
  proof (cases "n < 10")
    case True
    with "1.prems" show ?thesis
      by (subst (asm) show_nat.simps) (auto simp: is_digit_def)
  next
    case False
    with "1.prems" consider "c \<in> set (show_nat (n div 10))" | "c = char_of (48 + n mod 10)"
      by (subst (asm) show_nat.simps) auto
    then show ?thesis
    proof cases
      case 1
      with "1.IH" False show ?thesis by blast
    next
      case 2
      have "n mod 10 \<le> 9" by (simp add: less_Suc_eq_le [symmetric])
      with 2 show ?thesis by (auto simp: is_digit_def)
    qed
  qed
qed

section \<open>Text\<close>

text \<open>
  Free text is the list of its Unicode code points, identifiers are ASCII \<open>string\<close> values;
  \<open>ascii\<close> reads an identifier as text. The white space class is that of JavaScript's \<open>trim\<close> and
  regular expressions, and so are the word and the digit class.
\<close>

type_synonym utext = "nat list"

definition ascii :: "string \<Rightarrow> utext" where
  "ascii s = map of_char s"

definition js_space :: "nat \<Rightarrow> bool" where
  "js_space c \<longleftrightarrow>
     9 \<le> c \<and> c \<le> 13 \<or> c = 32 \<or> c = 160 \<or> c = 5760 \<or> 8192 \<le> c \<and> c \<le> 8202 \<or>
     c = 8232 \<or> c = 8233 \<or> c = 8239 \<or> c = 8287 \<or> c = 12288 \<or> c = 65279"

definition word_char :: "nat \<Rightarrow> bool" where
  "word_char c \<longleftrightarrow>
     48 \<le> c \<and> c \<le> 57 \<or> 65 \<le> c \<and> c \<le> 90 \<or> c = 95 \<or> 97 \<le> c \<and> c \<le> 122"

definition digit_char :: "nat \<Rightarrow> bool" where
  "digit_char c \<longleftrightarrow> 48 \<le> c \<and> c \<le> 57"

definition js_trim :: "utext \<Rightarrow> utext" where
  "js_trim t = rev (dropWhile js_space (rev (dropWhile js_space t)))"

fun strip_prefix :: "'a list \<Rightarrow> 'a list \<Rightarrow> 'a list option" where
  "strip_prefix [] ys = Some ys"
| "strip_prefix (x # xs) [] = None"
| "strip_prefix (x # xs) (y # ys) = (if x = y then strip_prefix xs ys else None)"

lemma strip_prefix_append [simp]: "strip_prefix xs (xs @ ys) = Some ys"
  by (induction xs) auto

lemma strip_prefix_Some_iff: "strip_prefix xs ys = Some zs \<longleftrightarrow> ys = xs @ zs"
  by (induction xs ys rule: strip_prefix.induct) auto

lemma ascii_append [simp]: "ascii (s @ t) = ascii s @ ascii t"
  by (simp add: ascii_def)

lemma ascii_Nil [simp]: "ascii [] = []"
  by (simp add: ascii_def)

lemma ascii_eq_iff [simp]: "ascii s = ascii t \<longleftrightarrow> s = t"
  by (auto simp: ascii_def inj_map_eq_map inj_def)

lemma digits_show_nat: "list_all digit_char (ascii (show_nat n))"
  by (auto simp: ascii_def list_all_iff digit_char_def is_digit_def dest: show_nat_digits)

lemma takeWhile_append_stop:
  "list_all P xs \<Longrightarrow> \<not> P y \<Longrightarrow> takeWhile P (xs @ y # ys) = xs"
  by (induction xs) auto

lemma takeWhile_all: "list_all P xs \<Longrightarrow> takeWhile P xs = xs"
  by (induction xs) auto

lemma js_trim_idem [simp]: "js_trim (js_trim t) = js_trim t"
proof -
  have drop: "dropWhile js_space (dropWhile js_space u) = dropWhile js_space u" for u
    by (induction u) auto
  have keep: "dropWhile js_space (rev (dropWhile js_space (rev u))) = rev (dropWhile js_space (rev u))"
    if "dropWhile js_space u = u" for u
  proof (cases u)
    case (Cons c w)
    with that have "\<not> js_space c" by (metis dropWhile.simps(2) dropWhile_eq_self_iff list.sel(1) list.distinct(1))
    then have "dropWhile js_space (rev w @ [c]) = dropWhile js_space (rev w) @ [c]"
      by (induction "rev w") (auto simp: dropWhile_append)
    with Cons \<open>\<not> js_space c\<close> show ?thesis by simp
  qed simp
  show ?thesis unfolding js_trim_def by (simp add: keep drop)
qed

end
