(* ===== verification/Database.thy ===== *)
theory Database
  imports Complex_Main Prelude
begin

text \<open>
  The rows of \<open>backend/src/domain/types.ts\<close>, the tables that \<open>backend/src/db/migrations.ts\<close>
  creates, the configuration of \<open>backend/src/config.ts\<close> as far as
  it is used, and the transaction of \<open>backend/src/db/client.ts\<close>. Columns keep the source's names
  behind a two letter prefix per table, because HOL record fields share one name space.
  Free text columns are code point lists, Boolean columns (0/1 in SQL) are \<open>bool\<close>, amounts and
  counts are unbounded \<open>int\<close>. The status columns take any JSON number, so they are rationals.
\<close>

section \<open>Rows\<close>

datatype account_status = Active | Disabled

record account_row =
  ac_id :: string
  ac_phone :: string
  ac_password_hash :: string
  ac_password_version :: int
  ac_status :: account_status
  ac_must_change_password :: bool
  ac_balance :: int
  ac_created_at :: instant
  ac_updated_at :: instant
  ac_chat_quota_used_milli :: int
  ac_admin_note :: utext

record auth_session_row =
  as_id :: string
  as_account_id :: string
  as_created_at :: instant
  as_last_seen_at :: instant
  as_expires_at :: instant
  as_revoked_at :: "instant option"
  as_revoked_reason :: "string option"

record refresh_token_row =
  rt_id :: string
  rt_session_id :: string
  rt_token_hash :: string
  rt_issued_at :: instant
  rt_expires_at :: instant
  rt_consumed_at :: "instant option"
  rt_replaced_by :: "string option"
  rt_revoked_at :: "instant option"

datatype ledger_kind = Grant | Topup | Adjust | Consume | Refund

record ledger_entry_row =
  le_id :: string
  le_account_id :: string
  le_seq :: int
  le_delta :: int
  le_balance_after :: int
  le_kind :: ledger_kind
  le_note :: utext
  le_created_at :: instant

datatype permit_status = Open | Settled

datatype unit_outcome = Success | Failure

record billing_permit_row =
  bp_id :: string
  bp_account_id :: string
  bp_operation :: string
  bp_units :: int
  bp_unit_price :: int
  bp_base_price :: int
  bp_frozen_remaining :: int
  bp_status :: permit_status
  bp_created_at :: instant
  bp_settled_at :: "instant option"
  bp_last_activity_at :: instant

record permit_unit_report_row =
  ur_permit_id :: string
  ur_unit_index :: int
  ur_outcome :: unit_outcome
  ur_reported_at :: instant

datatype publish_order_kind = Media | WeMedia

datatype placement_status = Pending | Placed | Failed

datatype order_ledger_status = OFrozen | OSettled | ORefunded

record publish_order_row =
  po_sn :: string
  po_account_id :: string
  po_execution_id :: string
  po_item_id :: string
  po_kind :: publish_order_kind
  po_resource_id :: int
  po_title :: utext
  po_content_url :: string
  po_remark :: utext
  po_owner :: utext
  po_publish_form :: "int option"
  po_publish_type :: "int option"
  po_account_rule :: "int option"
  po_media_price_cents :: int
  po_points :: int
  po_per_article_max_points :: int
  po_execution_max_points :: int
  po_placement_status :: placement_status
  po_ledger_status :: order_ledger_status
  po_partner_sn :: "string option"
  po_upstream_status :: "rat option"
  po_url :: "string option"
  po_published_at :: "string option"
  po_closed_observed_at :: "instant option"
  po_created_at :: instant
  po_updated_at :: instant

record resource_cache_row =
  rc_kind :: publish_order_kind
  rc_resource_id :: int
  rc_name :: utext
  rc_price_cents :: int
  rc_status :: "rat option"
  rc_fetched_at :: instant

record chat_usage_record_row =
  cu_id :: string
  cu_account_id :: string
  cu_model :: utext
  cu_input_tokens :: int
  cu_cache_read_tokens :: int
  cu_cache_creation_tokens :: int
  cu_output_tokens :: int
  cu_points_milli :: int
  cu_created_at :: instant

record provider_usage_record_row =
  pu_id :: string
  pu_account_id :: string
  pu_provider :: string
  pu_route :: string
  pu_input_tokens :: int
  pu_output_tokens :: int
  pu_created_at :: instant

text \<open>
  A preference row with the empty kind is a name entry; otherwise kind and resource id bind it to
  a resource of the pool.
\<close>

record preference_channel_row =
  pr_id :: string
  pr_category :: int
  pr_name :: utext
  pr_domain :: utext
  pr_exact :: bool
  pr_kind :: "publish_order_kind option"
  pr_resource_id :: "int option"
  pr_created_at :: instant
  pr_updated_at :: instant

record pool_snapshot_row =
  ps_kind :: publish_order_kind
  ps_resource_id :: int
  ps_name :: utext
  ps_domain :: utext
  ps_status :: "rat option"
  ps_price_cents :: int
  ps_geo_count :: int
  ps_category_code :: "int option"
  ps_geo :: bool
  ps_platform :: "int option"
  ps_fans_number :: "int option"
  ps_fetched_at :: instant

section \<open>The database and its transactions\<close>

record db =
  accounts :: "account_row list"
  auth_sessions :: "auth_session_row list"
  refresh_tokens :: "refresh_token_row list"
  ledger_entries :: "ledger_entry_row list"
  billing_permits :: "billing_permit_row list"
  permit_unit_reports :: "permit_unit_report_row list"
  publish_orders :: "publish_order_row list"
  distribution_resource_cache :: "resource_cache_row list"
  chat_usage_records :: "chat_usage_record_row list"
  provider_usage_records :: "provider_usage_record_row list"
  preference_channels :: "preference_channel_row list"
  distribution_pool_snapshot :: "pool_snapshot_row list"

definition empty_db :: db where
  "empty_db = \<lparr>accounts = [], auth_sessions = [], refresh_tokens = [], ledger_entries = [],
     billing_permits = [], permit_unit_reports = [], publish_orders = [],
     distribution_resource_cache = [], chat_usage_records = [], provider_usage_records = [],
     preference_channels = [], distribution_pool_snapshot = []\<rparr>"

text \<open>The numeric fields of \<open>BackendConfig\<close> that the modelled operations read.\<close>

record backend_config =
  refreshTokenTtlSeconds :: int
  signupGrantPoints :: int
  maxConcurrentPermitsPerAccount :: int
  staleOpenPermitTtlMs :: int
  chatHiddenQuotaPoints :: int
  chatInputCnyPerMtok :: rat
  chatInputCacheHitCnyPerMtok :: rat
  chatOutputCnyPerMtok :: rat

definition default_config :: backend_config where
  "default_config = \<lparr>refreshTokenTtlSeconds = 30 * 24 * 60 * 60, signupGrantPoints = 500,
     maxConcurrentPermitsPerAccount = 2, staleOpenPermitTtlMs = 5400000,
     chatHiddenQuotaPoints = 100, chatInputCnyPerMtok = 2, chatInputCacheHitCnyPerMtok = 1 / 5,
     chatOutputCnyPerMtok = 3\<rparr>"

text \<open>
  A transaction body maps the database to an error or to the new database with a result. The
  outermost \<open>transaction\<close> commits on success and rolls back on a thrown error; a nested call
  joins the outer one, which is the plain sequencing of the bodies with \<^const>\<open>bind_result\<close>.
\<close>

type_synonym 'a body = "db \<Rightarrow> (db \<times> 'a) result"
type_synonym 'a operation = "db \<Rightarrow> db \<times> 'a result"

definition transaction :: "'a body \<Rightarrow> 'a operation" where
  "transaction fn d =
     (case fn d of Inl e \<Rightarrow> (d, Inl e) | Inr (d', x) \<Rightarrow> (d', Inr x))"

lemma transaction_InrD: "transaction fn d = (d', Inr x) \<Longrightarrow> fn d = Inr (d', x)"
  by (auto simp: transaction_def split: sum.splits)

lemma transaction_InlD: "transaction fn d = (d', Inl e) \<Longrightarrow> fn d = Inl e \<and> d' = d"
  by (auto simp: transaction_def split: sum.splits)

text \<open>An invariant that a body keeps is kept by its transaction, whether it commits or not.\<close>

lemma transaction_inv:
  assumes "\<And>d' x. fn d = Inr (d', x) \<Longrightarrow> I d'" and "I d" and "transaction fn d = (d', r)"
  shows "I d'"
  using assms by (cases r) (auto dest: transaction_InrD transaction_InlD)

section \<open>Row updates\<close>

text \<open>The \<open>SET\<close> clauses of the code's \<open>UPDATE\<close> statements; none of them writes a key.\<close>

definition set_balance :: "int \<Rightarrow> instant \<Rightarrow> account_row \<Rightarrow> account_row" where
  "set_balance b now a = a\<lparr>ac_balance := b, ac_updated_at := now\<rparr>"

definition clear_chat_quota :: "account_row \<Rightarrow> account_row" where
  "clear_chat_quota a = a\<lparr>ac_chat_quota_used_milli := 0\<rparr>"

definition settle_permit_row :: "instant \<Rightarrow> billing_permit_row \<Rightarrow> billing_permit_row" where
  "settle_permit_row now p =
     p\<lparr>bp_status := Settled, bp_settled_at := Some now, bp_frozen_remaining := 0\<rparr>"

definition touch_permit_row :: "instant \<Rightarrow> billing_permit_row \<Rightarrow> billing_permit_row" where
  "touch_permit_row now p = p\<lparr>bp_last_activity_at := now\<rparr>"

definition unfreeze_permit_row :: "int \<Rightarrow> billing_permit_row \<Rightarrow> billing_permit_row" where
  "unfreeze_permit_row c p = p\<lparr>bp_frozen_remaining := bp_frozen_remaining p - c\<rparr>"

lemmas row_update_defs = set_balance_def clear_chat_quota_def settle_permit_row_def
  touch_permit_row_def unfreeze_permit_row_def

interpretation set_balance: key_update ac_id "set_balance b now" for b now
  by unfold_locales (simp add: set_balance_def)

interpretation clear_quota: key_update ac_id clear_chat_quota
  by unfold_locales (simp add: clear_chat_quota_def)

interpretation settle_permit: key_update bp_id "settle_permit_row now" for now
  by unfold_locales (simp add: settle_permit_row_def)

interpretation touch_permit: key_update bp_id "touch_permit_row now" for now
  by unfold_locales (simp add: touch_permit_row_def)

interpretation unfreeze_permit: key_update bp_id "unfreeze_permit_row c" for c
  by unfold_locales (simp add: unfreeze_permit_row_def)

end
