(* ===== verification/Pricing.thy ===== *)
theory Pricing
  imports Complex_Main Prelude
begin

text \<open>
  Prices: the fixed price table of \<open>backend/src/domain/pricing.ts\<close>, the points of a publish order
  (\<open>publishOrderPoints\<close> of \<open>backend/src/domain/publish-orders.ts\<close>) and the display conversions
  of \<open>src/shared/geo/points.ts\<close>. The code's double precision quotients are exact rationals here:
  every amount stays far below the size where a quotient by 25 or 4 rounds to another integer.
\<close>

section \<open>The price table\<close>

record operation_price =
  price_base :: int
  price_per_unit :: int

definition OPERATION_PRICES :: "(string \<times> operation_price) list" where
  "OPERATION_PRICES =
    [(''material_import'', \<lparr>price_base = 0, price_per_unit = 20\<rparr>),
     (''question_pool'', \<lparr>price_base = 0, price_per_unit = 15\<rparr>),
     (''baseline_probe'', \<lparr>price_base = 0, price_per_unit = 5\<rparr>),
     (''topic_planning'', \<lparr>price_base = 0, price_per_unit = 20\<rparr>),
     (''topic_planning_regen'', \<lparr>price_base = 0, price_per_unit = 10\<rparr>),
     (''article_generation'', \<lparr>price_base = 0, price_per_unit = 20\<rparr>),
     (''article_rewrite'', \<lparr>price_base = 0, price_per_unit = 10\<rparr>),
     (''distribution_planning'', \<lparr>price_base = 30, price_per_unit = 5\<rparr>),
     (''monitoring_patrol'', \<lparr>price_base = 0, price_per_unit = 5\<rparr>)]"

definition operation_price_of :: "string \<Rightarrow> operation_price option" where
  "operation_price_of operation = map_of OPERATION_PRICES operation"

definition isBillingOperation :: "string \<Rightarrow> bool" where
  "isBillingOperation operation \<longleftrightarrow> operation_price_of operation \<noteq> None"

lemma OPERATION_PRICES_all:
  assumes "operation_price_of op = Some p"
  shows "0 \<le> price_base p \<and> 0 < price_per_unit p"
proof -
  have "\<forall>p \<in> snd ` set OPERATION_PRICES. 0 \<le> price_base p \<and> 0 < price_per_unit p"
    by (simp add: OPERATION_PRICES_def)
  moreover have "(op, p) \<in> set OPERATION_PRICES"
    using assms by (auto simp: operation_price_of_def dest: map_of_SomeD)
  ultimately show ?thesis by force
qed

section \<open>Publish order points\<close>

definition ceil_div :: "int \<Rightarrow> int \<Rightarrow> int" where
  "ceil_div a b = - ((- a) div b)"

lemma ceil_div_eq_ceiling:
  "ceil_div a b = \<lceil>(of_int a :: rat) / of_int b\<rceil>"
proof -
  have "\<lfloor>(of_int (- a) :: rat) / of_int b\<rfloor> = (- a) div b"
    by (rule floor_divide_of_int_eq)
  then show ?thesis by (simp add: ceil_div_def ceiling_def)
qed

lemma ceil_div_bounds:
  assumes "0 < b"
  shows "a \<le> b * ceil_div a b" and "b * ceil_div a b < a + b"
proof -
  define q where "q = (- a) div b"
  have "- a = b * q + (- a) mod b" by (simp add: q_def)
  moreover have "0 \<le> (- a) mod b" "(- a) mod b < b" using assms by auto
  ultimately show "a \<le> b * ceil_div a b" "b * ceil_div a b < a + b"
    by (simp_all add: ceil_div_def q_def [symmetric])
qed

lemma ceil_div_unique:
  assumes "0 < b" and "a \<le> b * q" and "b * q < a + b"
  shows "ceil_div a b = q"
proof -
  have "(- a) div b = - q"
    using assms by (intro int_div_pos_eq [where r = "b * q - a"]) (auto simp: algebra_simps)
  then show ?thesis by (simp add: ceil_div_def)
qed

definition publishOrderPoints :: "int \<Rightarrow> int" where
  "publishOrderPoints mediaPriceCents = ceil_div (mediaPriceCents * 4) 25"

lemma publishOrderPoints_nonneg: "0 \<le> c \<Longrightarrow> 0 \<le> publishOrderPoints c"
  using ceil_div_bounds(1) [of 25 "c * 4"] unfolding publishOrderPoints_def by linarith

section \<open>Display conversions\<close>

text \<open>JavaScript's \<open>Math.round\<close> rounds halves upwards.\<close>

definition math_round :: "rat \<Rightarrow> int" where
  "math_round x = \<lfloor>x + 1 / 2\<rfloor>"

lemma math_round_of_int [simp]: "math_round (of_int n) = n"
  unfolding math_round_def by (intro floor_unique) auto

definition cnyToPoints :: "rat \<Rightarrow> int" where
  "cnyToPoints cny =
     (if cny \<le> 0 then 0 else let cents = math_round (cny * 100) in ceil_div (cents * 4) 25)"

definition pointsToCny :: "int \<Rightarrow> rat" where
  "pointsToCny points = (if points \<le> 0 then 0 else of_int ((points * 25) div 4) / 100)"

lemma cnyToPoints_cents:
  assumes "0 < c"
  shows "cnyToPoints (of_int c / 100) = publishOrderPoints c"
  using assms by (simp add: cnyToPoints_def publishOrderPoints_def)

lemma ceil_div_floor_roundtrip: "ceil_div ((p * 25) div 4 * 4) 25 = p"
proof (rule ceil_div_unique)
  have "(p * 25) div 4 * 4 = p * 25 - (p * 25) mod 4"
    by (simp add: minus_mod_eq_div_mult [symmetric])
  moreover have "0 \<le> (p * 25) mod 4" "(p * 25) mod 4 < 4" by auto
  ultimately show "(p * 25) div 4 * 4 \<le> 25 * p" "25 * p < (p * 25) div 4 * 4 + 25"
    by simp_all
qed simp

section \<open>Properties\<close>


text \<open>
  The documented round trip of the display conversion: turning points into yuan and back gives
  the same points for every non-negative amount, and the yuan value is always a whole number of
  cents for which the desktop conversion and the server's order price agree.
\<close>

theorem points_roundtrip:
  "cnyToPoints (pointsToCny p) = max 0 p \<and>
   cnyToPoints (of_int c / 100) = (if c \<le> 0 then 0 else publishOrderPoints c)"
proof
  show "cnyToPoints (pointsToCny p) = max 0 p"
  proof (cases "p \<le> 0")
    case True
    then show ?thesis by (simp add: pointsToCny_def cnyToPoints_def)
  next
    case False
    then have "0 < (p * 25) div 4" by (simp add: pos_imp_zdiv_pos_iff)
    with False show ?thesis
      by (simp add: pointsToCny_def cnyToPoints_cents publishOrderPoints_def
          ceil_div_floor_roundtrip)
  qed
  show "cnyToPoints (of_int c / 100) = (if c \<le> 0 then 0 else publishOrderPoints c)"
  proof (cases "c \<le> 0")
    case True
    then have "(of_int c :: rat) / 100 \<le> 0" by simp
    with True show ?thesis by (simp add: cnyToPoints_def)
  next
    case False
    then show ?thesis by (simp add: cnyToPoints_cents)
  qed
qed

end
