(* ===== verification/Ledger.thy ===== *)
theory Ledger
  imports Database Pricing
begin

text \<open>
  The points ledger of \<open>backend/src/domain/ledger.ts\<close>: the single channel that changes a balance
  and writes a ledger entry, the frozen points of the two freezing channels (open permits and
  frozen publish orders), the balance snapshot, top-ups and adjustments, the settlement and the
  refund of points, the newest-first list of entries and the summaries that the desktop shows.
  Randomly generated row ids are arguments; the instant \<open>now\<close> is the clock reading.
\<close>

section \<open>Operations\<close>

definition findAccountById :: "db \<Rightarrow> string \<Rightarrow> account_row option" where
  "findAccountById d i = find_row ac_id i (accounts d)"

definition next_ledger_seq :: "db \<Rightarrow> string \<Rightarrow> int" where
  "next_ledger_seq d accountId =
     (case max_where (\<lambda>e. le_account_id e = accountId) le_seq (ledger_entries d) of
        None \<Rightarrow> 0 | Some m \<Rightarrow> m) + 1"

text \<open>
  The insert of an entry can violate the primary key, the unique index on account and sequence
  number, or the reference to the account.
\<close>

definition insert_ledger_entry :: "ledger_entry_row \<Rightarrow> db \<Rightarrow> db result" where
  "insert_ledger_entry e d =
     (if le_id e \<in> le_id ` set (ledger_entries d) \<or>
         (le_account_id e, le_seq e) \<in> (\<lambda>x. (le_account_id x, le_seq x)) ` set (ledger_entries d)
      then Inl (SqlError UniqueConstraint)
      else if findAccountById d (le_account_id e) = None then Inl (SqlError ForeignKeyConstraint)
      else Inr (d\<lparr>ledger_entries := ledger_entries d @ [e]\<rparr>))"

definition applyBalanceChange ::
  "account_row \<Rightarrow> int \<Rightarrow> ledger_kind \<Rightarrow> utext \<Rightarrow> instant \<Rightarrow> string \<Rightarrow> account_row body" where
  "applyBalanceChange account delta kind note now uuid d =
     (let balanceAfter = ac_balance account + delta;
          d1 = d\<lparr>accounts := update_rows (\<lambda>a. ac_id a = ac_id account)
                               (set_balance balanceAfter now) (accounts d)\<rparr>;
          nextSeq = next_ledger_seq d1 (ac_id account)
      in bind_result
           (insert_ledger_entry
              \<lparr>le_id = uuid, le_account_id = ac_id account, le_seq = nextSeq, le_delta = delta,
               le_balance_after = balanceAfter, le_kind = kind, le_note = note,
               le_created_at = now\<rparr> d1)
           (\<lambda>d2. case findAccountById d2 (ac_id account) of
                   None \<Rightarrow> fail ''internal_error'' 500
                 | Some updated \<Rightarrow> Inr (d2, updated)))"

definition permit_frozen_of :: "string \<Rightarrow> billing_permit_row list \<Rightarrow> int" where
  "permit_frozen_of accountId rows =
     sum_where (\<lambda>p. bp_account_id p = accountId \<and> bp_status p = Open) bp_frozen_remaining rows"

definition order_frozen_of :: "string \<Rightarrow> publish_order_row list \<Rightarrow> int" where
  "order_frozen_of accountId rows =
     sum_where (\<lambda>q. po_account_id q = accountId \<and> po_ledger_status q = OFrozen) po_points rows"

definition frozenPointsFor :: "db \<Rightarrow> string \<Rightarrow> int" where
  "frozenPointsFor d accountId =
     permit_frozen_of accountId (billing_permits d) + order_frozen_of accountId (publish_orders d)"

record balance_view =
  bv_total :: int
  bv_frozen :: int
  bv_available :: int

definition balanceSnapshot :: "db \<Rightarrow> account_row \<Rightarrow> balance_view" where
  "balanceSnapshot d account =
     (let frozen = frozenPointsFor d (ac_id account)
      in \<lparr>bv_total = ac_balance account, bv_frozen = frozen,
          bv_available = ac_balance account - frozen\<rparr>)"

definition clear_quota_of :: "string \<Rightarrow> db \<Rightarrow> db" where
  "clear_quota_of i d =
     d\<lparr>accounts := update_rows (\<lambda>a. ac_id a = i) clear_chat_quota (accounts d)\<rparr>"

definition apply_delta_body ::
  "string \<Rightarrow> int \<Rightarrow> ledger_kind \<Rightarrow> utext \<Rightarrow> instant \<Rightarrow> string \<Rightarrow> account_row body" where
  "apply_delta_body accountId delta kind note now uuid d =
     (case findAccountById d accountId of
        None \<Rightarrow> fail ''account_not_found'' 404
      | Some account \<Rightarrow>
          if delta < 0 \<and> bv_available (balanceSnapshot d account) + delta < 0
          then fail ''insufficient_balance'' 409
          else bind_result (applyBalanceChange account delta kind note now uuid d)
                 (\<lambda>(d1, updated).
                    Inr (if kind = Topup then clear_quota_of accountId d1 else d1, updated)))"

definition applyAccountLedgerDelta ::
  "string \<Rightarrow> int \<Rightarrow> ledger_kind \<Rightarrow> utext \<Rightarrow> instant \<Rightarrow> string \<Rightarrow> account_row operation" where
  "applyAccountLedgerDelta accountId delta kind note now uuid =
     transaction (apply_delta_body accountId delta kind note now uuid)"

definition settleFrozenPoints ::
  "string \<Rightarrow> int \<Rightarrow> utext \<Rightarrow> instant \<Rightarrow> string \<Rightarrow> unit body" where
  "settleFrozenPoints accountId charge note now uuid d =
     (case findAccountById d accountId of
        None \<Rightarrow> fail ''account_not_found'' 404
      | Some account \<Rightarrow>
          bind_result (applyBalanceChange account (- charge) Consume note now uuid d)
            (\<lambda>(d1, _). Inr (d1, ())))"

definition refundSettledPoints ::
  "string \<Rightarrow> int \<Rightarrow> utext \<Rightarrow> instant \<Rightarrow> string \<Rightarrow> unit body" where
  "refundSettledPoints accountId points note now uuid d =
     (case findAccountById d accountId of
        None \<Rightarrow> fail ''account_not_found'' 404
      | Some account \<Rightarrow>
          bind_result (applyBalanceChange account points Refund note now uuid d)
            (\<lambda>(d1, _). Inr (d1, ())))"

definition entries_of :: "db \<Rightarrow> string \<Rightarrow> ledger_entry_row list" where
  "entries_of d accountId = filter (\<lambda>e. le_account_id e = accountId) (ledger_entries d)"

definition listLedgerEntries :: "db \<Rightarrow> string \<Rightarrow> nat \<Rightarrow> ledger_entry_row list" where
  "listLedgerEntries d accountId limit =
     take limit (sort_key (\<lambda>e. - le_seq e) (entries_of d accountId))"

text \<open>
  The summaries: the two regular expressions of the code each have a unique match, found here by
  the maximal run of word or non-space characters after the anchor. The labels are the Chinese
  texts of the source as code points.
\<close>

definition OPERATION_LABELS :: "(string \<times> utext) list" where
  "OPERATION_LABELS =
    [(''material_import'', [26448, 26009, 23548, 20837]),
     (''question_pool'', [38382, 39064, 27744, 29983, 25104]),
     (''baseline_probe'', [22522, 32447, 25506, 27979]),
     (''topic_planning'', [20027, 39064, 35268, 21010]),
     (''topic_planning_regen'', [20027, 39064, 35268, 21010, 65288, 37325, 29983, 25104, 65289]),
     (''article_generation'', [25991, 31456, 29983, 25104]),
     (''article_rewrite'', [25991, 31456, 25913, 20889]),
     (''distribution_planning'', [20998, 21457, 35745, 21010]),
     (''monitoring_patrol'', [30417, 27979, 24033, 26816])]"

definition operation_label :: "utext \<Rightarrow> utext option" where
  "operation_label t = map_of (map (\<lambda>(k, v). (ascii k, v)) OPERATION_LABELS) t"

text \<open>The match of a word, the literal \<open> unit \<close> and digits up to the end: the captured word.\<close>

definition match_permit_note :: "utext \<Rightarrow> utext option" where
  "match_permit_note note =
     (let w = takeWhile word_char note in
      if w = [] then None
      else case strip_prefix (ascii '' unit '') (dropWhile word_char note) of
             None \<Rightarrow> None
           | Some ds \<Rightarrow> if ds \<noteq> [] \<and> list_all digit_char ds then Some w else None)"

text \<open>The match of \<open>publish_order\<close> with a run without spaces and an optional refund suffix.\<close>

definition match_order_note :: "utext \<Rightarrow> (utext \<times> bool) option" where
  "match_order_note note =
     (case strip_prefix (ascii ''publish_order '') note of
        None \<Rightarrow> None
      | Some rest \<Rightarrow>
          let sn = takeWhile (\<lambda>c. \<not> js_space c) rest;
              tl = dropWhile (\<lambda>c. \<not> js_space c) rest
          in if sn = [] then None
             else if tl = [] then Some (sn, False)
             else if tl = ascii '' refund'' then Some (sn, True) else None)"

definition ledgerEntrySummary :: "ledger_kind \<Rightarrow> utext \<Rightarrow> utext" where
  "ledgerEntrySummary kind note =
     (case if kind = Consume then match_permit_note note else None of
        Some w \<Rightarrow> (case operation_label w of Some l \<Rightarrow> l | None \<Rightarrow> note)
      | None \<Rightarrow>
          (case if kind = Consume \<or> kind = Refund then match_order_note note else None of
             Some (sn, refund) \<Rightarrow>
               [21457, 24067, 35746, 21333, 32] @ sn @ (if refund then [32, 36864, 27454] else [])
           | None \<Rightarrow> note))"

section \<open>Effect of a balance change\<close>

lemma findAccountById_ac_id: "findAccountById d i = Some a \<Longrightarrow> ac_id a = i"
  by (auto simp: findAccountById_def dest: find_row_SomeD)

lemma findAccountById_member: "findAccountById d i = Some a \<Longrightarrow> a \<in> set (accounts d)"
  by (auto simp: findAccountById_def dest: find_row_SomeD)

lemma findAccountById_frame [simp]:
  "findAccountById (d\<lparr>ledger_entries := x1\<rparr>) i = findAccountById d i"
  "findAccountById (d\<lparr>billing_permits := x2\<rparr>) i = findAccountById d i"
  "findAccountById (d\<lparr>permit_unit_reports := x3\<rparr>) i = findAccountById d i"
  "findAccountById (d\<lparr>publish_orders := x4\<rparr>) i = findAccountById d i"
  "findAccountById (d\<lparr>chat_usage_records := x5\<rparr>) i = findAccountById d i"
  "findAccountById (d\<lparr>provider_usage_records := x6\<rparr>) i = findAccountById d i"
  "findAccountById (d\<lparr>distribution_resource_cache := x7\<rparr>) i = findAccountById d i"
  "findAccountById (d\<lparr>auth_sessions := x8\<rparr>) i = findAccountById d i"
  "findAccountById (d\<lparr>refresh_tokens := x9\<rparr>) i = findAccountById d i"
  "findAccountById (d\<lparr>preference_channels := x10\<rparr>) i = findAccountById d i"
  "findAccountById (d\<lparr>distribution_pool_snapshot := x11\<rparr>) i = findAccountById d i"
  by (simp_all add: findAccountById_def)

text \<open>
  A successful change of the balance of a stored account: one appended entry, one rewritten
  account row, nothing else. All later facts about the ledger rest on this equation.
\<close>

definition posted :: "account_row \<Rightarrow> int \<Rightarrow> ledger_kind \<Rightarrow> utext \<Rightarrow> instant \<Rightarrow> string \<Rightarrow> db \<Rightarrow> db" where
  "posted account delta kind note now uuid d =
     d\<lparr>accounts := update_rows (\<lambda>a. ac_id a = ac_id account)
                    (set_balance (ac_balance account + delta) now) (accounts d),
       ledger_entries := ledger_entries d @
         [\<lparr>le_id = uuid, le_account_id = ac_id account, le_seq = next_ledger_seq d (ac_id account),
           le_delta = delta, le_balance_after = ac_balance account + delta, le_kind = kind,
           le_note = note, le_created_at = now\<rparr>]\<rparr>"

lemma applyBalanceChange_Inr:
  assumes "findAccountById d i = Some account"
    and "applyBalanceChange account delta kind note now uuid d = Inr (d', updated)"
  shows "d' = posted account delta kind note now uuid d"
    and "updated = set_balance (ac_balance account + delta) now account"
    and "uuid \<notin> le_id ` set (ledger_entries d)"
proof -
  have i: "i = ac_id account" using assms(1) by (simp add: findAccountById_ac_id)
  show "d' = posted account delta kind note now uuid d"
    using assms(2)
    by (auto simp: applyBalanceChange_def bind_result_Inr_iff insert_ledger_entry_def posted_def
        next_ledger_seq_def Let_def split: if_splits option.splits)
  show "updated = set_balance (ac_balance account + delta) now account"
    using assms
    by (auto simp: i applyBalanceChange_def bind_result_Inr_iff insert_ledger_entry_def
        findAccountById_def set_balance.find_row_update Let_def split: if_splits option.splits)
  show "uuid \<notin> le_id ` set (ledger_entries d)"
    using assms(2)
    by (auto simp: applyBalanceChange_def bind_result_Inr_iff insert_ledger_entry_def Let_def
        split: if_splits)
qed

lemma posted_frame [simp]:
  "billing_permits (posted a delta k n now u d) = billing_permits d"
  "permit_unit_reports (posted a delta k n now u d) = permit_unit_reports d"
  "publish_orders (posted a delta k n now u d) = publish_orders d"
  "auth_sessions (posted a delta k n now u d) = auth_sessions d"
  "refresh_tokens (posted a delta k n now u d) = refresh_tokens d"
  "chat_usage_records (posted a delta k n now u d) = chat_usage_records d"
  "provider_usage_records (posted a delta k n now u d) = provider_usage_records d"
  "distribution_resource_cache (posted a delta k n now u d) = distribution_resource_cache d"
  by (simp_all add: posted_def)

lemma map_ac_id_posted [simp]: "map ac_id (accounts (posted a delta k n now u d)) = map ac_id (accounts d)"
  by (simp add: posted_def)

lemma findAccountById_posted:
  "findAccountById (posted account delta k n now u d) i =
     (if i = ac_id account
      then map_option (set_balance (ac_balance account + delta) now) (findAccountById d i)
      else findAccountById d i)"
  by (simp add: findAccountById_def posted_def set_balance.find_row_update)

lemma frozenPointsFor_posted [simp]:
  "frozenPointsFor (posted a delta k n now u d) i = frozenPointsFor d i"
  by (simp add: frozenPointsFor_def)

lemma entries_of_posted:
  "entries_of (posted account delta k n now u d) i =
     entries_of d i @ (if i = ac_id account
       then [\<lparr>le_id = u, le_account_id = ac_id account, le_seq = next_ledger_seq d (ac_id account),
              le_delta = delta, le_balance_after = ac_balance account + delta, le_kind = k,
              le_note = n, le_created_at = now\<rparr>] else [])"
  by (simp add: entries_of_def posted_def)

section \<open>The ledger invariant\<close>

text \<open>
  Every balance is the sum of the account's entries, every entry records the running balance, and
  the sequence numbers of an account grow strictly in insertion order.
\<close>

fun running_ok :: "int \<Rightarrow> ledger_entry_row list \<Rightarrow> bool" where
  "running_ok b [] = True"
| "running_ok b (e # es) = (le_balance_after e = b + le_delta e \<and> running_ok (b + le_delta e) es)"

definition delta_sum :: "ledger_entry_row list \<Rightarrow> int" where
  "delta_sum es = sum_list (map le_delta es)"

definition ledger_ok :: "db \<Rightarrow> bool" where
  "ledger_ok d \<longleftrightarrow>
     distinct (map ac_id (accounts d)) \<and>
     distinct (map le_id (ledger_entries d)) \<and>
     le_account_id ` set (ledger_entries d) \<subseteq> ac_id ` set (accounts d) \<and>
     (\<forall>i. sorted_wrt (<) (map le_seq (entries_of d i)) \<and> running_ok 0 (entries_of d i)) \<and>
     (\<forall>a \<in> set (accounts d). ac_balance a = delta_sum (entries_of d (ac_id a)))"

lemma delta_sum_append: "delta_sum (xs @ ys) = delta_sum xs + delta_sum ys"
  by (simp add: delta_sum_def)

lemma running_ok_append:
  "running_ok b (xs @ ys) \<longleftrightarrow> running_ok b xs \<and> running_ok (b + delta_sum xs) ys"
  by (induction xs arbitrary: b) (simp_all add: delta_sum_def add.assoc)

lemma fold_max_ge: "(x :: int) \<le> fold max xs x \<and> (\<forall>y \<in> set xs. y \<le> fold max xs x)"
proof (induction xs arbitrary: x)
  case Nil
  then show ?case by simp
next
  case (Cons z xs)
  from Cons [of "max z x"] show ?case by auto
qed

lemma next_ledger_seq_gt:
  "e \<in> set (entries_of d i) \<Longrightarrow> le_seq e < next_ledger_seq d i"
proof -
  assume e: "e \<in> set (entries_of d i)"
  then obtain x xs where xs: "map le_seq (entries_of d i) = x # xs"
    by (cases "map le_seq (entries_of d i)") auto
  have "le_seq e \<in> set (x # xs)" using e by (simp add: xs [symmetric])
  then have "le_seq e \<le> fold max xs x" using fold_max_ge [of x xs] by auto
  then show ?thesis
    using xs by (simp add: next_ledger_seq_def max_where_def entries_of_def)
qed

lemma ledger_ok_balance:
  assumes "ledger_ok d" and "findAccountById d i = Some a"
  shows "ac_balance a = delta_sum (entries_of d i)"
proof -
  have "a \<in> set (accounts d)" and "ac_id a = i"
    using assms(2) by (simp_all add: findAccountById_ac_id findAccountById_member)
  with assms(1) show ?thesis by (simp add: ledger_ok_def)
qed

lemma ledger_ok_posted:
  assumes ok: "ledger_ok d" and acc: "findAccountById d i = Some account"
    and fresh: "uuid \<notin> le_id ` set (ledger_entries d)"
  shows "ledger_ok (posted account delta kind note now uuid d)"
proof -
  let ?d' = "posted account delta kind note now uuid d"
  have i: "ac_id account = i" and mem: "account \<in> set (accounts d)"
    using acc by (simp_all add: findAccountById_ac_id findAccountById_member)
  have bal: "ac_balance account = delta_sum (entries_of d i)"
    using ok acc by (rule ledger_ok_balance)
  have ids: "distinct (map ac_id (accounts ?d'))"
    using ok by (simp add: ledger_ok_def)
  have lids: "distinct (map le_id (ledger_entries ?d'))"
    using ok fresh by (auto simp: ledger_ok_def posted_def)
  have fk: "le_account_id ` set (ledger_entries ?d') \<subseteq> ac_id ` set (accounts ?d')"
    using ok mem by (auto simp: ledger_ok_def posted_def)
  have old: "sorted_wrt (<) (map le_seq (entries_of d j))" "running_ok 0 (entries_of d j)" for j
    using ok by (simp_all add: ledger_ok_def)
  have seqs: "sorted_wrt (<) (map le_seq (entries_of ?d' j)) \<and> running_ok 0 (entries_of ?d' j)" for j
    using old [of j] next_ledger_seq_gt [of _ d i]
    by (simp add: entries_of_posted sorted_wrt_append running_ok_append i bal [symmetric])
  have bals: "ac_balance a = delta_sum (entries_of ?d' (ac_id a))" if "a \<in> set (accounts ?d')" for a
    using that ok bal
    by (auto simp: posted_def set_update_rows ledger_ok_def entries_of_def set_balance_def
        delta_sum_append i split: if_splits) (auto simp: delta_sum_def)
  show ?thesis
    using ids lids fk seqs bals by (simp add: ledger_ok_def)
qed

section \<open>Solvency\<close>

text \<open>
  An account is solvent when its frozen points are covered by its balance: the available points
  of \<^const>\<open>balanceSnapshot\<close> are not negative.
\<close>

definition solvent :: "db \<Rightarrow> string \<Rightarrow> bool" where
  "solvent d i \<longleftrightarrow>
     (\<forall>a. findAccountById d i = Some a \<longrightarrow> frozenPointsFor d i \<le> ac_balance a)"

lemma clear_quota_of_frame [simp]:
  "ledger_entries (clear_quota_of i d) = ledger_entries d"
  "billing_permits (clear_quota_of i d) = billing_permits d"
  "permit_unit_reports (clear_quota_of i d) = permit_unit_reports d"
  "publish_orders (clear_quota_of i d) = publish_orders d"
  "auth_sessions (clear_quota_of i d) = auth_sessions d"
  "refresh_tokens (clear_quota_of i d) = refresh_tokens d"
  "chat_usage_records (clear_quota_of i d) = chat_usage_records d"
  "provider_usage_records (clear_quota_of i d) = provider_usage_records d"
  "distribution_resource_cache (clear_quota_of i d) = distribution_resource_cache d"
  "map ac_id (accounts (clear_quota_of i d)) = map ac_id (accounts d)"
  "entries_of (clear_quota_of i d) j = entries_of d j"
  "frozenPointsFor (clear_quota_of i d) j = frozenPointsFor d j"
  by (simp_all add: clear_quota_of_def entries_of_def frozenPointsFor_def)

lemma findAccountById_clear_quota_of:
  "findAccountById (clear_quota_of i d) j =
     (if j = i then map_option clear_chat_quota (findAccountById d j) else findAccountById d j)"
  by (simp add: findAccountById_def clear_quota_of_def clear_quota.find_row_update)

lemma ac_id_image_clear_quota_of [simp]:
  "ac_id ` set (accounts (clear_quota_of i d)) = ac_id ` set (accounts d)"
  by (simp add: clear_quota_of_def)

lemma ledger_ok_clear_quota_of:
  assumes "ledger_ok d"
  shows "ledger_ok (clear_quota_of i d)"
proof -
  have "ac_balance a = delta_sum (entries_of d (ac_id a))"
    if "a \<in> set (accounts (clear_quota_of i d))" for a
    using that assms
    by (auto simp: clear_quota_of_def set_update_rows clear_chat_quota_def ledger_ok_def
        split: if_splits)
  then show ?thesis using assms by (simp add: ledger_ok_def)
qed

text \<open>What a successful top-up, adjustment or grant does to the database.\<close>

lemma apply_delta_body_Inr:
  assumes "apply_delta_body i delta kind note now uuid d = Inr (d', updated)"
  obtains account where
    "findAccountById d i = Some account"
    and "d' = (if kind = Topup then clear_quota_of i (posted account delta kind note now uuid d)
               else posted account delta kind note now uuid d)"
    and "updated = set_balance (ac_balance account + delta) now account"
    and "uuid \<notin> le_id ` set (ledger_entries d)"
    and "delta < 0 \<longrightarrow> frozenPointsFor d i \<le> ac_balance account + delta"
proof -
  from assms obtain account where acc: "findAccountById d i = Some account"
    by (auto simp: apply_delta_body_def split: option.splits)
  have i: "ac_id account = i" using acc by (simp add: findAccountById_ac_id)
  have av: "delta < 0 \<longrightarrow> frozenPointsFor d i \<le> ac_balance account + delta"
    using assms acc
    by (auto simp: apply_delta_body_def balanceSnapshot_def Let_def i split: if_split_asm)
  have "bind_result (applyBalanceChange account delta kind note now uuid d)
      (\<lambda>(d1, updated). Inr (if kind = Topup then clear_quota_of i d1 else d1, updated)) = Inr (d', updated)"
    using assms acc by (auto simp: apply_delta_body_def split: if_split_asm)
  then obtain d1 where
    ch: "applyBalanceChange account delta kind note now uuid d = Inr (d1, updated)"
    and d': "d' = (if kind = Topup then clear_quota_of i d1 else d1)"
    unfolding bind_result_Inr_iff by auto
  show ?thesis
    using that [OF acc] d' av applyBalanceChange_Inr [OF acc ch] by simp
qed

lemma ledger_ok_apply_delta:
  assumes "ledger_ok d" and "apply_delta_body i delta kind note now uuid d = Inr (d', updated)"
  shows "ledger_ok d'"
  using assms(2)
proof (rule apply_delta_body_Inr)
  fix account
  assume acc: "findAccountById d i = Some account"
    and fresh: "uuid \<notin> le_id ` set (ledger_entries d)"
    and d': "d' = (if kind = Topup then clear_quota_of i (posted account delta kind note now uuid d)
                   else posted account delta kind note now uuid d)"
  have "ledger_ok (posted account delta kind note now uuid d)"
    using assms(1) acc fresh by (rule ledger_ok_posted)
  then show ?thesis unfolding d' by (auto intro: ledger_ok_clear_quota_of)
qed

lemma solvent_apply_delta:
  assumes "solvent d j" and "apply_delta_body i delta kind note now uuid d = Inr (d', updated)"
  shows "solvent d' j"
  using assms(2)
proof (rule apply_delta_body_Inr)
  fix account
  assume acc: "findAccountById d i = Some account"
    and cover: "delta < 0 \<longrightarrow> frozenPointsFor d i \<le> ac_balance account + delta"
    and d': "d' = (if kind = Topup then clear_quota_of i (posted account delta kind note now uuid d)
                   else posted account delta kind note now uuid d)"
  have i: "ac_id account = i" using acc by (simp add: findAccountById_ac_id)
  have "frozenPointsFor d i \<le> ac_balance account + delta" if "j = i"
    using assms(1) cover acc that by (cases "delta < 0") (auto simp: solvent_def)
  then show ?thesis
    using assms(1) acc d'
    by (auto simp: solvent_def findAccountById_clear_quota_of findAccountById_posted i
        set_balance_def clear_chat_quota_def split: if_splits)
qed

section \<open>The books\<close>

text \<open>
  What an account has spent: the consume and refund entries of its ledger, and the points of its
  settled publish orders.
\<close>

definition is_spend :: "ledger_kind \<Rightarrow> bool" where
  "is_spend k \<longleftrightarrow> k = Consume \<or> k = Refund"

definition spend_sum :: "db \<Rightarrow> string \<Rightarrow> int" where
  "spend_sum d i = sum_where (\<lambda>e. le_account_id e = i \<and> is_spend (le_kind e)) le_delta (ledger_entries d)"

definition order_spent :: "db \<Rightarrow> string \<Rightarrow> int" where
  "order_spent d i =
     sum_where (\<lambda>q. po_account_id q = i \<and> po_ledger_status q = OSettled) po_points (publish_orders d)"

lemma spend_sum_posted:
  "spend_sum (posted account delta k n now u d) i =
     spend_sum d i + (if i = ac_id account \<and> is_spend k then delta else 0)"
  by (auto simp: spend_sum_def posted_def sum_where_append)

lemma order_spent_posted [simp]: "order_spent (posted account delta k n now u d) i = order_spent d i"
  by (simp add: order_spent_def)

text \<open>The ledger facts depend on the accounts and the entries only.\<close>

lemma ledger_frame [simp]:
  "ledger_ok (d\<lparr>billing_permits := x2\<rparr>) = ledger_ok d"
  "ledger_ok (d\<lparr>permit_unit_reports := x3\<rparr>) = ledger_ok d"
  "ledger_ok (d\<lparr>publish_orders := x4\<rparr>) = ledger_ok d"
  "ledger_ok (d\<lparr>chat_usage_records := x5\<rparr>) = ledger_ok d"
  "ledger_ok (d\<lparr>provider_usage_records := x6\<rparr>) = ledger_ok d"
  "ledger_ok (d\<lparr>distribution_resource_cache := x7\<rparr>) = ledger_ok d"
  "ledger_ok (d\<lparr>auth_sessions := x8\<rparr>) = ledger_ok d"
  "ledger_ok (d\<lparr>refresh_tokens := x9\<rparr>) = ledger_ok d"
  "ledger_ok (d\<lparr>preference_channels := x10\<rparr>) = ledger_ok d"
  "ledger_ok (d\<lparr>distribution_pool_snapshot := x11\<rparr>) = ledger_ok d"
  by (simp_all add: ledger_ok_def entries_of_def)

lemma spend_frame [simp]:
  "spend_sum (d\<lparr>accounts := x1\<rparr>) i = spend_sum d i"
  "spend_sum (d\<lparr>billing_permits := x2\<rparr>) i = spend_sum d i"
  "spend_sum (d\<lparr>permit_unit_reports := x3\<rparr>) i = spend_sum d i"
  "spend_sum (d\<lparr>publish_orders := x4\<rparr>) i = spend_sum d i"
  "order_spent (d\<lparr>accounts := x1\<rparr>) i = order_spent d i"
  "order_spent (d\<lparr>billing_permits := x2\<rparr>) i = order_spent d i"
  "order_spent (d\<lparr>permit_unit_reports := x3\<rparr>) i = order_spent d i"
  "order_spent (d\<lparr>ledger_entries := x5\<rparr>) i = order_spent d i"
  by (simp_all add: spend_sum_def order_spent_def)

text \<open>Settling a charge that was frozen keeps the account solvent.\<close>

lemma solvent_posted_charge:
  assumes "\<And>j. solvent d j" and acc: "findAccountById d i = Some account"
    and drop: "frozenPointsFor d' i \<le> frozenPointsFor d i + delta"
    and other: "\<And>j. j \<noteq> i \<Longrightarrow> frozenPointsFor d' j \<le> frozenPointsFor d j"
    and accs: "accounts d' = accounts (posted account delta k n now u d)"
  shows "solvent d' j"
proof -
  have i: "ac_id account = i" using acc by (simp add: findAccountById_ac_id)
  have look: "findAccountById d' m = findAccountById (posted account delta k n now u d) m" for m
    using accs by (simp add: findAccountById_def)
  show ?thesis
    using assms(1) [of j] drop other [of j] acc
    by (cases "j = i")
      (auto simp: solvent_def look findAccountById_posted i set_balance_def)
qed

section \<open>Properties\<close>

lemma sort_desc_rev:
  assumes "sorted_wrt (<) (map f xs)"
  shows "sort_key (\<lambda>e. - (f e :: int)) xs = rev xs"
proof (rule sort_key_inj_key_eq)
  show "mset xs = mset (rev xs)" by simp
  show "inj_on (\<lambda>e. - f e) (set xs)"
    using assms by (auto simp: strict_sorted_iff distinct_map inj_on_def)
  have "sorted (map f xs)" using assms by (simp add: strict_sorted_iff)
  then show "sorted (map (\<lambda>e. - f e) (rev xs))"
    by (induction xs) (auto simp: sorted_append)
qed

text \<open>Matching the notes that the settlement paths write.\<close>

lemma match_permit_note_shape:
  assumes "w \<noteq> []" and "list_all word_char (ascii w)"
  shows "match_permit_note (ascii w @ ascii '' unit '' @ ascii (show_nat n)) = Some (ascii w)"
proof -
  have sp: "ascii '' unit '' @ x = 32 # ascii ''unit '' @ x" for x by (simp add: ascii_def)
  have tw: "takeWhile word_char (ascii w @ ascii '' unit '' @ ascii (show_nat n)) = ascii w"
    unfolding sp using assms(2) by (rule takeWhile_append_stop) (simp add: word_char_def)
  then have "dropWhile word_char (ascii w @ ascii '' unit '' @ ascii (show_nat n)) =
      ascii '' unit '' @ ascii (show_nat n)"
    by (metis same_append_eq takeWhile_dropWhile_id)
  moreover have "ascii w \<noteq> []" "ascii (show_nat n) \<noteq> []"
    using assms(1) by (simp_all add: ascii_def)
  ultimately show ?thesis
    using tw digits_show_nat [of n] by (simp add: match_permit_note_def Let_def)
qed

definition no_space :: "string \<Rightarrow> bool" where
  "no_space s \<longleftrightarrow> list_all (\<lambda>c. \<not> js_space c) (ascii s)"

lemma takeWhile_no_space_refund:
  assumes "no_space sn"
  shows "takeWhile (\<lambda>c. \<not> js_space c) (ascii sn @ ascii '' refund'') = ascii sn"
proof -
  have sp: "ascii '' refund'' = 32 # ascii ''refund''" by (simp add: ascii_def)
  show ?thesis
    unfolding sp using assms unfolding no_space_def
    by (rule takeWhile_append_stop) (simp add: js_space_def)
qed

lemma match_order_note_shape:
  assumes "sn \<noteq> []" and "no_space sn"
  shows "match_order_note (ascii ''publish_order '' @ ascii sn) = Some (ascii sn, False)"
    and "match_order_note (ascii ''publish_order '' @ ascii sn @ ascii '' refund'') =
      Some (ascii sn, True)"
proof -
  let ?ns = "\<lambda>c. \<not> js_space c"
  have a: "takeWhile ?ns (ascii sn) = ascii sn" "dropWhile ?ns (ascii sn) = []"
    using assms(2) by (simp_all add: no_space_def takeWhile_all list_all_iff)
  have b: "takeWhile ?ns (ascii sn @ ascii '' refund'') = ascii sn"
    using assms(2) by (rule takeWhile_no_space_refund)
  then have c: "dropWhile ?ns (ascii sn @ ascii '' refund'') = ascii '' refund''"
    by (metis same_append_eq takeWhile_dropWhile_id)
  have ne: "ascii sn \<noteq> []" "ascii '' refund'' \<noteq> []"
    using assms(1) by (simp_all add: ascii_def)
  show "match_order_note (ascii ''publish_order '' @ ascii sn) = Some (ascii sn, False)"
    using ne by (simp add: match_order_note_def Let_def a)
  show "match_order_note (ascii ''publish_order '' @ ascii sn @ ascii '' refund'') =
      Some (ascii sn, True)"
    using ne by (simp add: match_order_note_def Let_def b c)
qed

lemma match_permit_note_order:
  assumes "no_space sn" and "sfx = [] \<or> sfx = ascii '' refund''"
  shows "match_permit_note (ascii ''publish_order '' @ ascii sn @ sfx) = None"
proof (rule ccontr)
  assume "match_permit_note (ascii ''publish_order '' @ ascii sn @ sfx) \<noteq> None"
  moreover have "dropWhile word_char (ascii ''publish_order '' @ x) = ascii '' '' @ x" for x
    by (simp add: ascii_def word_char_def)
  ultimately obtain ds where
    ds: "ascii '' '' @ ascii sn @ sfx = ascii '' unit '' @ ds" "list_all digit_char ds"
    by (auto simp: match_permit_note_def Let_def strip_prefix_Some_iff split: option.splits if_splits)
  then have eq: "ascii sn @ sfx = ascii ''unit'' @ 32 # ds"
    by (simp add: ascii_def)
  show False
    using assms(2)
  proof
    assume "sfx = []"
    with eq have "32 \<in> set (ascii sn)" by simp
    with assms(1) show False by (auto simp: no_space_def list_all_iff js_space_def)
  next
    assume sfx: "sfx = ascii '' refund''"
    have "takeWhile (\<lambda>c. \<not> js_space c) (ascii sn @ sfx) = ascii sn"
      using assms(1) unfolding sfx by (rule takeWhile_no_space_refund)
    moreover have "takeWhile (\<lambda>c. \<not> js_space c) (ascii ''unit'' @ 32 # ds) = ascii ''unit''"
      by (simp add: ascii_def js_space_def)
    ultimately have "ascii sn = ascii ''unit''" using eq by simp
    with eq sfx have "ds = ascii ''refund''" by (simp add: ascii_def)
    with ds(2) show False by (simp add: ascii_def digit_char_def)
  qed
qed

text \<open>On a consistent ledger and with a fresh row id, a balance change never fails.\<close>

lemma applyBalanceChange_ok:
  assumes ok: "ledger_ok d" and acc: "findAccountById d i = Some account"
    and fresh: "uuid \<notin> le_id ` set (ledger_entries d)"
  shows "applyBalanceChange account delta kind note now uuid d =
    Inr (posted account delta kind note now uuid d, set_balance (ac_balance account + delta) now account)"
proof -
  have i: "ac_id account = i" using acc by (simp add: findAccountById_ac_id)
  have seq: "(i, next_ledger_seq d i) \<notin> (\<lambda>x. (le_account_id x, le_seq x)) ` set (ledger_entries d)"
    using next_ledger_seq_gt [of _ d i] by (fastforce simp: entries_of_def)
  have upd: "findAccountById (d\<lparr>accounts := update_rows (\<lambda>a. ac_id a = i) u (accounts d)\<rparr>) i =
      Some (u account)" if "key_update ac_id u" for u
    using key_update.find_row_update [OF that] acc by (simp add: findAccountById_def)
  have nseq: "next_ledger_seq (d\<lparr>accounts := x\<rparr>) i = next_ledger_seq d i" for x
    by (simp add: next_ledger_seq_def)
  show ?thesis
    using fresh seq upd [OF set_balance.key_update_axioms, of "ac_balance account + delta" now]
    by (simp add: applyBalanceChange_def insert_ledger_entry_def Let_def i nseq posted_def)
qed

lemma ledger_ok_posted_head:
  assumes "ledger_ok d" and "findAccountById d i = Some a" and "entries_of d i = es @ [e]"
  shows "le_balance_after e = ac_balance a"
proof -
  have "running_ok 0 (entries_of d i)" using assms(1) by (simp add: ledger_ok_def)
  with assms(3) ledger_ok_balance [OF assms(1,2)] show ?thesis
    by (simp add: running_ok_append delta_sum_append) (simp add: delta_sum_def)
qed

lemma operation_label_word:
  "(w, l) \<in> set OPERATION_LABELS \<Longrightarrow>
   w \<noteq> [] \<and> list_all word_char (ascii w) \<and> operation_label (ascii w) = Some l"
  by (auto simp: OPERATION_LABELS_def operation_label_def word_char_def ascii_def)

section \<open>A small ledger\<close>

text \<open>One account with the sign-up grant, on which the properties are exercised.\<close>

definition demo_account :: account_row where
  "demo_account = \<lparr>ac_id = ''acc-1'', ac_phone = ''13800000000'', ac_password_hash = ''h'',
     ac_password_version = 1, ac_status = Active, ac_must_change_password = True, ac_balance = 500,
     ac_created_at = 0, ac_updated_at = 0, ac_chat_quota_used_milli = 0, ac_admin_note = []\<rparr>"

definition demo_db :: db where
  "demo_db = empty_db\<lparr>accounts := [demo_account],
     ledger_entries := [\<lparr>le_id = ''le-1'', le_account_id = ''acc-1'', le_seq = 1, le_delta = 500,
       le_balance_after = 500, le_kind = Grant, le_note = [], le_created_at = 0\<rparr>]\<rparr>"

lemma demo_ledger_ok: "ledger_ok demo_db"
  by (auto simp: ledger_ok_def demo_db_def demo_account_def empty_db_def entries_of_def delta_sum_def)

lemma demo_find: "findAccountById demo_db ''acc-1'' = Some demo_account"
  by (simp add: findAccountById_def demo_db_def demo_account_def)

section \<open>Properties of the ledger\<close>

text \<open>
  C7: the complete behaviour of \<^const>\<open>applyAccountLedgerDelta\<close>. An unknown account is a 404; a
  deduction that would eat into frozen points is a 409; both leave the database as it was. Every
  other change succeeds: the balance moves by the amount, one entry is appended, and a top-up
  clears the hidden chat quota of that account.
\<close>

theorem applyAccountLedgerDelta_spec:
  assumes "ledger_ok d" and "uuid \<notin> le_id ` set (ledger_entries d)"
  shows "applyAccountLedgerDelta i delta kind note now uuid d =
    (case findAccountById d i of
       None \<Rightarrow> (d, fail ''account_not_found'' 404)
     | Some account \<Rightarrow>
         if delta < 0 \<and> ac_balance account - frozenPointsFor d i + delta < 0
         then (d, fail ''insufficient_balance'' 409)
         else ((if kind = Topup then clear_quota_of i else id)
                 (posted account delta kind note now uuid d),
               Inr (set_balance (ac_balance account + delta) now account)))"
  using applyBalanceChange_ok [OF assms(1) _ assms(2), of i]
  by (auto simp: applyAccountLedgerDelta_def transaction_def apply_delta_body_def balanceSnapshot_def
      Let_def findAccountById_ac_id split: option.splits)

theorem applyAccountLedgerDelta_witness:
  "applyAccountLedgerDelta ''acc-1'' (- 600) Adjust [] 5 ''le-2'' demo_db =
     (demo_db, fail ''insufficient_balance'' 409)"
  using applyAccountLedgerDelta_spec [OF demo_ledger_ok, of "''le-2''" "''acc-1''" "- 600" Adjust "[]" 5]
  by (simp add: demo_find frozenPointsFor_def permit_frozen_of_def order_frozen_of_def)
    (simp add: demo_db_def demo_account_def empty_db_def)

text \<open>
  The ledger page shows an account's own entries in reverse order of their creation, and its
  first line carries the current balance of the account.
\<close>

theorem listLedgerEntries_newest_first:
  assumes "ledger_ok d" and "findAccountById d i = Some account" and "0 < n"
    and "entries_of d i \<noteq> []"
  shows "listLedgerEntries d i n = take n (rev (entries_of d i)) \<and>
    le_balance_after (hd (listLedgerEntries d i n)) = ac_balance account"
proof -
  obtain es e where es: "entries_of d i = es @ [e]"
    using assms(4) by (cases "entries_of d i" rule: rev_cases) auto
  have eq: "listLedgerEntries d i n = take n (rev (entries_of d i))"
    using assms(1) by (simp add: listLedgerEntries_def sort_desc_rev ledger_ok_def)
  have "hd (take n (rev (entries_of d i))) = e"
    using assms(3) es by (cases n) auto
  with eq ledger_ok_posted_head [OF assms(1,2) es] show ?thesis by simp
qed

theorem listLedgerEntries_witness:
  "le_balance_after (hd (listLedgerEntries demo_db ''acc-1'' 20)) = 500"
  using listLedgerEntries_newest_first [OF demo_ledger_ok demo_find, of 20]
  by (simp add: entries_of_def demo_db_def demo_account_def)

text \<open>
  The notes that the two settlement paths write are understood by the summary: a settled unit
  of any of the nine operations shows that operation's label, a settled order shows its number and
  a refunded order shows it with the refund suffix.
\<close>

theorem ledgerEntrySummary_of_settlements:
  assumes "(w, l) \<in> set OPERATION_LABELS" and "sn \<noteq> []" and "no_space sn"
  shows "ledgerEntrySummary Consume (ascii w @ ascii '' unit '' @ ascii (show_nat n)) = l \<and>
    ledgerEntrySummary Consume (ascii ''publish_order '' @ ascii sn) =
      [21457, 24067, 35746, 21333, 32] @ ascii sn \<and>
    ledgerEntrySummary Refund (ascii ''publish_order '' @ ascii sn @ ascii '' refund'') =
      [21457, 24067, 35746, 21333, 32] @ ascii sn @ [32, 36864, 27454]"
  using match_permit_note_shape [of w n] operation_label_word [OF assms(1)]
    match_order_note_shape [OF assms(2,3)] match_permit_note_order [OF assms(3), of "[]"]
  by (simp add: ledgerEntrySummary_def)

theorem ledgerEntrySummary_witness:
  "ledgerEntrySummary Consume (ascii ''article_rewrite'' @ ascii '' unit '' @ ascii (show_nat 3)) =
     [25991, 31456, 25913, 20889]"
  using ledgerEntrySummary_of_settlements [of "''article_rewrite''" "[25991, 31456, 25913, 20889]" "''sn-1''" 3]
  by (simp add: OPERATION_LABELS_def no_space_def ascii_def js_space_def)

end
