(* ===== verification/Permits.thy ===== *)
theory Permits
  imports Ledger "HOL-Library.List_Lexorder" "HOL-Library.Char_ord"
begin

text \<open>
  Billing permits (\<open>backend/src/domain/permits.ts\<close> and the request schemas of
  \<open>backend/src/http/billing-routes.ts\<close>): a permit freezes its full price, each unit report either
  settles the unit (the base fee with the first success) or releases it, and the permit settles
  itself with the last report, on close, or when it is reclaimed as stale. The lemmas give the
  effect of every operation on the tables and the permit invariant that ties the frozen points to
  the reports.
\<close>

section \<open>Data and operations\<close>

record permit_apply_input =
  pi_permitId :: string
  pi_operation :: string
  pi_units :: int
  pi_unitPrice :: "int option"
  pi_basePrice :: "int option"

record permit_projection =
  pp_permitId :: string
  pp_operation :: string
  pp_units :: int
  pp_unitPrice :: int
  pp_basePrice :: int
  pp_totalPoints :: int
  pp_status :: permit_status
  pp_frozenPoints :: int
  pp_consumedPoints :: int
  pp_refundedPoints :: int
  pp_unitsSucceeded :: int
  pp_unitsFailed :: int
  pp_unitsUnreported :: int
  pp_createdAt :: instant
  pp_settledAt :: "instant option"

record permit_apply_result =
  ar_permit :: permit_projection
  ar_created :: bool

definition loadPermit :: "db \<Rightarrow> string \<Rightarrow> billing_permit_row option" where
  "loadPermit d permitId = find_row bp_id permitId (billing_permits d)"

definition requireOwnedPermit :: "db \<Rightarrow> string \<Rightarrow> string \<Rightarrow> billing_permit_row result" where
  "requireOwnedPermit d accountId permitId =
     (case loadPermit d permitId of
        None \<Rightarrow> fail ''permit_not_found'' 404
      | Some permit \<Rightarrow>
          if bp_account_id permit \<noteq> accountId then fail ''permit_not_found'' 404 else Inr permit)"

definition markPermitSettled :: "string \<Rightarrow> instant \<Rightarrow> db \<Rightarrow> db" where
  "markPermitSettled permitId now d =
     d\<lparr>billing_permits := update_rows (\<lambda>p. bp_id p = permitId) (settle_permit_row now)
                            (billing_permits d)\<rparr>"

definition openPermitCount :: "db \<Rightarrow> string \<Rightarrow> int" where
  "openPermitCount d accountId =
     count_where (\<lambda>p. bp_account_id p = accountId \<and> bp_status p = Open) (billing_permits d)"

definition stale_open :: "string \<Rightarrow> instant \<Rightarrow> billing_permit_row \<Rightarrow> bool" where
  "stale_open accountId cutoff p \<longleftrightarrow>
     bp_account_id p = accountId \<and> bp_status p = Open \<and> bp_last_activity_at p < cutoff"

definition reclaimStaleOpenPermits :: "string \<Rightarrow> instant \<Rightarrow> int \<Rightarrow> db \<Rightarrow> db" where
  "reclaimStaleOpenPermits accountId now ttlMs d =
     d\<lparr>billing_permits := update_rows (stale_open accountId (now - ttlMs)) (settle_permit_row now)
                            (billing_permits d)\<rparr>"

definition succeeded_of :: "permit_unit_report_row list \<Rightarrow> string \<Rightarrow> int" where
  "succeeded_of rs permitId = count_where (\<lambda>r. ur_permit_id r = permitId \<and> ur_outcome r = Success) rs"

definition failed_of :: "permit_unit_report_row list \<Rightarrow> string \<Rightarrow> int" where
  "failed_of rs permitId = count_where (\<lambda>r. ur_permit_id r = permitId \<and> ur_outcome r = Failure) rs"

definition reportCounts :: "db \<Rightarrow> string \<Rightarrow> int \<times> int" where
  "reportCounts d permitId =
     (succeeded_of (permit_unit_reports d) permitId, failed_of (permit_unit_reports d) permitId)"

definition permitProjection :: "db \<Rightarrow> billing_permit_row \<Rightarrow> permit_projection" where
  "permitProjection d permit =
     (let (succeeded, failed) = reportCounts d (bp_id permit);
          reported = succeeded + failed;
          totalPoints = bp_base_price permit + bp_unit_price permit * bp_units permit;
          consumedPoints = (if succeeded > 0 then bp_base_price permit else 0) +
                           bp_unit_price permit * succeeded;
          refundedPoints = totalPoints - consumedPoints - bp_frozen_remaining permit
      in \<lparr>pp_permitId = bp_id permit, pp_operation = bp_operation permit,
          pp_units = bp_units permit, pp_unitPrice = bp_unit_price permit,
          pp_basePrice = bp_base_price permit, pp_totalPoints = totalPoints,
          pp_status = bp_status permit, pp_frozenPoints = bp_frozen_remaining permit,
          pp_consumedPoints = consumedPoints, pp_refundedPoints = refundedPoints,
          pp_unitsSucceeded = succeeded, pp_unitsFailed = failed,
          pp_unitsUnreported = bp_units permit - reported,
          pp_createdAt = bp_created_at permit, pp_settledAt = bp_settled_at permit\<rparr>)"

definition insert_permit :: "billing_permit_row \<Rightarrow> db \<Rightarrow> db result" where
  "insert_permit p d =
     (if findAccountById d (bp_account_id p) = None then Inl (SqlError ForeignKeyConstraint)
      else bind_result (insert_row bp_id p (billing_permits d))
             (\<lambda>rows. Inr (d\<lparr>billing_permits := rows\<rparr>)))"

definition apply_permit_body ::
  "backend_config \<Rightarrow> string \<Rightarrow> permit_apply_input \<Rightarrow> instant \<Rightarrow> permit_apply_result body" where
  "apply_permit_body cfg accountId input now d =
     (let knownPrice = operation_price_of (pi_operation input);
          unitPrice = (case pi_unitPrice input of Some x \<Rightarrow> Some x
                       | None \<Rightarrow> map_option price_per_unit knownPrice);
          basePrice = (case pi_basePrice input of Some x \<Rightarrow> Some x
                       | None \<Rightarrow> map_option price_base knownPrice)
      in case loadPermit d (pi_permitId input) of
           Some existing \<Rightarrow>
             if bp_account_id existing \<noteq> accountId then fail ''permit_not_found'' 404
             else if \<not> (bp_operation existing = pi_operation input \<and>
                        bp_units existing = pi_units input \<and>
                        Some (bp_unit_price existing) = unitPrice \<and>
                        Some (bp_base_price existing) = basePrice)
             then fail ''permit_id_conflict'' 409
             else Inr (d, \<lparr>ar_permit = permitProjection d existing, ar_created = False\<rparr>)
         | None \<Rightarrow>
             case knownPrice of
               None \<Rightarrow> fail ''unknown_operation'' 400
             | Some price \<Rightarrow>
                 if unitPrice \<noteq> Some (price_per_unit price) \<or> basePrice \<noteq> Some (price_base price)
                 then fail ''price_mismatch'' 400
                 else
                   let d1 = reclaimStaleOpenPermits accountId now (staleOpenPermitTtlMs cfg) d;
                       active = openPermitCount d1 accountId;
                       limit = maxConcurrentPermitsPerAccount cfg
                   in if active \<ge> limit
                      then Inl (AppError ''concurrency_limit'' 429
                                  [(''limit'', limit), (''active'', active)])
                      else
                        let required = price_base price + price_per_unit price * pi_units input
                        in case findAccountById d1 accountId of
                             None \<Rightarrow> fail ''account_not_found'' 404
                           | Some account \<Rightarrow>
                               let available = ac_balance account - frozenPointsFor d1 accountId
                               in if available < required
                                  then Inl (AppError ''insufficient_balance'' 402
                                         [(''required'', required), (''available'', available),
                                          (''frozen'', ac_balance account - available),
                                          (''total'', ac_balance account)])
                                  else bind_result
                                    (insert_permit
                                       \<lparr>bp_id = pi_permitId input, bp_account_id = accountId,
                                        bp_operation = pi_operation input,
                                        bp_units = pi_units input,
                                        bp_unit_price = price_per_unit price,
                                        bp_base_price = price_base price,
                                        bp_frozen_remaining = required, bp_status = Open,
                                        bp_created_at = now, bp_settled_at = None,
                                        bp_last_activity_at = now\<rparr> d1)
                                    (\<lambda>d2. case loadPermit d2 (pi_permitId input) of
                                            None \<Rightarrow> fail ''internal_error'' 500
                                          | Some created \<Rightarrow>
                                              Inr (d2, \<lparr>ar_permit = permitProjection d2 created,
                                                        ar_created = True\<rparr>)))"

definition applyForPermit ::
  "backend_config \<Rightarrow> string \<Rightarrow> permit_apply_input \<Rightarrow> instant \<Rightarrow> permit_apply_result operation" where
  "applyForPermit cfg accountId input now =
     transaction (apply_permit_body cfg accountId input now)"

definition permit_note :: "string \<Rightarrow> int \<Rightarrow> utext" where
  "permit_note operation unit = ascii operation @ ascii '' unit '' @ ascii (show_int unit)"

definition find_report :: "db \<Rightarrow> string \<Rightarrow> int \<Rightarrow> permit_unit_report_row option" where
  "find_report d permitId unit =
     find_row (\<lambda>r. (ur_permit_id r, ur_unit_index r)) (permitId, unit) (permit_unit_reports d)"

definition insert_report :: "permit_unit_report_row \<Rightarrow> db \<Rightarrow> db result" where
  "insert_report r d =
     (if loadPermit d (ur_permit_id r) = None then Inl (SqlError ForeignKeyConstraint)
      else bind_result
             (insert_row (\<lambda>r. (ur_permit_id r, ur_unit_index r)) r (permit_unit_reports d))
             (\<lambda>rows. Inr (d\<lparr>permit_unit_reports := rows\<rparr>)))"

definition touch_permit :: "string \<Rightarrow> instant \<Rightarrow> db \<Rightarrow> db" where
  "touch_permit permitId now d =
     d\<lparr>billing_permits := update_rows (\<lambda>p. bp_id p = permitId) (touch_permit_row now)
                            (billing_permits d)\<rparr>"

definition touch_open_permit :: "string \<Rightarrow> instant \<Rightarrow> db \<Rightarrow> db" where
  "touch_open_permit permitId now d =
     d\<lparr>billing_permits := update_rows (\<lambda>p. bp_id p = permitId \<and> bp_status p = Open)
                            (touch_permit_row now) (billing_permits d)\<rparr>"

definition unfreeze_permit :: "string \<Rightarrow> int \<Rightarrow> db \<Rightarrow> db" where
  "unfreeze_permit permitId c d =
     d\<lparr>billing_permits := update_rows (\<lambda>p. bp_id p = permitId) (unfreeze_permit_row c)
                            (billing_permits d)\<rparr>"

text \<open>
  A fresh report in two steps: the success is charged (base fee with the first one) or the failure
  released, then the report is recorded and the permit settles itself with the last unit.
\<close>

definition charge_unit ::
  "billing_permit_row \<Rightarrow> int \<Rightarrow> unit_outcome \<Rightarrow> instant \<Rightarrow> string \<Rightarrow> db \<Rightarrow> db result" where
  "charge_unit permit unit outcome now uuid d1 =
     (if outcome = Success
      then let (succeeded, _) = reportCounts d1 (bp_id permit);
               charge = bp_unit_price permit + (if succeeded = 0 then bp_base_price permit else 0)
           in bind_result
                (settleFrozenPoints (bp_account_id permit) charge
                   (permit_note (bp_operation permit) unit) now uuid d1)
                (\<lambda>(d2, _). Inr (unfreeze_permit (bp_id permit) charge d2))
      else Inr (unfreeze_permit (bp_id permit) (bp_unit_price permit) d1))"

definition record_unit ::
  "billing_permit_row \<Rightarrow> int \<Rightarrow> unit_outcome \<Rightarrow> instant \<Rightarrow> permit_projection body" where
  "record_unit permit unit outcome now d3 =
     bind_result
       (insert_report \<lparr>ur_permit_id = bp_id permit, ur_unit_index = unit,
                       ur_outcome = outcome, ur_reported_at = now\<rparr> d3)
       (\<lambda>d4.
         let reported = count_where (\<lambda>r. ur_permit_id r = bp_id permit) (permit_unit_reports d4);
             d5 = (if reported \<ge> bp_units permit then markPermitSettled (bp_id permit) now d4 else d4)
         in case loadPermit d5 (bp_id permit) of
              None \<Rightarrow> fail ''internal_error'' 500
            | Some updated \<Rightarrow> Inr (d5, permitProjection d5 updated))"

definition report_unit_body ::
  "string \<Rightarrow> string \<Rightarrow> int \<Rightarrow> unit_outcome \<Rightarrow> instant \<Rightarrow> string \<Rightarrow> permit_projection body" where
  "report_unit_body accountId permitId unit outcome now uuid d =
     bind_result (requireOwnedPermit d accountId permitId) (\<lambda>permit.
       if unit < 0 \<or> unit \<ge> bp_units permit then fail ''invalid_unit'' 400
       else case find_report d permitId unit of
         Some prior \<Rightarrow>
           if ur_outcome prior = outcome
           then Inr (touch_open_permit permitId now d,
                     permitProjection (touch_open_permit permitId now d) permit)
           else fail ''unit_outcome_conflict'' 409
       | None \<Rightarrow>
           if bp_status permit \<noteq> Open then fail ''permit_settled'' 409
           else bind_result (charge_unit permit unit outcome now uuid (touch_permit permitId now d))
                  (record_unit permit unit outcome now))"

definition reportPermitUnit ::
  "string \<Rightarrow> string \<Rightarrow> int \<Rightarrow> unit_outcome \<Rightarrow> instant \<Rightarrow> string \<Rightarrow> permit_projection operation" where
  "reportPermitUnit accountId permitId unit outcome now uuid =
     transaction (report_unit_body accountId permitId unit outcome now uuid)"

definition close_permit_body :: "string \<Rightarrow> string \<Rightarrow> instant \<Rightarrow> permit_projection body" where
  "close_permit_body accountId permitId now d =
     bind_result (requireOwnedPermit d accountId permitId) (\<lambda>permit.
       let d1 = (if bp_status permit = Open then markPermitSettled permitId now d else d)
       in case loadPermit d1 permitId of
            None \<Rightarrow> fail ''internal_error'' 500
          | Some updated \<Rightarrow> Inr (d1, permitProjection d1 updated))"

definition closePermit :: "string \<Rightarrow> string \<Rightarrow> instant \<Rightarrow> permit_projection operation" where
  "closePermit accountId permitId now = transaction (close_permit_body accountId permitId now)"

definition getPermit :: "db \<Rightarrow> string \<Rightarrow> string \<Rightarrow> permit_projection result" where
  "getPermit d accountId permitId =
     bind_result (requireOwnedPermit d accountId permitId) (\<lambda>permit. Inr (permitProjection d permit))"

definition listOpenPermits :: "db \<Rightarrow> string \<Rightarrow> permit_projection list" where
  "listOpenPermits d accountId =
     map (permitProjection d)
       (sort_key bp_created_at
          (filter (\<lambda>p. bp_account_id p = accountId \<and> bp_status p = Open) (billing_permits d)))"

text \<open>Newest first; permits of the same instant by descending id.\<close>

definition listPermitHistory :: "db \<Rightarrow> string \<Rightarrow> nat \<Rightarrow> permit_projection list" where
  "listPermitHistory d accountId limit =
     map (permitProjection d)
       (take limit
          (sort_key (\<lambda>p. - bp_created_at p)
             (rev (sort_key bp_id
                (filter (\<lambda>p. bp_account_id p = accountId) (billing_permits d))))))"

text \<open>The request schemas in front of the two billing operations.\<close>

definition id_char :: "char \<Rightarrow> bool" where
  "id_char c \<longleftrightarrow> (let n = of_char c in word_char n \<or> n = 58 \<or> n = 45)"

definition permitIdSchema :: "string \<Rightarrow> bool" where
  "permitIdSchema s \<longleftrightarrow> 8 \<le> length s \<and> length s \<le> 128 \<and> list_all id_char s"

definition price_field_ok :: "int option \<Rightarrow> bool" where
  "price_field_ok p \<longleftrightarrow> (case p of None \<Rightarrow> True | Some x \<Rightarrow> 0 \<le> x \<and> x \<le> 1000000)"

definition applyPermitSchema :: "permit_apply_input \<Rightarrow> bool" where
  "applyPermitSchema b \<longleftrightarrow>
     permitIdSchema (pi_permitId b) \<and>
     1 \<le> length (pi_operation b) \<and> length (pi_operation b) \<le> 64 \<and>
     1 \<le> pi_units b \<and> pi_units b \<le> 1000 \<and>
     price_field_ok (pi_unitPrice b) \<and> price_field_ok (pi_basePrice b)"

definition reportUnitSchema :: "int \<Rightarrow> bool" where
  "reportUnitSchema unit \<longleftrightarrow> 0 \<le> unit \<and> unit \<le> 1000000"

definition post_permits ::
  "backend_config \<Rightarrow> string \<Rightarrow> permit_apply_input \<Rightarrow> instant \<Rightarrow> permit_apply_result operation" where
  "post_permits cfg accountId b now d =
     (if applyPermitSchema b then applyForPermit cfg accountId b now d
      else (d, fail ''validation_error'' 400))"

definition post_report ::
  "string \<Rightarrow> string \<Rightarrow> int \<Rightarrow> unit_outcome \<Rightarrow> instant \<Rightarrow> string \<Rightarrow> permit_projection operation" where
  "post_report accountId permitId unit outcome now uuid d =
     (if reportUnitSchema unit then reportPermitUnit accountId permitId unit outcome now uuid d
      else (d, fail ''validation_error'' 400))"

section \<open>The permit invariant\<close>

text \<open>
  The points an open permit must still hold: the price of the unreported units, and the base fee
  as long as no unit has succeeded. A settled permit holds nothing.
\<close>

definition frozen_due :: "permit_unit_report_row list \<Rightarrow> billing_permit_row \<Rightarrow> int" where
  "frozen_due rs p =
     (if succeeded_of rs (bp_id p) = 0 then bp_base_price p else 0) +
     bp_unit_price p * (bp_units p - succeeded_of rs (bp_id p) - failed_of rs (bp_id p))"

definition consumed_of :: "permit_unit_report_row list \<Rightarrow> billing_permit_row \<Rightarrow> int" where
  "consumed_of rs p =
     (if succeeded_of rs (bp_id p) > 0 then bp_base_price p else 0) +
     bp_unit_price p * succeeded_of rs (bp_id p)"

definition permit_ok :: "permit_unit_report_row list \<Rightarrow> billing_permit_row \<Rightarrow> bool" where
  "permit_ok rs p \<longleftrightarrow>
     0 \<le> bp_base_price p \<and> 0 \<le> bp_unit_price p \<and>
     succeeded_of rs (bp_id p) + failed_of rs (bp_id p) \<le> bp_units p \<and>
     (case bp_status p of
        Open \<Rightarrow> bp_frozen_remaining p = frozen_due rs p \<and>
                succeeded_of rs (bp_id p) + failed_of rs (bp_id p) < bp_units p
      | Settled \<Rightarrow> bp_frozen_remaining p = 0)"

definition report_key :: "permit_unit_report_row \<Rightarrow> string \<times> int" where
  "report_key r = (ur_permit_id r, ur_unit_index r)"

definition permits_ok :: "db \<Rightarrow> bool" where
  "permits_ok d \<longleftrightarrow>
     distinct (map bp_id (billing_permits d)) \<and>
     bp_account_id ` set (billing_permits d) \<subseteq> ac_id ` set (accounts d) \<and>
     distinct (map report_key (permit_unit_reports d)) \<and>
     ur_permit_id ` set (permit_unit_reports d) \<subseteq> bp_id ` set (billing_permits d) \<and>
     (\<forall>p \<in> set (billing_permits d). permit_ok (permit_unit_reports d) p)"

lemma succeeded_of_nonneg [simp]: "0 \<le> succeeded_of rs i"
  by (simp add: succeeded_of_def)

lemma failed_of_nonneg [simp]: "0 \<le> failed_of rs i"
  by (simp add: failed_of_def)

lemma reported_count:
  "count_where (\<lambda>r. ur_permit_id r = i) rs = succeeded_of rs i + failed_of rs i"
  unfolding succeeded_of_def failed_of_def
  by (induction rs) (auto, (metis unit_outcome.exhaust)+)

lemma frozen_due_nonneg:
  assumes "permit_ok rs p"
  shows "0 \<le> frozen_due rs p"
proof -
  have "0 \<le> bp_unit_price p * (bp_units p - succeeded_of rs (bp_id p) - failed_of rs (bp_id p))"
    using assms by (intro mult_nonneg_nonneg) (simp_all add: permit_ok_def)
  then show ?thesis using assms by (simp add: frozen_due_def permit_ok_def)
qed

lemma permit_ok_frozen_nonneg: "permit_ok rs p \<Longrightarrow> 0 \<le> bp_frozen_remaining p"
  using frozen_due_nonneg [of rs p] by (cases "bp_status p") (simp_all add: permit_ok_def)

lemma loadPermit_member: "loadPermit d i = Some p \<Longrightarrow> p \<in> set (billing_permits d) \<and> bp_id p = i"
  unfolding loadPermit_def by (rule find_row_SomeD)

lemma requireOwnedPermit_Inr:
  "requireOwnedPermit d a i = Inr p \<longleftrightarrow> loadPermit d i = Some p \<and> bp_account_id p = a"
  by (auto simp: requireOwnedPermit_def split: option.splits)

lemma permits_ok_member:
  "permits_ok d \<Longrightarrow> p \<in> set (billing_permits d) \<Longrightarrow> permit_ok (permit_unit_reports d) p"
  by (simp add: permits_ok_def)

text \<open>Rewriting permit rows keeps the invariant when it keeps key and owner and stays in order.\<close>

lemma permits_ok_update:
  assumes ok: "permits_ok d"
    and key: "\<And>p. bp_id (u p) = bp_id p" and own: "\<And>p. bp_account_id (u p) = bp_account_id p"
    and row: "\<And>p. p \<in> set (billing_permits d) \<Longrightarrow> P p \<Longrightarrow> permit_ok (permit_unit_reports d) (u p)"
  shows "permits_ok (d\<lparr>billing_permits := update_rows P u (billing_permits d)\<rparr>)"
proof -
  have k: "map bp_id (update_rows P u (billing_permits d)) = map bp_id (billing_permits d)"
    by (simp add: update_rows_def key)
  then have ki: "bp_id ` set (update_rows P u (billing_permits d)) = bp_id ` set (billing_permits d)"
    by (metis list.set_map)
  have "map bp_account_id (update_rows P u (billing_permits d)) = map bp_account_id (billing_permits d)"
    by (simp add: update_rows_def own)
  then have oi: "bp_account_id ` set (update_rows P u (billing_permits d)) =
      bp_account_id ` set (billing_permits d)"
    by (metis list.set_map)
  have "permit_ok (permit_unit_reports d) p" if "p \<in> set (update_rows P u (billing_permits d))" for p
    using that ok row by (auto simp: set_update_rows permits_ok_def split: if_splits)
  then show ?thesis using ok k ki oi by (simp add: permits_ok_def)
qed

lemma permit_ok_settle: "permit_ok rs p \<Longrightarrow> permit_ok rs (settle_permit_row now p)"
  by (simp add: permit_ok_def settle_permit_row_def)

lemma permit_ok_touch: "permit_ok rs p \<Longrightarrow> permit_ok rs (touch_permit_row now p)"
  by (cases "bp_status p") (simp_all add: permit_ok_def touch_permit_row_def frozen_due_def)

lemma permits_ok_settle_where:
  "permits_ok d \<Longrightarrow>
   permits_ok (d\<lparr>billing_permits := update_rows P (settle_permit_row now) (billing_permits d)\<rparr>)"
  by (rule permits_ok_update)
    (auto simp: settle_permit_row_def [of now] intro: permits_ok_member permit_ok_settle [unfolded settle_permit_row_def])

lemma permits_ok_touch_where:
  "permits_ok d \<Longrightarrow>
   permits_ok (d\<lparr>billing_permits := update_rows P (touch_permit_row now) (billing_permits d)\<rparr>)"
  by (rule permits_ok_update)
    (auto simp: touch_permit_row_def [of now] intro: permits_ok_member permit_ok_touch [unfolded touch_permit_row_def])

lemma permit_frozen_settle_le:
  assumes "permits_ok d"
  shows "permit_frozen_of i (update_rows P (settle_permit_row now) (billing_permits d))
    \<le> permit_frozen_of i (billing_permits d)"
proof -
  have "\<forall>p \<in> set rows. 0 \<le> bp_frozen_remaining p \<Longrightarrow>
    permit_frozen_of i (update_rows P (settle_permit_row now) rows) \<le> permit_frozen_of i rows" for rows
    by (induction rows) (auto simp: permit_frozen_of_def settle_permit_row_def)
  then show ?thesis
    using assms permit_ok_frozen_nonneg by (fastforce simp: permits_ok_def)
qed

lemma permit_frozen_touch [simp]:
  "permit_frozen_of i (update_rows P (touch_permit_row now) rows) = permit_frozen_of i rows"
  by (induction rows) (auto simp: permit_frozen_of_def touch_permit_row_def)

section \<open>Effects of the operations\<close>

definition new_permit ::
  "string \<Rightarrow> permit_apply_input \<Rightarrow> operation_price \<Rightarrow> instant \<Rightarrow> billing_permit_row" where
  "new_permit accountId input price now =
     \<lparr>bp_id = pi_permitId input, bp_account_id = accountId, bp_operation = pi_operation input,
      bp_units = pi_units input, bp_unit_price = price_per_unit price,
      bp_base_price = price_base price,
      bp_frozen_remaining = price_base price + price_per_unit price * pi_units input,
      bp_status = Open, bp_created_at = now, bp_settled_at = None, bp_last_activity_at = now\<rparr>"

lemma reclaim_frame [simp]:
  "accounts (reclaimStaleOpenPermits a now t d) = accounts d"
  "ledger_entries (reclaimStaleOpenPermits a now t d) = ledger_entries d"
  "permit_unit_reports (reclaimStaleOpenPermits a now t d) = permit_unit_reports d"
  "publish_orders (reclaimStaleOpenPermits a now t d) = publish_orders d"
  "findAccountById (reclaimStaleOpenPermits a now t d) i = findAccountById d i"
  "loadPermit (reclaimStaleOpenPermits a now t d) i = None \<longleftrightarrow> loadPermit d i = None"
  by (simp_all add: reclaimStaleOpenPermits_def loadPermit_def find_row_None_iff)

text \<open>A successful application is a replay without effect, or one inserted permit.\<close>

lemma apply_permit_body_Inr:
  assumes "apply_permit_body cfg a input now d = Inr (d', res)"
  obtains
    (replay) existing where "loadPermit d (pi_permitId input) = Some existing"
      "bp_account_id existing = a" "d' = d"
      "res = \<lparr>ar_permit = permitProjection d existing, ar_created = False\<rparr>"
  | (created) price d1 account where
      "loadPermit d (pi_permitId input) = None"
      "operation_price_of (pi_operation input) = Some price"
      "pi_unitPrice input = None \<or> pi_unitPrice input = Some (price_per_unit price)"
      "pi_basePrice input = None \<or> pi_basePrice input = Some (price_base price)"
      "d1 = reclaimStaleOpenPermits a now (staleOpenPermitTtlMs cfg) d"
      "openPermitCount d1 a < maxConcurrentPermitsPerAccount cfg"
      "findAccountById d a = Some account"
      "frozenPointsFor d1 a + price_base price + price_per_unit price * pi_units input
        \<le> ac_balance account"
      "d' = d1\<lparr>billing_permits := billing_permits d1 @ [new_permit a input price now]\<rparr>"
      "res = \<lparr>ar_permit = permitProjection d' (new_permit a input price now), ar_created = True\<rparr>"
proof (cases "loadPermit d (pi_permitId input)")
  case (Some existing)
  then show thesis
    using assms that(1) by (auto simp: apply_permit_body_def Let_def split: if_split_asm)
next
  case None
  from assms None obtain price where price: "operation_price_of (pi_operation input) = Some price"
    by (auto simp: apply_permit_body_def Let_def split: option.splits)
  define d1 where "d1 = reclaimStaleOpenPermits a now (staleOpenPermitTtlMs cfg) d"
  have "find_row bp_id (pi_permitId input) (billing_permits d1) = None"
    using None by (simp add: d1_def flip: loadPermit_def)
  then have load: "loadPermit (d1\<lparr>billing_permits := billing_permits d1 @ [new_permit a input price now]\<rparr>)
      (pi_permitId input) = Some (new_permit a input price now)"
    by (simp add: loadPermit_def find_row_append new_permit_def)
  have given: "pi_unitPrice input = None \<or> pi_unitPrice input = Some (price_per_unit price)"
    "pi_basePrice input = None \<or> pi_basePrice input = Some (price_base price)"
    using assms None price
    by (auto simp: apply_permit_body_def Let_def split: if_split_asm option.split_asm)
  obtain account where
    "openPermitCount d1 a < maxConcurrentPermitsPerAccount cfg"
    "findAccountById d1 a = Some account"
    "frozenPointsFor d1 a + price_base price + price_per_unit price * pi_units input \<le> ac_balance account"
    "d' = d1\<lparr>billing_permits := billing_permits d1 @ [new_permit a input price now]\<rparr>"
    "res = \<lparr>ar_permit = permitProjection d' (new_permit a input price now), ar_created = True\<rparr>"
    using assms None price load unfolding apply_permit_body_def
    by (auto simp: Let_def d1_def [symmetric] insert_permit_def bind_result_Inr_iff
        insert_row_Inr_iff new_permit_def [symmetric] split: if_split_asm option.split_asm)
  then show thesis
    by (intro that(2) [OF None price given d1_def]) (simp_all add: d1_def)
qed

text \<open>The row of a permit after a fresh report that releases or settles \<open>c\<close> points.\<close>

definition report_row :: "instant \<Rightarrow> int \<Rightarrow> bool \<Rightarrow> billing_permit_row \<Rightarrow> billing_permit_row" where
  "report_row now c fin p =
     (let q = unfreeze_permit_row c (touch_permit_row now p)
      in if fin then settle_permit_row now q else q)"

lemma report_row_simps [simp]:
  "bp_id (report_row now c fin p) = bp_id p"
  "bp_account_id (report_row now c fin p) = bp_account_id p"
  "bp_units (report_row now c fin p) = bp_units p"
  "bp_unit_price (report_row now c fin p) = bp_unit_price p"
  "bp_base_price (report_row now c fin p) = bp_base_price p"
  "bp_status (report_row now c fin p) = (if fin then Settled else bp_status p)"
  "bp_frozen_remaining (report_row now c fin p) = (if fin then 0 else bp_frozen_remaining p - c)"
  by (simp_all add: report_row_def Let_def row_update_defs)

lemma report_row_fun:
  "report_row now c fin =
     (\<lambda>p. if fin then settle_permit_row now (unfreeze_permit_row c (touch_permit_row now p))
          else unfreeze_permit_row c (touch_permit_row now p))"
  by (simp add: fun_eq_iff report_row_def Let_def)

interpretation report_upd: key_update bp_id "report_row now c fin" for now c fin
  by unfold_locales simp

definition report_charge :: "db \<Rightarrow> billing_permit_row \<Rightarrow> unit_outcome \<Rightarrow> int" where
  "report_charge d permit outcome =
     bp_unit_price permit +
     (if outcome = Success \<and> succeeded_of (permit_unit_reports d) (bp_id permit) = 0
      then bp_base_price permit else 0)"

definition new_report :: "string \<Rightarrow> int \<Rightarrow> unit_outcome \<Rightarrow> instant \<Rightarrow> permit_unit_report_row" where
  "new_report permitId unit outcome now =
     \<lparr>ur_permit_id = permitId, ur_unit_index = unit, ur_outcome = outcome, ur_reported_at = now\<rparr>"

lemma posted_permits_update:
  "posted a delta k n now u (d\<lparr>billing_permits := x\<rparr>) = (posted a delta k n now u d)\<lparr>billing_permits := x\<rparr>"
  by (simp add: posted_def next_ledger_seq_def)

lemma settleFrozenPoints_Inr:
  assumes "settleFrozenPoints a c note now uuid d = Inr (d', x)"
  obtains account where "findAccountById d a = Some account"
    "d' = posted account (- c) Consume note now uuid d" "uuid \<notin> le_id ` set (ledger_entries d)"
proof -
  from assms obtain account where acc: "findAccountById d a = Some account"
    by (auto simp: settleFrozenPoints_def split: option.splits)
  with assms obtain u where "applyBalanceChange account (- c) Consume note now uuid d = Inr (d', u)"
    by (auto simp: settleFrozenPoints_def bind_result_Inr_iff)
  from that [OF acc] applyBalanceChange_Inr [OF acc this] show thesis by simp
qed

text \<open>The charge of a success is posted to the ledger; a failure leaves the ledger alone.\<close>

definition report_base ::
  "billing_permit_row \<Rightarrow> int \<Rightarrow> unit_outcome \<Rightarrow> instant \<Rightarrow> string \<Rightarrow> account_row \<Rightarrow> db \<Rightarrow> db" where
  "report_base permit unit outcome now uuid account d =
     (if outcome = Success
      then posted account (- report_charge d permit outcome) Consume
             (permit_note (bp_operation permit) unit) now uuid d
      else d)"

lemma report_base_frame [simp]:
  "billing_permits (report_base permit unit outcome now uuid account d) = billing_permits d"
  "permit_unit_reports (report_base permit unit outcome now uuid account d) = permit_unit_reports d"
  "publish_orders (report_base permit unit outcome now uuid account d) = publish_orders d"
  "map ac_id (accounts (report_base permit unit outcome now uuid account d)) = map ac_id (accounts d)"
  by (simp_all add: report_base_def)

lemma charge_unit_Inr:
  assumes "charge_unit permit unit outcome now uuid d1 = Inr d3"
  obtains account where
    "outcome = Success \<Longrightarrow> findAccountById d1 (bp_account_id permit) = Some account \<and>
       uuid \<notin> le_id ` set (ledger_entries d1)"
    "d3 = unfreeze_permit (bp_id permit) (report_charge d1 permit outcome)
            (report_base permit unit outcome now uuid account d1)"
proof (cases "outcome = Success")
  case True
  with assms obtain d2 x where
    st: "settleFrozenPoints (bp_account_id permit) (report_charge d1 permit outcome)
      (permit_note (bp_operation permit) unit) now uuid d1 = Inr (d2, x)"
    and d3: "d3 = unfreeze_permit (bp_id permit) (report_charge d1 permit outcome) d2"
    by (auto simp: charge_unit_def bind_result_Inr_iff reportCounts_def report_charge_def Let_def)
  from st show thesis
    by (rule settleFrozenPoints_Inr) (auto intro: that simp: d3 True report_base_def)
next
  case False
  with assms that show thesis
    by (simp add: charge_unit_def report_base_def report_charge_def)
qed

lemma record_unit_Inr:
  assumes "record_unit permit unit outcome now d3 = Inr (d', proj)"
    and fin: "fin \<longleftrightarrow> bp_units permit \<le> succeeded_of (permit_unit_reports d3) (bp_id permit) +
                failed_of (permit_unit_reports d3) (bp_id permit) + 1"
  shows "d' = d3\<lparr>permit_unit_reports := permit_unit_reports d3 @ [new_report (bp_id permit) unit outcome now],
      billing_permits := update_rows (\<lambda>p. bp_id p = bp_id permit)
        (\<lambda>p. if fin then settle_permit_row now p else p) (billing_permits d3)\<rparr>"
    and "report_key (new_report (bp_id permit) unit outcome now) \<notin> report_key ` set (permit_unit_reports d3)"
proof -
  let ?new = "new_report (bp_id permit) unit outcome now"
  from assms obtain d4 where ins: "insert_report ?new d3 = Inr d4"
    and d': "d' = (if bp_units permit \<le> count_where (\<lambda>r. ur_permit_id r = bp_id permit) (permit_unit_reports d4)
                   then markPermitSettled (bp_id permit) now d4 else d4)"
    by (auto simp: record_unit_def bind_result_Inr_iff new_report_def Let_def split: option.split_asm)
  from ins have d4: "d4 = d3\<lparr>permit_unit_reports := permit_unit_reports d3 @ [?new]\<rparr>"
    and "report_key ?new \<notin> report_key ` set (permit_unit_reports d3)"
    by (auto simp: insert_report_def bind_result_Inr_iff insert_row_Inr_iff report_key_def split: if_split_asm)
  then show "report_key ?new \<notin> report_key ` set (permit_unit_reports d3)" by simp
  have "count_where (\<lambda>r. ur_permit_id r = bp_id permit) (permit_unit_reports d4) =
      count_where (\<lambda>r. ur_permit_id r = bp_id permit) (permit_unit_reports d3) + 1"
    by (simp add: d4 count_where_append new_report_def)
  then have "bp_units permit \<le> count_where (\<lambda>r. ur_permit_id r = bp_id permit) (permit_unit_reports d4) \<longleftrightarrow> fin"
    by (simp add: fin reported_count)
  then show "d' = d3\<lparr>permit_unit_reports := permit_unit_reports d3 @ [?new],
      billing_permits := update_rows (\<lambda>p. bp_id p = bp_id permit)
        (\<lambda>p. if fin then settle_permit_row now p else p) (billing_permits d3)\<rparr>"
    by (cases fin; cases d3) (simp_all add: d' d4 markPermitSettled_def update_rows_id)
qed

text \<open>A successful report is a replay that only touches the row, or a fresh report.\<close>

definition fresh_report ::
  "db \<Rightarrow> billing_permit_row \<Rightarrow> int \<Rightarrow> unit_outcome \<Rightarrow> instant \<Rightarrow> string \<Rightarrow> account_row \<Rightarrow> bool \<Rightarrow> db" where
  "fresh_report d permit unit outcome now uuid account fin =
     (report_base permit unit outcome now uuid account d)
       \<lparr>permit_unit_reports := permit_unit_reports d @ [new_report (bp_id permit) unit outcome now],
        billing_permits := update_rows (\<lambda>p. bp_id p = bp_id permit)
           (report_row now (report_charge d permit outcome) fin) (billing_permits d)\<rparr>"

lemma report_unit_body_Inr:
  assumes "report_unit_body a pid unit outcome now uuid d = Inr (d', proj)"
  obtains
    (replay) permit where "loadPermit d pid = Some permit" "bp_account_id permit = a"
      "find_report d pid unit \<noteq> None" "d' = touch_open_permit pid now d"
  | (fresh) permit account fin where
      "loadPermit d pid = Some permit" "bp_account_id permit = a" "bp_status permit = Open"
      "find_report d pid unit = None"
      "fin \<longleftrightarrow> bp_units permit \<le>
         succeeded_of (permit_unit_reports d) pid + failed_of (permit_unit_reports d) pid + 1"
      "outcome = Success \<Longrightarrow> findAccountById d a = Some account \<and> uuid \<notin> le_id ` set (ledger_entries d)"
      "d' = fresh_report d permit unit outcome now uuid account fin"
proof -
  from assms obtain permit where own: "requireOwnedPermit d a pid = Inr permit"
    by (auto simp: report_unit_body_def bind_result_Inr_iff)
  then have permit: "loadPermit d pid = Some permit" "bp_account_id permit = a"
    by (simp_all add: requireOwnedPermit_Inr)
  have id: "bp_id permit = pid" using permit(1) by (simp add: loadPermit_member)
  show thesis
  proof (cases "find_report d pid unit")
    case (Some prior)
    then show thesis
      using that(1) [OF permit] assms own by (auto simp: report_unit_body_def split: if_split_asm)
  next
    case None
    let ?d1 = "touch_permit pid now d"
    from assms own None obtain d3 where status: "bp_status permit = Open"
      and ch: "charge_unit permit unit outcome now uuid ?d1 = Inr d3"
      and rec: "record_unit permit unit outcome now d3 = Inr (d', proj)"
      by (auto simp: report_unit_body_def bind_result_Inr_iff split: if_split_asm)
    from ch obtain account where
      acc: "outcome = Success \<Longrightarrow> findAccountById ?d1 a = Some account \<and>
        uuid \<notin> le_id ` set (ledger_entries ?d1)"
      and d3: "d3 = unfreeze_permit pid (report_charge ?d1 permit outcome)
        (report_base permit unit outcome now uuid account ?d1)"
      by (rule charge_unit_Inr) (simp add: permit id)
    have same: "report_charge ?d1 permit outcome = report_charge d permit outcome"
      "report_base permit unit outcome now uuid account ?d1 =
        (report_base permit unit outcome now uuid account d)
          \<lparr>billing_permits := update_rows (\<lambda>p. bp_id p = pid) (touch_permit_row now) (billing_permits d)\<rparr>"
      by (simp_all add: touch_permit_def report_charge_def report_base_def posted_permits_update)
    define fin where "fin \<longleftrightarrow> bp_units permit \<le>
      succeeded_of (permit_unit_reports d) pid + failed_of (permit_unit_reports d) pid + 1"
    have "d' = fresh_report d permit unit outcome now uuid account fin"
      using record_unit_Inr(1) [OF rec, of fin]
      by (simp add: d3 same id fin_def unfreeze_permit_def fresh_report_def update_rows_compose
          row_update_defs report_row_fun cong: if_cong)
    then show thesis
      using that(2) [OF permit status None fin_def] acc by (simp add: touch_permit_def)
  qed
qed

section \<open>Preservation\<close>

definition permit_spent :: "db \<Rightarrow> string \<Rightarrow> int" where
  "permit_spent d i =
     sum_where (\<lambda>p. bp_account_id p = i) (consumed_of (permit_unit_reports d)) (billing_permits d)"

lemma succeeded_of_snoc:
  "succeeded_of (rs @ [new_report i unit outcome now]) j =
     succeeded_of rs j + (if j = i \<and> outcome = Success then 1 else 0)"
  by (simp add: succeeded_of_def count_where_append new_report_def)

lemma failed_of_snoc:
  "failed_of (rs @ [new_report i unit outcome now]) j =
     failed_of rs j + (if j = i \<and> outcome = Failure then 1 else 0)"
  by (simp add: failed_of_def count_where_append new_report_def)

lemma report_counts_unknown:
  assumes "permits_ok d" and "i \<notin> bp_id ` set (billing_permits d)"
  shows "succeeded_of (permit_unit_reports d) i = 0" and "failed_of (permit_unit_reports d) i = 0"
  using assms by (auto simp: permits_ok_def succeeded_of_def failed_of_def count_where_zero_iff)

lemma permits_ok_created:
  assumes ok: "permits_ok d" and new: "loadPermit d (pi_permitId input) = None"
    and price: "operation_price_of (pi_operation input) = Some price"
    and units: "1 \<le> pi_units input" and acc: "findAccountById d a = Some account"
  shows "permits_ok (d\<lparr>billing_permits := billing_permits d @ [new_permit a input price now]\<rparr>)"
proof -
  have fresh: "pi_permitId input \<notin> bp_id ` set (billing_permits d)"
    using new by (simp add: loadPermit_def find_row_None_iff)
  have mem: "a \<in> ac_id ` set (accounts d)"
    using acc findAccountById_ac_id findAccountById_member by blast
  have "permit_ok (permit_unit_reports d) (new_permit a input price now)"
    using report_counts_unknown [OF ok fresh] OPERATION_PRICES_all [OF price] units
    by (simp add: permit_ok_def new_permit_def frozen_due_def)
  with ok fresh mem show ?thesis
    by (auto simp: permits_ok_def new_permit_def)
qed

text \<open>A fresh report leaves its permit in order and can always be paid from the frozen points.\<close>

lemma report_charge_le:
  assumes "permit_ok (permit_unit_reports d) permit" and "bp_status permit = Open"
  shows "0 \<le> report_charge d permit outcome" and "report_charge d permit outcome \<le> bp_frozen_remaining permit"
proof -
  let ?rs = "permit_unit_reports d"
  let ?left = "bp_units permit - succeeded_of ?rs (bp_id permit) - failed_of ?rs (bp_id permit)"
  have ok: "0 \<le> bp_base_price permit" "0 \<le> bp_unit_price permit" "1 \<le> ?left"
    "bp_frozen_remaining permit = frozen_due ?rs permit"
    using assms by (simp_all add: permit_ok_def)
  then have "bp_unit_price permit * 1 \<le> bp_unit_price permit * ?left"
    by (intro mult_left_mono) simp_all
  with ok show "0 \<le> report_charge d permit outcome" "report_charge d permit outcome \<le> bp_frozen_remaining permit"
    by (auto simp: report_charge_def frozen_due_def)
qed

lemma permit_ok_report_row:
  assumes ok: "permit_ok (permit_unit_reports d) permit" and st: "bp_status permit = Open"
    and fin: "fin \<longleftrightarrow> bp_units permit \<le> succeeded_of (permit_unit_reports d) (bp_id permit) +
      failed_of (permit_unit_reports d) (bp_id permit) + 1"
  shows "permit_ok (permit_unit_reports d @ [new_report (bp_id permit) unit outcome now])
    (report_row now' (report_charge d permit outcome) fin permit)"
proof -
  have "0 \<le> succeeded_of (permit_unit_reports d) (bp_id permit)" by simp
  then show ?thesis
    using ok st fin
    by (cases outcome; cases fin)
      (auto simp: permit_ok_def frozen_due_def report_charge_def succeeded_of_snoc failed_of_snoc
        algebra_simps simp del: succeeded_of_nonneg)
qed

lemma permit_ok_other_report:
  "bp_id p \<noteq> i \<Longrightarrow> permit_ok (rs @ [new_report i unit outcome now]) p = permit_ok rs p"
  by (cases "bp_status p")
    (simp_all add: permit_ok_def frozen_due_def succeeded_of_snoc failed_of_snoc)

lemma permits_ok_fresh:
  assumes ok: "permits_ok d" and load: "loadPermit d pid = Some permit"
    and st: "bp_status permit = Open" and none: "find_report d pid unit = None"
    and fin: "fin \<longleftrightarrow> bp_units permit \<le>
      succeeded_of (permit_unit_reports d) pid + failed_of (permit_unit_reports d) pid + 1"
  shows "permits_ok (fresh_report d permit unit outcome now uuid account fin)"
proof -
  let ?rs = "permit_unit_reports d @ [new_report pid unit outcome now]"
  let ?ps = "update_rows (\<lambda>p. bp_id p = pid) (report_row now (report_charge d permit outcome) fin) (billing_permits d)"
  have id: "bp_id permit = pid" and mem: "permit \<in> set (billing_permits d)"
    using load by (simp_all add: loadPermit_member)
  have dist: "distinct (map bp_id (billing_permits d))" using ok by (simp add: permits_ok_def)
  have uniq: "p = permit" if "p \<in> set (billing_permits d)" "bp_id p = pid" for p
    using that mem id dist by (metis distinct_map inj_onD)
  have rows: "\<forall>p \<in> set ?ps. permit_ok ?rs p"
    using permit_ok_report_row [OF permits_ok_member [OF ok mem] st fin [folded id]] ok uniq
    by (auto simp: set_update_rows permits_ok_def permit_ok_other_report id split: if_splits)
  have key: "report_key (new_report pid unit outcome now) \<notin> report_key ` set (permit_unit_reports d)"
    using none by (auto simp: find_report_def find_row_None_iff report_key_def new_report_def)
  have accs: "map bp_account_id ?ps = map bp_account_id (billing_permits d)"
    by (simp add: update_rows_def)
  have accs': "bp_account_id ` set ?ps = bp_account_id ` set (billing_permits d)"
    using accs by (metis list.set_map)
  have ids: "ac_id ` set (accounts (report_base permit unit outcome now uuid account d)) = ac_id ` set (accounts d)"
    by (metis list.set_map report_base_frame(4))
  have fk: "pid \<in> bp_id ` set (billing_permits d)" using mem id by auto
  show ?thesis
    using ok rows key fk dist
    by (simp add: permits_ok_def fresh_report_def id accs' ids) (simp add: new_report_def)
qed

lemma permit_frozen_fresh:
  assumes ok: "permits_ok d" and load: "loadPermit d pid = Some permit" and st: "bp_status permit = Open"
  shows "permit_frozen_of i (billing_permits (fresh_report d permit unit outcome now uuid account fin))
    \<le> permit_frozen_of i (billing_permits d) -
      (if i = bp_account_id permit then report_charge d permit outcome else 0)"
proof -
  have id: "bp_id permit = pid" and mem: "permit \<in> set (billing_permits d)"
    using load by (simp_all add: loadPermit_member)
  have dist: "distinct (map bp_id (billing_permits d))" using ok by (simp add: permits_ok_def)
  have "report_charge d permit outcome \<le> bp_frozen_remaining permit"
    using permits_ok_member [OF ok mem] st by (rule report_charge_le)
  then show ?thesis
    using report_upd.sum_where_update_one [OF dist load [unfolded loadPermit_def]] st
    by (auto simp: permit_frozen_of_def fresh_report_def id)
qed

lemma permit_spent_fresh:
  assumes ok: "permits_ok d" and load: "loadPermit d pid = Some permit"
  shows "permit_spent (fresh_report d permit unit outcome now uuid account fin) i =
    permit_spent d i + (if i = bp_account_id permit \<and> outcome = Success
      then report_charge d permit outcome else 0)"
proof -
  let ?rs = "permit_unit_reports d @ [new_report pid unit outcome now]"
  have id: "bp_id permit = pid" using load by (simp add: loadPermit_member)
  have dist: "distinct (map bp_id (billing_permits d))" using ok by (simp add: permits_ok_def)
  have other: "consumed_of ?rs p = consumed_of (permit_unit_reports d) p" if "bp_id p \<noteq> pid" for p
    using that by (simp add: consumed_of_def succeeded_of_snoc)
  have self: "consumed_of ?rs permit = consumed_of (permit_unit_reports d) permit +
      (if outcome = Success then report_charge d permit outcome else 0)"
    using succeeded_of_nonneg [of "permit_unit_reports d" pid]
    by (auto simp: consumed_of_def succeeded_of_snoc report_charge_def id algebra_simps
        simp del: succeeded_of_nonneg)
  have upd: "consumed_of ?rs (report_row now c fin p) = consumed_of ?rs p" for c p
    by (simp add: consumed_of_def)
  have split_one: "sum_where (\<lambda>p. bp_account_id p = i) (consumed_of ?rs) rows =
      sum_where (\<lambda>p. bp_account_id p = i) (consumed_of (permit_unit_reports d)) rows +
      (if i = bp_account_id permit \<and> outcome = Success then report_charge d permit outcome else 0)"
    if "distinct (map bp_id rows)" "find_row bp_id pid rows = Some permit" for rows
    using that
  proof (induction rows)
    case (Cons p rows)
    show ?case
    proof (cases "bp_id p = pid")
      case True
      with Cons.prems have "p = permit" "pid \<notin> bp_id ` set rows" by auto
      moreover from this have "sum_where (\<lambda>p. bp_account_id p = i) (consumed_of ?rs) rows =
          sum_where (\<lambda>p. bp_account_id p = i) (consumed_of (permit_unit_reports d)) rows"
        by (intro sum_where_cong) (auto intro: other)
      ultimately show ?thesis by (simp add: self)
    next
      case False
      with Cons show ?thesis by (simp add: other)
    qed
  qed simp
  show ?thesis
    using split_one [OF dist load [unfolded loadPermit_def]]
    by (simp add: permit_spent_def fresh_report_def id report_upd.sum_where_update_frame upd)
qed

section \<open>The billing invariant\<close>

text \<open>
  The ledger is consistent, the permits are in order, nobody is overdrawn, and the consume and
  refund entries of every account add up to what its permits and its publish orders have cost.
\<close>

definition books_balanced :: "db \<Rightarrow> string \<Rightarrow> bool" where
  "books_balanced d i \<longleftrightarrow> spend_sum d i + permit_spent d i + order_spent d i = 0"

definition billing_inv :: "db \<Rightarrow> bool" where
  "billing_inv d \<longleftrightarrow> ledger_ok d \<and> permits_ok d \<and> (\<forall>i. solvent d i) \<and> (\<forall>i. books_balanced d i)"

lemma permit_spent_frame [simp]:
  "permit_spent (d\<lparr>accounts := x1\<rparr>) i = permit_spent d i"
  "permit_spent (d\<lparr>ledger_entries := x2\<rparr>) i = permit_spent d i"
  "permit_spent (d\<lparr>publish_orders := x3\<rparr>) i = permit_spent d i"
  "permit_spent (posted a delta k n now u d) i = permit_spent d i"
  by (simp_all add: permit_spent_def)

lemma permit_spent_update:
  assumes "\<And>p. bp_id (u p) = bp_id p" "\<And>p. bp_account_id (u p) = bp_account_id p"
    "\<And>p. bp_base_price (u p) = bp_base_price p" "\<And>p. bp_unit_price (u p) = bp_unit_price p"
  shows "permit_spent (d\<lparr>billing_permits := update_rows P u (billing_permits d)\<rparr>) i = permit_spent d i"
proof -
  have "consumed_of rs (u p) = consumed_of rs p" for rs p
    by (simp add: consumed_of_def assms)
  then have "sum_where (\<lambda>p. bp_account_id p = i) (consumed_of rs) (update_rows P u rows) =
      sum_where (\<lambda>p. bp_account_id p = i) (consumed_of rs) rows" for rs rows
    by (induction rows) (auto simp: assms)
  then show ?thesis by (simp add: permit_spent_def)
qed

text \<open>Rewriting permit rows without raising what is frozen keeps the invariant.\<close>

lemma billing_inv_permits:
  assumes "billing_inv d" and "permits_ok (d\<lparr>billing_permits := ps\<rparr>)"
    and "\<And>i. permit_frozen_of i ps \<le> permit_frozen_of i (billing_permits d)"
    and "\<And>i. permit_spent (d\<lparr>billing_permits := ps\<rparr>) i = permit_spent d i"
  shows "billing_inv (d\<lparr>billing_permits := ps\<rparr>)"
proof -
  have "solvent (d\<lparr>billing_permits := ps\<rparr>) i" for i
    using assms(1) assms(3) [of i] by (fastforce simp: billing_inv_def solvent_def frozenPointsFor_def)
  then show ?thesis
    using assms by (simp add: billing_inv_def books_balanced_def)
qed

lemma billing_inv_settle_where:
  assumes "billing_inv d"
  shows "billing_inv (d\<lparr>billing_permits := update_rows P (settle_permit_row now) (billing_permits d)\<rparr>)"
  using assms
proof (rule billing_inv_permits)
  have ok: "permits_ok d" using assms by (simp add: billing_inv_def)
  show "permits_ok (d\<lparr>billing_permits := update_rows P (settle_permit_row now) (billing_permits d)\<rparr>)"
    using ok by (rule permits_ok_settle_where)
  show "permit_frozen_of i (update_rows P (settle_permit_row now) (billing_permits d))
      \<le> permit_frozen_of i (billing_permits d)" for i
    using ok by (rule permit_frozen_settle_le)
qed (rule permit_spent_update; simp add: settle_permit_row_def)

lemma billing_inv_touch_where:
  assumes "billing_inv d"
  shows "billing_inv (d\<lparr>billing_permits := update_rows P (touch_permit_row now) (billing_permits d)\<rparr>)"
  using assms
proof (rule billing_inv_permits)
  show "permits_ok (d\<lparr>billing_permits := update_rows P (touch_permit_row now) (billing_permits d)\<rparr>)"
    using assms by (simp add: billing_inv_def permits_ok_touch_where)
  show "permit_spent (d\<lparr>billing_permits := update_rows P (touch_permit_row now) (billing_permits d)\<rparr>) i =
      permit_spent d i" for i
    by (rule permit_spent_update) (simp_all add: touch_permit_row_def)
qed simp

lemma billing_inv_created:
  assumes inv: "billing_inv d" and new: "loadPermit d (pi_permitId input) = None"
    and price: "operation_price_of (pi_operation input) = Some price"
    and units: "1 \<le> pi_units input" and acc: "findAccountById d a = Some account"
    and cover: "frozenPointsFor d a + price_base price + price_per_unit price * pi_units input
      \<le> ac_balance account"
  shows "billing_inv (d\<lparr>billing_permits := billing_permits d @ [new_permit a input price now]\<rparr>)"
proof -
  let ?p = "new_permit a input price now"
  let ?d = "d\<lparr>billing_permits := billing_permits d @ [?p]\<rparr>"
  have ok: "permits_ok d" using inv by (simp add: billing_inv_def)
  have "pi_permitId input \<notin> bp_id ` set (billing_permits d)"
    using new by (simp add: loadPermit_def find_row_None_iff)
  then have "consumed_of (permit_unit_reports d) ?p = 0"
    using report_counts_unknown [OF ok] by (simp add: consumed_of_def new_permit_def)
  then have spent: "permit_spent ?d i = permit_spent d i" for i
    by (simp add: permit_spent_def sum_where_append)
  have "solvent ?d i" for i
    using inv acc cover
    by (auto simp: billing_inv_def solvent_def frozenPointsFor_def permit_frozen_of_def sum_where_append
        new_permit_def)
  then show ?thesis
    using inv permits_ok_created [OF ok new price units acc]
    by (simp add: billing_inv_def books_balanced_def spent)
qed

lemma billing_inv_apply:
  assumes inv: "billing_inv d" and units: "1 \<le> pi_units input"
    and run: "apply_permit_body cfg a input now d = Inr (d', res)"
  shows "billing_inv d'"
  using run
proof (cases rule: apply_permit_body_Inr)
  case (replay existing)
  with inv show ?thesis by simp
next
  case (created price d1 account)
  have inv1: "billing_inv d1"
    unfolding created(5) reclaimStaleOpenPermits_def using inv by (rule billing_inv_settle_where)
  show ?thesis
    unfolding created(9)
    by (rule billing_inv_created [OF inv1 _ created(2) units _ created(8)])
      (use created in simp_all)
qed

lemma report_base_ledger_ok:
  assumes "ledger_ok d"
    and "outcome = Success \<Longrightarrow> findAccountById d a = Some account \<and> uuid \<notin> le_id ` set (ledger_entries d)"
  shows "ledger_ok (report_base permit unit outcome now uuid account d)"
  using assms by (auto simp: report_base_def intro: ledger_ok_posted)

lemma fresh_report_orders [simp]:
  "publish_orders (fresh_report d permit unit outcome now uuid account fin) = publish_orders d"
  "accounts (fresh_report d permit unit outcome now uuid account fin) =
    accounts (report_base permit unit outcome now uuid account d)"
  by (simp_all add: fresh_report_def)

lemma billing_inv_fresh:
  assumes inv: "billing_inv d" and load: "loadPermit d pid = Some permit" and own: "bp_account_id permit = a"
    and st: "bp_status permit = Open" and none: "find_report d pid unit = None"
    and fin: "fin \<longleftrightarrow> bp_units permit \<le>
      succeeded_of (permit_unit_reports d) pid + failed_of (permit_unit_reports d) pid + 1"
    and acc: "outcome = Success \<Longrightarrow>
      findAccountById d a = Some account \<and> uuid \<notin> le_id ` set (ledger_entries d)"
  shows "billing_inv (fresh_report d permit unit outcome now uuid account fin)"
proof -
  let ?d = "fresh_report d permit unit outcome now uuid account fin"
  let ?c = "report_charge d permit outcome"
  have inv': "ledger_ok d" "permits_ok d" "\<And>i. solvent d i" "\<And>i. books_balanced d i"
    using inv by (simp_all add: billing_inv_def)
  have "ledger_ok ?d"
    using report_base_ledger_ok [OF inv'(1) acc] by (simp add: fresh_report_def)
  moreover have "permits_ok ?d"
    using inv'(2) load st none fin by (rule permits_ok_fresh)
  moreover have frozen: "frozenPointsFor ?d i \<le> frozenPointsFor d i - (if i = a then ?c else 0)" for i
    using permit_frozen_fresh [OF inv'(2) load st, of i unit outcome now uuid account fin]
    by (simp add: frozenPointsFor_def own)
  have "0 \<le> ?c"
    using permits_ok_member [OF inv'(2)] load st by (auto dest: loadPermit_member intro: report_charge_le)
  have "solvent ?d j" for j
  proof (cases "outcome = Success")
    case True
    have other: "frozenPointsFor ?d i \<le> frozenPointsFor d i" if "i \<noteq> a" for i
      using frozen [of i] that by simp
    show ?thesis
      by (rule solvent_posted_charge [where i = a, OF inv'(3) _ _ other])
        (use acc [OF True] frozen [of a] True in \<open>simp_all add: report_base_def\<close>)
  next
    case False
    then have "findAccountById ?d j = findAccountById d j"
      by (simp add: findAccountById_def report_base_def)
    then show ?thesis
      using inv'(3) [of j] frozen [of j] \<open>0 \<le> ?c\<close> by (fastforce simp: solvent_def split: if_splits)
  qed
  moreover have "books_balanced ?d i" for i
  proof -
    have "spend_sum ?d i = spend_sum d i - (if i = a \<and> outcome = Success then ?c else 0)"
      using acc
      by (auto simp: fresh_report_def report_base_def spend_sum_posted is_spend_def
          dest: findAccountById_ac_id)
    moreover have "order_spent ?d i = order_spent d i" by (simp add: order_spent_def)
    ultimately show ?thesis
      using inv'(4) [of i] permit_spent_fresh [OF inv'(2) load, of unit outcome now uuid account fin i]
      by (simp add: books_balanced_def own)
  qed
  ultimately show ?thesis by (simp add: billing_inv_def)
qed

lemma billing_inv_report:
  assumes inv: "billing_inv d"
    and run: "report_unit_body a pid unit outcome now uuid d = Inr (d', proj)"
  shows "billing_inv d'"
  using run
proof (cases rule: report_unit_body_Inr)
  case (replay permit)
  then show ?thesis
    using billing_inv_touch_where [OF inv] by (simp add: touch_open_permit_def)
next
  case (fresh permit account fin)
  show ?thesis
    unfolding fresh(7) by (rule billing_inv_fresh [OF inv fresh(1-6)])
qed

lemma billing_inv_close:
  assumes inv: "billing_inv d" and run: "close_permit_body a pid now d = Inr (d', proj)"
  shows "billing_inv d'"
proof -
  from run have "d' = d \<or> d' = markPermitSettled pid now d"
    by (auto simp: close_permit_body_def bind_result_Inr_iff Let_def split: option.split_asm if_split_asm)
  with inv billing_inv_settle_where [OF inv] show ?thesis
    by (auto simp: markPermitSettled_def)
qed

section \<open>A permit in progress\<close>

text \<open>The small ledger of \<^const>\<open>demo_db\<close> with one open distribution planning permit of four units.\<close>

definition demo_input :: permit_apply_input where
  "demo_input = \<lparr>pi_permitId = ''permit-1'', pi_operation = ''distribution_planning'', pi_units = 4,
     pi_unitPrice = None, pi_basePrice = None\<rparr>"

lemma demo_permits_ok: "permits_ok demo_db"
  by (simp add: permits_ok_def demo_db_def empty_db_def)

lemma demo_billing_inv: "billing_inv demo_db"
proof -
  have "solvent demo_db i" for i
    by (auto simp: solvent_def demo_db_def demo_account_def empty_db_def frozenPointsFor_def
        permit_frozen_of_def order_frozen_of_def findAccountById_def split: if_splits)
  moreover have "books_balanced demo_db i" for i
    by (simp add: books_balanced_def spend_sum_def permit_spent_def order_spent_def demo_db_def
        empty_db_def is_spend_def)
  ultimately show ?thesis
    by (simp add: billing_inv_def demo_ledger_ok demo_permits_ok)
qed

definition demo_permit :: billing_permit_row where
  "demo_permit = new_permit ''acc-1'' demo_input \<lparr>price_base = 30, price_per_unit = 5\<rparr> 10"

definition demo_open :: db where
  "demo_open = demo_db\<lparr>billing_permits := [demo_permit]\<rparr>"

lemma demo_price: "operation_price_of ''distribution_planning'' = Some \<lparr>price_base = 30, price_per_unit = 5\<rparr>"
  by (simp add: operation_price_of_def OPERATION_PRICES_def)

lemma demo_open_inv: "billing_inv demo_open"
proof -
  have none: "billing_permits demo_db = []" by (simp add: demo_db_def empty_db_def)
  have "billing_inv (demo_db\<lparr>billing_permits := billing_permits demo_db @
      [new_permit ''acc-1'' demo_input \<lparr>price_base = 30, price_per_unit = 5\<rparr> 10]\<rparr>)"
    by (rule billing_inv_created [OF demo_billing_inv _ _ _ demo_find])
      (simp_all add: demo_input_def demo_price none loadPermit_def frozenPointsFor_def
        permit_frozen_of_def order_frozen_of_def demo_account_def, simp add: demo_db_def empty_db_def)
  then show ?thesis by (simp add: demo_open_def demo_permit_def none)
qed

lemma demo_open_load: "loadPermit demo_open ''permit-1'' = Some demo_permit"
  by (simp add: loadPermit_def demo_open_def demo_permit_def new_permit_def demo_input_def)

lemma demo_apply:
  "applyForPermit default_config ''acc-1'' demo_input 10 demo_db =
     (demo_open, Inr \<lparr>ar_permit = permitProjection demo_open demo_permit, ar_created = True\<rparr>)"
proof -
  have empty: "billing_permits demo_db = []" "publish_orders demo_db = []"
    "reclaimStaleOpenPermits a now t demo_db = demo_db" for a now t
    by (simp_all add: demo_db_def empty_db_def reclaimStaleOpenPermits_def)
  have row: "\<lparr>bp_id = ''permit-1'', bp_account_id = ''acc-1'', bp_operation = ''distribution_planning'',
      bp_units = 4, bp_unit_price = 5, bp_base_price = 30, bp_frozen_remaining = 50, bp_status = Open,
      bp_created_at = 10, bp_settled_at = None, bp_last_activity_at = 10\<rparr> = demo_permit"
    by (simp add: demo_permit_def new_permit_def demo_input_def)
  have "bp_account_id demo_permit = ''acc-1''" "ac_balance demo_account = 500" "bp_id demo_permit = ''permit-1''"
    by (simp_all add: demo_permit_def new_permit_def demo_input_def demo_account_def)
  then show ?thesis
    by (simp add: applyForPermit_def transaction_def apply_permit_body_def Let_def demo_input_def
        demo_price empty loadPermit_def openPermitCount_def default_config_def demo_find
        frozenPointsFor_def permit_frozen_of_def order_frozen_of_def insert_permit_def insert_row_def
        row demo_open_def)
qed

text \<open>The first unit of the permit reported as a success.\<close>

definition demo_report_result :: "db \<times> permit_projection result" where
  "demo_report_result = reportPermitUnit ''acc-1'' ''permit-1'' 0 Success 20 ''le-2'' demo_open"

section \<open>Properties of permits\<close>

lemma permitProjection_points:
  "pp_consumedPoints (permitProjection d p) = consumed_of (permit_unit_reports d) p"
  "pp_frozenPoints (permitProjection d p) = bp_frozen_remaining p"
  "pp_totalPoints (permitProjection d p) = bp_base_price p + bp_unit_price p * bp_units p"
  "pp_refundedPoints (permitProjection d p) =
     bp_base_price p + bp_unit_price p * bp_units p - consumed_of (permit_unit_reports d) p -
     bp_frozen_remaining p"
  "pp_status (permitProjection d p) = bp_status p"
  "pp_unitsUnreported (permitProjection d p) =
     bp_units p - (succeeded_of (permit_unit_reports d) (bp_id p) + failed_of (permit_unit_reports d) (bp_id p))"
  by (simp_all add: permitProjection_def reportCounts_def consumed_of_def Let_def)

lemma consumed_of_bounds:
  assumes "permit_ok rs p"
  shows "0 \<le> consumed_of rs p"
    and "bp_status p = Open \<Longrightarrow> consumed_of rs p + bp_frozen_remaining p \<le> bp_base_price p + bp_unit_price p * bp_units p"
    and "bp_status p = Settled \<Longrightarrow> consumed_of rs p \<le> bp_base_price p + bp_unit_price p * bp_units p"
proof -
  let ?s = "succeeded_of rs (bp_id p)" and ?f = "failed_of rs (bp_id p)"
  have ok: "0 \<le> bp_base_price p" "0 \<le> bp_unit_price p" "?s + ?f \<le> bp_units p" "0 \<le> ?s" "0 \<le> ?f"
    using assms by (simp_all add: permit_ok_def)
  have "0 \<le> bp_unit_price p * ?s" using ok by (intro mult_nonneg_nonneg) simp_all
  with ok show "0 \<le> consumed_of rs p" by (auto simp: consumed_of_def)
  have "bp_unit_price p * ?s \<le> bp_unit_price p * bp_units p"
    by (rule mult_left_mono) (use ok in linarith)+
  with ok show "bp_status p = Settled \<Longrightarrow> consumed_of rs p \<le> bp_base_price p + bp_unit_price p * bp_units p"
    by (auto simp: consumed_of_def)
  have "bp_unit_price p * (bp_units p - ?s - ?f) + bp_unit_price p * ?s \<le> bp_unit_price p * bp_units p"
    using ok mult_nonneg_nonneg [of "bp_unit_price p" ?f] by (simp add: algebra_simps)
  then show "bp_status p = Open \<Longrightarrow> consumed_of rs p + bp_frozen_remaining p \<le> bp_base_price p + bp_unit_price p * bp_units p"
    using assms ok by (auto simp: consumed_of_def permit_ok_def frozen_due_def)
qed



lemma permit_owner_exists:
  assumes "billing_inv d" and "loadPermit d pid = Some p"
  shows "\<exists>account. findAccountById d (bp_account_id p) = Some account"
proof -
  have "bp_account_id p \<in> ac_id ` set (accounts d)"
    using assms loadPermit_member by (auto simp: billing_inv_def permits_ok_def)
  then show ?thesis
    by (metis findAccountById_def find_row_None_iff not_None_eq)
qed

lemma charge_unit_ok:
  assumes "ledger_ok d" and "findAccountById d (bp_account_id permit) = Some account"
    and "uuid \<notin> le_id ` set (ledger_entries d)"
  shows "charge_unit permit unit outcome now uuid d =
    Inr (unfreeze_permit (bp_id permit) (report_charge d permit outcome)
      (report_base permit unit outcome now uuid account d))"
  using applyBalanceChange_ok [OF assms] assms(2)
  by (auto simp: charge_unit_def settleFrozenPoints_def reportCounts_def report_charge_def
      report_base_def Let_def)

lemma record_unit_ok:
  assumes "loadPermit d (bp_id permit) \<noteq> None"
    and "report_key (new_report (bp_id permit) unit outcome now) \<notin> report_key ` set (permit_unit_reports d)"
  shows "\<exists>d' proj. record_unit permit unit outcome now d = Inr (d', proj)"
proof -
  let ?rows = "permit_unit_reports d @ [new_report (bp_id permit) unit outcome now]"
  have ins: "insert_report (new_report (bp_id permit) unit outcome now) d = Inr (d\<lparr>permit_unit_reports := ?rows\<rparr>)"
    using assms by (auto simp: insert_report_def insert_row_def report_key_def new_report_def)
  have "loadPermit (d\<lparr>permit_unit_reports := ?rows\<rparr>) (bp_id permit) \<noteq> None"
    "loadPermit (markPermitSettled (bp_id permit) now (d\<lparr>permit_unit_reports := ?rows\<rparr>)) (bp_id permit) \<noteq> None"
    using assms(1) by (simp_all add: loadPermit_def markPermitSettled_def find_row_None_iff)
  then show ?thesis
    unfolding record_unit_def new_report_def [symmetric] ins by (auto simp: Let_def)
qed

lemma report_unit_body_total:
  assumes inv: "billing_inv d" and load: "loadPermit d pid = Some permit" and own: "bp_account_id permit = a"
    and st: "bp_status permit = Open" and unit: "0 \<le> unit" "unit < bp_units permit"
    and none: "find_report d pid unit = None" and fresh: "uuid \<notin> le_id ` set (ledger_entries d)"
  shows "\<exists>d' proj. report_unit_body a pid unit outcome now uuid d = Inr (d', proj)"
proof -
  have id: "bp_id permit = pid" and mem: "permit \<in> set (billing_permits d)"
    using load by (simp_all add: loadPermit_member)
  obtain account where acc: "findAccountById d a = Some account"
    using permit_owner_exists [OF inv load] own by auto
  let ?d1 = "touch_permit pid now d"
  let ?d3 = "unfreeze_permit (bp_id permit) (report_charge ?d1 permit outcome)
    (report_base permit unit outcome now uuid account ?d1)"
  have "charge_unit permit unit outcome now uuid ?d1 = Inr ?d3"
    using inv acc own fresh by (intro charge_unit_ok) (simp_all add: touch_permit_def billing_inv_def)
  moreover have "\<exists>d' proj. record_unit permit unit outcome now ?d3 = Inr (d', proj)"
  proof (rule record_unit_ok)
    show "loadPermit ?d3 (bp_id permit) \<noteq> None"
      using load id by (simp add: loadPermit_def unfreeze_permit_def touch_permit_def
          unfreeze_permit.find_row_update touch_permit.find_row_update)
    show "report_key (new_report (bp_id permit) unit outcome now) \<notin> report_key ` set (permit_unit_reports ?d3)"
      using none id by (auto simp: find_report_def find_row_None_iff report_key_def new_report_def
          unfreeze_permit_def touch_permit_def)
  qed
  ultimately show ?thesis
    using load own st unit none
    by (auto simp: report_unit_body_def requireOwnedPermit_def)
qed

lemma report_unit_body_proj:
  assumes "report_unit_body a pid unit outcome now uuid d = Inr (d', proj)"
    and "find_report d pid unit = None"
  shows "\<exists>u. loadPermit d' pid = Some u \<and> proj = permitProjection d' u"
proof -
  from assms obtain permit d3 where "loadPermit d pid = Some permit"
    and rec: "record_unit permit unit outcome now d3 = Inr (d', proj)"
    by (auto simp: report_unit_body_def bind_result_Inr_iff requireOwnedPermit_Inr split: if_split_asm)
  then have "bp_id permit = pid" by (simp add: loadPermit_member)
  with rec show ?thesis
    by (auto simp: record_unit_def bind_result_Inr_iff Let_def split: option.split_asm)
qed

lemma loadPermit_fresh:
  "loadPermit (fresh_report d permit unit outcome now uuid account fin) (bp_id permit) =
     map_option (report_row now (report_charge d permit outcome) fin) (loadPermit d (bp_id permit))"
  by (simp add: loadPermit_def fresh_report_def report_upd.find_row_update)

lemma consumed_of_report:
  assumes "bp_id permit = pid"
  shows "consumed_of (permit_unit_reports (fresh_report d permit unit outcome now uuid account fin))
      (report_row now c fin permit) =
    consumed_of (permit_unit_reports d) permit +
      (if outcome = Success then report_charge d permit outcome else 0)"
proof -
  have "0 \<le> succeeded_of (permit_unit_reports d) pid" by simp
  with assms show ?thesis
    by (auto simp: consumed_of_def fresh_report_def succeeded_of_snoc report_charge_def algebra_simps
        simp del: succeeded_of_nonneg)
qed

lemma fresh_report_balance:
  assumes acct: "findAccountById d a = Some acct"
    and acc: "outcome = Success \<Longrightarrow> findAccountById d a = Some account"
  shows "\<exists>account'. findAccountById (fresh_report d permit unit outcome now uuid account fin) a = Some account' \<and>
    ac_balance acct - ac_balance account' = (if outcome = Success then report_charge d permit outcome else 0)"
proof (cases "outcome = Success")
  case True
  with acc acct have "account = acct" "ac_id acct = a" by (simp_all add: findAccountById_ac_id)
  with True acct show ?thesis
    by (simp add: fresh_report_def report_base_def findAccountById_posted set_balance_def)
next
  case False
  with acct show ?thesis by (simp add: fresh_report_def report_base_def)
qed

text \<open>
  C5: a fresh unit report on an open permit always goes through, and the account pays exactly the
  increase of the permit's consumed points: nothing for a failed unit, the unit price for a
  successful one, and the base fee once, with the first success. The permit settles itself exactly
  when the reported unit was the last one missing.
\<close>

theorem reportPermitUnit_settles:
  assumes inv: "billing_inv d" and load: "loadPermit d pid = Some permit" and own: "bp_account_id permit = a"
    and st: "bp_status permit = Open" and unit: "0 \<le> unit" "unit < bp_units permit"
    and none: "find_report d pid unit = None" and fresh: "uuid \<notin> le_id ` set (ledger_entries d)"
  shows "\<exists>d' proj account account'.
    reportPermitUnit a pid unit outcome now uuid d = (d', Inr proj) \<and>
    findAccountById d a = Some account \<and> findAccountById d' a = Some account' \<and>
    ac_balance account - ac_balance account' =
      pp_consumedPoints proj - pp_consumedPoints (permitProjection d permit) \<and>
    pp_consumedPoints proj - pp_consumedPoints (permitProjection d permit) =
      (case outcome of Failure \<Rightarrow> 0
       | Success \<Rightarrow> bp_unit_price permit +
           (if succeeded_of (permit_unit_reports d) pid = 0 then bp_base_price permit else 0)) \<and>
    (pp_status proj = Settled \<longleftrightarrow> pp_unitsUnreported (permitProjection d permit) = 1)"
proof -
  from report_unit_body_total [OF assms] obtain d' proj
    where run: "report_unit_body a pid unit outcome now uuid d = Inr (d', proj)" by blast
  have id: "bp_id permit = pid" and mem: "permit \<in> set (billing_permits d)"
    using load by (simp_all add: loadPermit_member)
  obtain acct where acct: "findAccountById d a = Some acct"
    using permit_owner_exists [OF inv load] own by auto
  from run none obtain account fin where
    fin: "fin \<longleftrightarrow> bp_units permit \<le>
      succeeded_of (permit_unit_reports d) pid + failed_of (permit_unit_reports d) pid + 1"
    and acc: "outcome = Success \<Longrightarrow> findAccountById d a = Some account"
    and d': "d' = fresh_report d permit unit outcome now uuid account fin"
    by (cases rule: report_unit_body_Inr) (auto simp: load)
  have proj: "proj = permitProjection d' (report_row now (report_charge d permit outcome) fin permit)"
    using report_unit_body_proj [OF run none] loadPermit_fresh [of d permit unit outcome now uuid account fin]
    by (simp add: d' load id)
  have cons: "pp_consumedPoints proj - pp_consumedPoints (permitProjection d permit) =
      (if outcome = Success then report_charge d permit outcome else 0)"
    by (simp add: proj permitProjection_points d' consumed_of_report [OF id])
  have bal: "\<exists>account'. findAccountById d' a = Some account' \<and>
      ac_balance acct - ac_balance account' = (if outcome = Success then report_charge d permit outcome else 0)"
    unfolding d' using acct acc by (rule fresh_report_balance)
  have "permit_ok (permit_unit_reports d) permit"
    using inv mem by (simp add: billing_inv_def permits_ok_def)
  then have "fin \<longleftrightarrow> pp_unitsUnreported (permitProjection d permit) = 1"
    using st by (auto simp: fin permitProjection_points id permit_ok_def)
  then have settled: "pp_status proj = Settled \<longleftrightarrow> pp_unitsUnreported (permitProjection d permit) = 1"
    by (simp add: proj permitProjection_points st)
  have charge: "(if outcome = Success then report_charge d permit outcome else 0) =
      (case outcome of Failure \<Rightarrow> 0
       | Success \<Rightarrow> bp_unit_price permit +
           (if succeeded_of (permit_unit_reports d) pid = 0 then bp_base_price permit else 0))"
    by (cases outcome) (simp_all add: report_charge_def id)
  have "reportPermitUnit a pid unit outcome now uuid d = (d', Inr proj)"
    by (simp add: reportPermitUnit_def transaction_def run)
  with acct bal cons charge settled show ?thesis by metis
qed

theorem reportPermitUnit_settles_witness:
  "\<exists>d' proj account account'.
     reportPermitUnit ''acc-1'' ''permit-1'' 2 Success 20 ''le-2'' demo_open = (d', Inr proj) \<and>
     findAccountById demo_open ''acc-1'' = Some account \<and> findAccountById d' ''acc-1'' = Some account' \<and>
     ac_balance account - ac_balance account' = 35"
proof -
  have facts: "bp_account_id demo_permit = ''acc-1''" "bp_status demo_permit = Open"
    "(2 :: int) < bp_units demo_permit" "bp_unit_price demo_permit = 5" "bp_base_price demo_permit = 30"
    by (simp_all add: demo_permit_def new_permit_def demo_input_def)
  have reps: "permit_unit_reports demo_open = []" "find_report demo_open ''permit-1'' 2 = None"
    "''le-2'' \<notin> le_id ` set (ledger_entries demo_open)"
    by (simp_all add: demo_open_def demo_db_def empty_db_def find_report_def)
  show ?thesis
    using reportPermitUnit_settles [OF demo_open_inv demo_open_load facts(1,2) _ facts(3) reps(2,3), of Success 20]
    by (fastforce simp: facts reps succeeded_of_def)
qed

lemma permitProjection_touch [simp]:
  "permitProjection (touch_open_permit pid now d) p = permitProjection d p"
  "permitProjection d (touch_permit_row now p) = permitProjection d p"
  by (simp_all add: permitProjection_def reportCounts_def touch_open_permit_def touch_permit_row_def)

lemma touch_permit_row_simps [simp]:
  "bp_account_id (touch_permit_row now p) = bp_account_id p"
  "bp_units (touch_permit_row now p) = bp_units p"
  by (simp_all add: touch_permit_row_def)

lemma touch_open_permit_frame [simp]:
  "find_report (touch_open_permit pid now d) i unit = find_report d i unit"
  "accounts (touch_open_permit pid now d) = accounts d"
  "ledger_entries (touch_open_permit pid now d) = ledger_entries d"
  by (simp_all add: touch_open_permit_def find_report_def)

lemma loadPermit_touch_open:
  assumes "loadPermit d pid = Some p" and "distinct (map bp_id (billing_permits d))"
  shows "loadPermit (touch_open_permit pid now d) pid =
    Some (if bp_status p = Open then touch_permit_row now p else p)"
proof -
  have "bp_id p = pid" using assms(1) by (simp add: loadPermit_member)
  then show ?thesis
    using assms(1) touch_permit.find_row_update_where [OF assms(2), of pid]
    by (simp add: loadPermit_def touch_open_permit_def)
qed

text \<open>What a successful report leaves behind, whether it was fresh or a replay.\<close>

lemma report_recorded:
  assumes ok: "permits_ok d" and run: "report_unit_body a pid unit outcome now uuid d = Inr (d', proj)"
  obtains u r where "loadPermit d' pid = Some u" "bp_account_id u = a" "0 \<le> unit" "unit < bp_units u"
    "find_report d' pid unit = Some r" "ur_outcome r = outcome" "proj = permitProjection d' u"
proof -
  from run obtain permit where load: "loadPermit d pid = Some permit" and own: "bp_account_id permit = a"
    and unit: "0 \<le> unit" "unit < bp_units permit"
    by (auto simp: report_unit_body_def bind_result_Inr_iff requireOwnedPermit_Inr split: if_split_asm)
  have id: "bp_id permit = pid" using load by (simp add: loadPermit_member)
  have dist: "distinct (map bp_id (billing_permits d))" using ok by (simp add: permits_ok_def)
  show thesis
  proof (cases "find_report d pid unit")
    case (Some prior)
    with run load own unit have "d' = touch_open_permit pid now d" "ur_outcome prior = outcome"
      "proj = permitProjection d permit"
      by (auto simp: report_unit_body_def requireOwnedPermit_def split: if_split_asm)
    with Some loadPermit_touch_open [OF load dist, of now] own unit show thesis
      by (intro that [of "if bp_status permit = Open then touch_permit_row now permit else permit" prior])
        auto
  next
    case None
    with run load obtain account fin where d': "d' = fresh_report d permit unit outcome now uuid account fin"
      by (auto elim: report_unit_body_Inr)
    have u: "loadPermit d' pid = Some (report_row now (report_charge d permit outcome) fin permit)"
      using loadPermit_fresh [of d permit unit outcome now uuid account fin] load by (simp add: d' id)
    have "find_report d' pid unit = Some (new_report pid unit outcome now)"
      using None by (simp add: d' fresh_report_def find_report_def find_row_append id new_report_def)
    with u report_unit_body_proj [OF run None] own unit show thesis
      by (intro that [of "report_row now (report_charge d permit outcome) fin permit"])
        (auto simp: new_report_def)
  qed
qed

lemma demo_report:
  "reportPermitUnit ''acc-1'' ''permit-1'' 0 Success 20 ''le-2'' demo_open =
     (fst demo_report_result, Inr (projr (snd demo_report_result)))"
  "fst demo_report_result = fst (reportPermitUnit ''acc-1'' ''permit-1'' 0 Success 20 ''le-2'' demo_open)"
proof -
  have facts: "bp_account_id demo_permit = ''acc-1''" "bp_status demo_permit = Open"
    "(0 :: int) < bp_units demo_permit"
    by (simp_all add: demo_permit_def new_permit_def demo_input_def)
  have reps: "find_report demo_open ''permit-1'' 0 = None"
    "''le-2'' \<notin> le_id ` set (ledger_entries demo_open)"
    by (simp_all add: demo_open_def demo_db_def empty_db_def find_report_def)
  show "reportPermitUnit ''acc-1'' ''permit-1'' 0 Success 20 ''le-2'' demo_open =
     (fst demo_report_result, Inr (projr (snd demo_report_result)))"
    using report_unit_body_total [OF demo_open_inv demo_open_load facts(1,2) _ facts(3) reps, of Success 20]
    by (auto simp: demo_report_result_def reportPermitUnit_def transaction_def)
qed (simp add: demo_report_result_def)

text \<open>
  C17: unit reports are idempotent. Once a report has been accepted, sending the same report again,
  at any time and even after the permit has settled, answers with the same projection and changes
  neither a balance nor the ledger nor the reports; reporting the opposite outcome is a 409 that
  changes nothing at all.
\<close>

theorem reportPermitUnit_idempotent:
  assumes "permits_ok d" and "reportPermitUnit a pid unit outcome now uuid d = (d1, Inr proj)"
  shows "reportPermitUnit a pid unit outcome now' uuid' d1 = (touch_open_permit pid now' d1, Inr proj) \<and>
    accounts (touch_open_permit pid now' d1) = accounts d1 \<and>
    ledger_entries (touch_open_permit pid now' d1) = ledger_entries d1 \<and>
    permit_unit_reports (touch_open_permit pid now' d1) = permit_unit_reports d1 \<and>
    (outcome' \<noteq> outcome \<longrightarrow>
       reportPermitUnit a pid unit outcome' now' uuid' d1 = (d1, fail ''unit_outcome_conflict'' 409))"
proof -
  have run: "report_unit_body a pid unit outcome now uuid d = Inr (d1, proj)"
    using assms(2) unfolding reportPermitUnit_def by (rule transaction_InrD)
  from assms(1) run obtain u r where
    "loadPermit d1 pid = Some u" "bp_account_id u = a" "0 \<le> unit" "unit < bp_units u"
    "find_report d1 pid unit = Some r" "ur_outcome r = outcome" "proj = permitProjection d1 u"
    by (rule report_recorded)
  then show ?thesis
    by (auto simp: reportPermitUnit_def transaction_def report_unit_body_def requireOwnedPermit_def)
      (simp add: touch_open_permit_def)
qed

theorem reportPermitUnit_idempotent_witness:
  "reportPermitUnit ''acc-1'' ''permit-1'' 0 Failure 30 ''x''
     (fst (reportPermitUnit ''acc-1'' ''permit-1'' 0 Success 20 ''le-2'' demo_open)) =
   (fst (reportPermitUnit ''acc-1'' ''permit-1'' 0 Success 20 ''le-2'' demo_open),
    fail ''unit_outcome_conflict'' 409)"
  using reportPermitUnit_idempotent [OF _ demo_report(1), of 30 "''x''" Failure] demo_open_inv
  by (simp add: billing_inv_def demo_report(2))

text \<open>
  C18: permit applications are idempotent. After a successful application the same application,
  with or without the prices spelled out by the client, is answered from the stored permit: no
  second freeze, no new row, the database is not touched.
\<close>

theorem applyForPermit_idempotent:
  assumes "applyForPermit cfg a input now d = (d1, Inr res)"
  shows "applyForPermit cfg' a input now' d1 =
    (d1, Inr \<lparr>ar_permit = ar_permit res, ar_created = False\<rparr>)"
proof -
  have run: "apply_permit_body cfg a input now d = Inr (d1, res)"
    using assms unfolding applyForPermit_def by (rule transaction_InrD)
  show ?thesis
    using run
  proof (cases rule: apply_permit_body_Inr)
    case (replay existing)
    with run show ?thesis
      by (auto simp: applyForPermit_def transaction_def apply_permit_body_def Let_def split: if_split_asm)
  next
    case (created price d0 account)
    have "find_row bp_id (pi_permitId input) (billing_permits d0) = None"
      using created(1,5) by (simp flip: loadPermit_def)
    then have "loadPermit d1 (pi_permitId input) = Some (new_permit a input price now)"
      by (simp add: created(9) loadPermit_def find_row_append new_permit_def)
    with created(2,3,4,10) show ?thesis
      by (auto simp: applyForPermit_def transaction_def apply_permit_body_def Let_def new_permit_def)
  qed
qed

theorem applyForPermit_idempotent_witness:
  "applyForPermit default_config ''acc-1'' demo_input 99 demo_open =
     (demo_open, Inr \<lparr>ar_permit = permitProjection demo_open demo_permit, ar_created = False\<rparr>)"
  using applyForPermit_idempotent [OF demo_apply, of default_config 99] by simp

lemma openPermitCount_settle_le:
  "openPermitCount (d\<lparr>billing_permits := update_rows P (settle_permit_row now) (billing_permits d)\<rparr>) i
    \<le> openPermitCount d i"
proof -
  have "count_where Q (update_rows P (settle_permit_row now) rows) \<le> count_where Q rows"
    if "Q = (\<lambda>p. bp_account_id p = i \<and> bp_status p = Open)" for Q rows
    by (induction rows) (auto simp: that settle_permit_row_def)
  then show ?thesis by (simp add: openPermitCount_def)
qed



text \<open>
  C16: closing a permit always answers its owner and releases exactly what was still frozen: the
  balance and the ledger stay as they are, the frozen points of the account fall by the remainder
  of this permit, and nothing of it stays frozen. Everybody else sees a 404.
\<close>

theorem closePermit_releases:
  assumes "permits_ok d" and "loadPermit d pid = Some p"
  shows "closePermit a pid now d =
      (if bp_account_id p \<noteq> a then (d, fail ''permit_not_found'' 404)
       else if bp_status p = Settled then (d, Inr (permitProjection d p))
       else (markPermitSettled pid now d, Inr (permitProjection d (settle_permit_row now p)))) \<and>
    accounts (markPermitSettled pid now d) = accounts d \<and>
    ledger_entries (markPermitSettled pid now d) = ledger_entries d \<and>
    frozenPointsFor (markPermitSettled pid now d) (bp_account_id p) =
      frozenPointsFor d (bp_account_id p) - bp_frozen_remaining p"
proof -
  have dist: "distinct (map bp_id (billing_permits d))" using assms(1) by (simp add: permits_ok_def)
  have row: "permit_ok (permit_unit_reports d) p"
    using assms permits_ok_member loadPermit_member by blast
  have load: "loadPermit (markPermitSettled pid now d) pid = Some (settle_permit_row now p)"
    using assms(2) by (simp add: loadPermit_def markPermitSettled_def settle_permit.find_row_update)
  have proj: "permitProjection (markPermitSettled pid now d) q = permitProjection d q" for q
    by (simp add: permitProjection_def reportCounts_def markPermitSettled_def)
  have "bp_status p = Settled \<Longrightarrow> bp_frozen_remaining p = 0"
    using row by (simp add: permit_ok_def)
  then have "frozenPointsFor (markPermitSettled pid now d) (bp_account_id p) =
      frozenPointsFor d (bp_account_id p) - bp_frozen_remaining p"
    using settle_permit.sum_where_update_one [OF dist assms(2) [unfolded loadPermit_def],
        of "\<lambda>q. bp_account_id q = bp_account_id p \<and> bp_status q = Open" bp_frozen_remaining now]
    by (cases "bp_status p")
      (simp_all add: frozenPointsFor_def permit_frozen_of_def markPermitSettled_def settle_permit_row_def)
  moreover have "accounts (markPermitSettled pid now d) = accounts d"
    "ledger_entries (markPermitSettled pid now d) = ledger_entries d"
    by (simp_all add: markPermitSettled_def)
  ultimately show ?thesis
    using assms(2) load proj
    by (cases "bp_status p")
      (simp_all add: closePermit_def transaction_def close_permit_body_def requireOwnedPermit_def)
qed

theorem closePermit_releases_witness:
  "frozenPointsFor (markPermitSettled ''permit-1'' 30 demo_open) ''acc-1'' =
     frozenPointsFor demo_open ''acc-1'' - 50"
  using closePermit_releases [OF _ demo_open_load, of "''acc-1''" 30] demo_open_inv
  by (simp add: billing_inv_def) (simp add: demo_permit_def new_permit_def demo_input_def)

end
