(* ===== verification/PublishOrders.thy ===== *)
theory PublishOrders
  imports Permits
begin

text \<open>
  Publish orders (\<open>backend/src/domain/publish-orders.ts\<close>): placing an order freezes its points
  under the per-article and per-execution caps, the upstream status settles or refunds it, a
  failed placement releases the freeze and may be retried under the same number. The resource
  price cache of \<open>backend/src/domain/distribution-resources.ts\<close> and the usage records of
  \<open>backend/src/domain/provider-usage.ts\<close>, which the order routes write, are here too.
\<close>

section \<open>Data and operations\<close>

definition SETTLE_STATUSES :: "rat list" where
  "SETTLE_STATUSES = [3, 4, 8, 10, 11, 12]"

definition REFUND_STATUSES :: "rat list" where
  "REFUND_STATUSES = [2, 5, 7]"

record place_order_input =
  oi_sn :: string
  oi_executionId :: string
  oi_itemId :: string
  oi_kind :: publish_order_kind
  oi_resourceId :: int
  oi_title :: utext
  oi_contentUrl :: string
  oi_remark :: "utext option"
  oi_owner :: "utext option"
  oi_publishForm :: "int option"
  oi_publishType :: "int option"
  oi_accountRule :: "int option"
  oi_mediaPriceCents :: int
  oi_perArticleMaxPoints :: int
  oi_executionMaxPoints :: int

datatype place_phase = CreatedPhase | RetryPhase | ReplayPlaced | ReplayPending

definition findPublishOrderBySn :: "db \<Rightarrow> string \<Rightarrow> publish_order_row option" where
  "findPublishOrderBySn d sn = find_row po_sn sn (publish_orders d)"

definition listPublishOrdersForAccount :: "db \<Rightarrow> string \<Rightarrow> nat \<Rightarrow> publish_order_row list" where
  "listPublishOrdersForAccount d accountId limit =
     take limit
       (sort_key (\<lambda>q. - po_created_at q)
          (rev (sort_key po_sn (filter (\<lambda>q. po_account_id q = accountId) (publish_orders d)))))"

definition requireOwnedPublishOrder ::
  "db \<Rightarrow> string \<Rightarrow> string \<Rightarrow> publish_order_kind \<Rightarrow> publish_order_row result" where
  "requireOwnedPublishOrder d accountId sn kind =
     (case findPublishOrderBySn d sn of
        None \<Rightarrow> fail ''order_not_found'' 404
      | Some order \<Rightarrow>
          if po_account_id order \<noteq> accountId \<or> po_kind order \<noteq> kind
          then fail ''order_not_found'' 404 else Inr order)"

definition loadAccount :: "db \<Rightarrow> string \<Rightarrow> account_row result" where
  "loadAccount d accountId =
     (case findAccountById d accountId of
        None \<Rightarrow> fail ''account_not_found'' 404 | Some account \<Rightarrow> Inr account)"

definition committed :: "publish_order_row \<Rightarrow> bool" where
  "committed q \<longleftrightarrow> po_ledger_status q = OFrozen \<or> po_ledger_status q = OSettled"

definition assertWithinSpendLimits :: "db \<Rightarrow> string \<Rightarrow> place_order_input \<Rightarrow> int \<Rightarrow> unit result" where
  "assertWithinSpendLimits d accountId input points =
     (if points > oi_perArticleMaxPoints input
      then Inl (AppError ''publish_order_per_article_limit_exceeded'' 409
                  [(''required'', points), (''limit'', oi_perArticleMaxPoints input)])
      else
        let peer = (\<lambda>q. po_account_id q = accountId \<and> po_execution_id q = oi_executionId input \<and>
                        po_sn q \<noteq> oi_sn input);
            rows = publish_orders d;
            committedPoints = sum_where (\<lambda>q. peer q \<and> committed q) po_points rows
        in if count_where peer rows > 0 \<and>
              (min_where peer po_per_article_max_points rows \<noteq> Some (oi_perArticleMaxPoints input) \<or>
               max_where peer po_per_article_max_points rows \<noteq> Some (oi_perArticleMaxPoints input) \<or>
               min_where peer po_execution_max_points rows \<noteq> Some (oi_executionMaxPoints input) \<or>
               max_where peer po_execution_max_points rows \<noteq> Some (oi_executionMaxPoints input))
           then fail ''publish_order_execution_limits_conflict'' 409
           else if committedPoints + points > oi_executionMaxPoints input
           then Inl (AppError ''publish_order_execution_limit_exceeded'' 409
                       [(''required'', committedPoints + points), (''committed'', committedPoints),
                        (''limit'', oi_executionMaxPoints input)])
           else Inr ())"

definition insufficientBalance :: "int \<Rightarrow> int \<Rightarrow> int \<Rightarrow> app_error" where
  "insufficientBalance required available balance =
     AppError ''insufficient_balance'' 402
       [(''required'', required), (''available'', available), (''frozen'', balance - available),
        (''total'', balance)]"

text \<open>The caps and the available balance, checked in this order before every freeze.\<close>

definition order_admission :: "db \<Rightarrow> string \<Rightarrow> place_order_input \<Rightarrow> int \<Rightarrow> unit result" where
  "order_admission d accountId input points =
     bind_result (assertWithinSpendLimits d accountId input points) (\<lambda>_.
       bind_result (loadAccount d accountId) (\<lambda>account.
         let available = ac_balance account - frozenPointsFor d accountId
         in if available < points
            then Inl (insufficientBalance points available (ac_balance account)) else Inr ()))"

definition same_order_params :: "publish_order_row \<Rightarrow> place_order_input \<Rightarrow> bool" where
  "same_order_params q input \<longleftrightarrow>
     po_execution_id q = oi_executionId input \<and> po_item_id q = oi_itemId input \<and>
     po_kind q = oi_kind input \<and> po_resource_id q = oi_resourceId input \<and>
     po_title q = oi_title input \<and> po_content_url q = oi_contentUrl input \<and>
     po_remark q = case_option [] id (oi_remark input) \<and>
     po_owner q = case_option [] id (oi_owner input) \<and>
     po_publish_form q = oi_publishForm input \<and> po_publish_type q = oi_publishType input \<and>
     po_account_rule q = oi_accountRule input \<and>
     po_per_article_max_points q = oi_perArticleMaxPoints input \<and>
     po_execution_max_points q = oi_executionMaxPoints input"

definition retry_order_row :: "int \<Rightarrow> int \<Rightarrow> instant \<Rightarrow> publish_order_row \<Rightarrow> publish_order_row" where
  "retry_order_row cents points now q =
     q\<lparr>po_media_price_cents := cents, po_points := points, po_ledger_status := OFrozen,
       po_placement_status := Pending, po_updated_at := now\<rparr>"

definition complete_order_row :: "string option \<Rightarrow> instant \<Rightarrow> publish_order_row \<Rightarrow> publish_order_row" where
  "complete_order_row partnerSn now q =
     q\<lparr>po_placement_status := Placed,
       po_partner_sn := (case partnerSn of None \<Rightarrow> po_partner_sn q | Some s \<Rightarrow> Some s),
       po_updated_at := now\<rparr>"

definition fail_order_row :: "instant \<Rightarrow> publish_order_row \<Rightarrow> publish_order_row" where
  "fail_order_row now q =
     q\<lparr>po_placement_status := Failed, po_ledger_status := ORefunded, po_updated_at := now\<rparr>"

definition status_order_row ::
  "order_ledger_status \<Rightarrow> rat \<Rightarrow> string option \<Rightarrow> string option \<Rightarrow> instant option \<Rightarrow> instant \<Rightarrow>
   publish_order_row \<Rightarrow> publish_order_row" where
  "status_order_row ledger status url publishedAt closedAt now q =
     q\<lparr>po_ledger_status := ledger, po_upstream_status := Some status,
       po_url := (case url of None \<Rightarrow> po_url q | Some s \<Rightarrow> Some s),
       po_published_at := (case publishedAt of None \<Rightarrow> po_published_at q | Some s \<Rightarrow> Some s),
       po_closed_observed_at := closedAt, po_updated_at := now\<rparr>"

definition update_order :: "string \<Rightarrow> (publish_order_row \<Rightarrow> publish_order_row) \<Rightarrow> db \<Rightarrow> db" where
  "update_order sn u d =
     d\<lparr>publish_orders := update_rows (\<lambda>q. po_sn q = sn) u (publish_orders d)\<rparr>"

definition new_order :: "string \<Rightarrow> place_order_input \<Rightarrow> int \<Rightarrow> instant \<Rightarrow> publish_order_row" where
  "new_order accountId input points now =
     \<lparr>po_sn = oi_sn input, po_account_id = accountId, po_execution_id = oi_executionId input,
      po_item_id = oi_itemId input, po_kind = oi_kind input, po_resource_id = oi_resourceId input,
      po_title = oi_title input, po_content_url = oi_contentUrl input,
      po_remark = case_option [] id (oi_remark input), po_owner = case_option [] id (oi_owner input),
      po_publish_form = oi_publishForm input, po_publish_type = oi_publishType input,
      po_account_rule = oi_accountRule input, po_media_price_cents = oi_mediaPriceCents input,
      po_points = points, po_per_article_max_points = oi_perArticleMaxPoints input,
      po_execution_max_points = oi_executionMaxPoints input, po_placement_status = Pending,
      po_ledger_status = OFrozen, po_partner_sn = None, po_upstream_status = None, po_url = None,
      po_published_at = None, po_closed_observed_at = None, po_created_at = now,
      po_updated_at = now\<rparr>"

definition insert_order :: "publish_order_row \<Rightarrow> db \<Rightarrow> db result" where
  "insert_order q d =
     (if findAccountById d (po_account_id q) = None then Inl (SqlError ForeignKeyConstraint)
      else bind_result (insert_row po_sn q (publish_orders d))
             (\<lambda>rows. Inr (d\<lparr>publish_orders := rows\<rparr>)))"

definition read_order_back :: "string \<Rightarrow> 'a \<Rightarrow> (publish_order_row \<times> 'a) body" where
  "read_order_back sn x d =
     (case findPublishOrderBySn d sn of
        None \<Rightarrow> fail ''internal_error'' 500 | Some q \<Rightarrow> Inr (d, (q, x)))"

definition begin_order_body ::
  "string \<Rightarrow> place_order_input \<Rightarrow> instant \<Rightarrow> (publish_order_row \<times> place_phase) body" where
  "begin_order_body accountId input now d =
     (let points = publishOrderPoints (oi_mediaPriceCents input) in
      case findPublishOrderBySn d (oi_sn input) of
        Some existing \<Rightarrow>
          if po_account_id existing \<noteq> accountId then fail ''order_not_found'' 404
          else if \<not> same_order_params existing input then fail ''sn_conflict'' 409
          else (case po_placement_status existing of
                  Placed \<Rightarrow> Inr (d, (existing, ReplayPlaced))
                | Pending \<Rightarrow> Inr (d, (existing, ReplayPending))
                | Failed \<Rightarrow>
                    bind_result (order_admission d accountId input points) (\<lambda>_.
                      read_order_back (oi_sn input) RetryPhase
                        (update_order (oi_sn input)
                           (retry_order_row (oi_mediaPriceCents input) points now) d)))
      | None \<Rightarrow>
          bind_result (order_admission d accountId input points) (\<lambda>_.
            bind_result (insert_order (new_order accountId input points now) d)
              (read_order_back (oi_sn input) CreatedPhase)))"

definition beginPublishOrder ::
  "string \<Rightarrow> place_order_input \<Rightarrow> instant \<Rightarrow> (publish_order_row \<times> place_phase) operation" where
  "beginPublishOrder accountId input now = transaction (begin_order_body accountId input now)"

definition complete_order_body :: "string \<Rightarrow> string option \<Rightarrow> instant \<Rightarrow> publish_order_row body" where
  "complete_order_body sn partnerSn now d =
     bind_result (read_order_back sn () (update_order sn (complete_order_row partnerSn now) d))
       (\<lambda>(d1, q, _). Inr (d1, q))"

definition completePublishOrder :: "string \<Rightarrow> string option \<Rightarrow> instant \<Rightarrow> publish_order_row operation" where
  "completePublishOrder sn partnerSn now = transaction (complete_order_body sn partnerSn now)"

definition fail_order_body :: "string \<Rightarrow> instant \<Rightarrow> publish_order_row body" where
  "fail_order_body sn now d =
     (case findPublishOrderBySn d sn of
        None \<Rightarrow> fail ''order_not_found'' 404
      | Some order \<Rightarrow>
          bind_result
            (read_order_back sn ()
               (if po_placement_status order = Pending then update_order sn (fail_order_row now) d else d))
            (\<lambda>(d1, q, _). Inr (d1, q)))"

definition failPublishOrder :: "string \<Rightarrow> instant \<Rightarrow> publish_order_row operation" where
  "failPublishOrder sn now = transaction (fail_order_body sn now)"

record order_snapshot =
  os_sn :: string
  os_status :: rat
  os_url :: "string option"
  os_publishedAt :: "string option"

definition order_note :: "string \<Rightarrow> utext" where
  "order_note sn = ascii ''publish_order '' @ ascii sn"

definition order_refund_note :: "string \<Rightarrow> utext" where
  "order_refund_note sn = ascii ''publish_order '' @ ascii sn @ ascii '' refund''"

text \<open>The ledger part of a status: it settles, refunds or does nothing, and gives the new status.\<close>

definition order_ledger_step ::
  "publish_order_row \<Rightarrow> rat \<Rightarrow> instant \<Rightarrow> string \<Rightarrow> order_ledger_status body" where
  "order_ledger_step order status now uuid d =
     (if po_placement_status order = Placed
      then (case po_ledger_status order of
              OFrozen \<Rightarrow>
                if status \<in> set SETTLE_STATUSES
                then bind_result
                       (settleFrozenPoints (po_account_id order) (po_points order)
                          (order_note (po_sn order)) now uuid d)
                       (\<lambda>(d1, _). Inr (d1, OSettled))
                else if status \<in> set REFUND_STATUSES then Inr (d, ORefunded)
                else Inr (d, OFrozen)
            | OSettled \<Rightarrow>
                if status \<in> set REFUND_STATUSES
                then bind_result
                       (refundSettledPoints (po_account_id order) (po_points order)
                          (order_refund_note (po_sn order)) now uuid d)
                       (\<lambda>(d1, _). Inr (d1, ORefunded))
                else Inr (d, OSettled)
            | ORefunded \<Rightarrow> Inr (d, ORefunded))
      else Inr (d, po_ledger_status order))"

definition closed_observed :: "publish_order_row \<Rightarrow> rat \<Rightarrow> instant \<Rightarrow> instant option" where
  "closed_observed order status now =
     (if status = 9
      then Some (case po_closed_observed_at order of None \<Rightarrow> now | Some t \<Rightarrow> t)
      else po_closed_observed_at order)"

definition apply_status_body ::
  "order_snapshot \<Rightarrow> instant \<Rightarrow> string \<Rightarrow> publish_order_row option body" where
  "apply_status_body input now uuid d =
     (case findPublishOrderBySn d (os_sn input) of
        None \<Rightarrow> Inr (d, None)
      | Some order \<Rightarrow>
          bind_result (order_ledger_step order (os_status input) now uuid d) (\<lambda>(d1, ledger).
            bind_result
              (read_order_back (os_sn input) ()
                 (update_order (os_sn input)
                    (status_order_row ledger (os_status input) (os_url input) (os_publishedAt input)
                       (closed_observed order (os_status input) now) now) d1))
              (\<lambda>(d2, q, _). Inr (d2, Some q))))"

definition applyPublishOrderStatus ::
  "order_snapshot \<Rightarrow> instant \<Rightarrow> string \<Rightarrow> publish_order_row option operation" where
  "applyPublishOrderStatus input now uuid = transaction (apply_status_body input now uuid)"

section \<open>The resource price cache and usage records\<close>

definition cache_key :: "resource_cache_row \<Rightarrow> publish_order_kind \<times> int" where
  "cache_key r = (rc_kind r, rc_resource_id r)"

definition readDistributionResourceCache ::
  "db \<Rightarrow> publish_order_kind \<Rightarrow> int \<Rightarrow> resource_cache_row option" where
  "readDistributionResourceCache d kind resourceId =
     find_row cache_key (kind, resourceId) (distribution_resource_cache d)"

definition overwrite_cache_row :: "resource_cache_row \<Rightarrow> resource_cache_row \<Rightarrow> resource_cache_row" where
  "overwrite_cache_row excluded r =
     r\<lparr>rc_name := rc_name excluded, rc_price_cents := rc_price_cents excluded,
       rc_status := rc_status excluded, rc_fetched_at := rc_fetched_at excluded\<rparr>"

definition upsertDistributionResourceCache :: "resource_cache_row \<Rightarrow> db \<Rightarrow> db" where
  "upsertDistributionResourceCache row d =
     d\<lparr>distribution_resource_cache :=
        (if cache_key row \<in> cache_key ` set (distribution_resource_cache d)
         then update_rows (\<lambda>r. cache_key r = cache_key row) (overwrite_cache_row row)
                (distribution_resource_cache d)
         else distribution_resource_cache d @ [row])\<rparr>"

definition invalidateDistributionResourceCache ::
  "publish_order_kind \<Rightarrow> int \<Rightarrow> db \<Rightarrow> db \<times> bool" where
  "invalidateDistributionResourceCache kind resourceId d =
     (d\<lparr>distribution_resource_cache :=
          filter (\<lambda>r. cache_key r \<noteq> (kind, resourceId)) (distribution_resource_cache d)\<rparr>,
      (kind, resourceId) \<in> cache_key ` set (distribution_resource_cache d))"

definition recordProviderUsage ::
  "string \<Rightarrow> string \<Rightarrow> string \<Rightarrow> int option \<Rightarrow> int option \<Rightarrow> instant \<Rightarrow> string \<Rightarrow> db \<Rightarrow> db result" where
  "recordProviderUsage accountId provider route inputTokens outputTokens now uuid d =
     (if findAccountById d accountId = None then Inl (SqlError ForeignKeyConstraint)
      else bind_result
        (insert_row pu_id
           \<lparr>pu_id = uuid, pu_account_id = accountId, pu_provider = provider, pu_route = route,
            pu_input_tokens = case_option 0 id inputTokens,
            pu_output_tokens = case_option 0 id outputTokens, pu_created_at = now\<rparr>
           (provider_usage_records d))
        (\<lambda>rows. Inr (d\<lparr>provider_usage_records := rows\<rparr>)))"

definition listProviderUsageRecords :: "db \<Rightarrow> string \<Rightarrow> nat \<Rightarrow> provider_usage_record_row list" where
  "listProviderUsageRecords d accountId limit =
     take limit
       (sort_key (\<lambda>r. - pu_created_at r)
          (rev (sort_key pu_id (filter (\<lambda>r. pu_account_id r = accountId) (provider_usage_records d)))))"

section \<open>The order invariant\<close>

text \<open>
  A pending order holds its freeze, a failed one has released it; the points are the server's price
  of the stored media fee; and no execution has committed more than any of its orders allows.
\<close>

definition order_ok :: "publish_order_row \<Rightarrow> bool" where
  "order_ok q \<longleftrightarrow>
     0 \<le> po_points q \<and> publishOrderPoints (po_media_price_cents q) = po_points q \<and>
     (committed q \<longrightarrow> po_points q \<le> po_per_article_max_points q) \<and>
     (case po_placement_status q of
        Pending \<Rightarrow> po_ledger_status q = OFrozen
      | Failed \<Rightarrow> po_ledger_status q = ORefunded
      | Placed \<Rightarrow> True)"

definition exec_committed :: "publish_order_row list \<Rightarrow> string \<Rightarrow> string \<Rightarrow> int" where
  "exec_committed rows i e =
     sum_where (\<lambda>q. po_account_id q = i \<and> po_execution_id q = e \<and> committed q) po_points rows"

definition orders_ok :: "db \<Rightarrow> bool" where
  "orders_ok d \<longleftrightarrow>
     distinct (map po_sn (publish_orders d)) \<and>
     po_account_id ` set (publish_orders d) \<subseteq> ac_id ` set (accounts d) \<and>
     (\<forall>q \<in> set (publish_orders d). order_ok q \<and>
        exec_committed (publish_orders d) (po_account_id q) (po_execution_id q)
          \<le> po_execution_max_points q)"

definition frozen_pts :: "publish_order_row \<Rightarrow> int" where
  "frozen_pts q = (if po_ledger_status q = OFrozen then po_points q else 0)"

definition spent_pts :: "publish_order_row \<Rightarrow> int" where
  "spent_pts q = (if po_ledger_status q = OSettled then po_points q else 0)"

lemma committed_pts: "(if committed q then po_points q else 0) = frozen_pts q + spent_pts q"
  by (simp add: committed_def frozen_pts_def spent_pts_def)

text \<open>
  The contract of every order update: besides the number it leaves the owner, the execution and
  the caps of the order alone. What it does to the aggregates follows from the row alone.
\<close>

locale order_update = key_update po_sn u for u :: "publish_order_row \<Rightarrow> publish_order_row" +
  assumes owner_stable: "po_account_id (u q) = po_account_id q"
    and exec_stable: "po_execution_id (u q) = po_execution_id q"
    and caps_stable: "po_execution_max_points (u q) = po_execution_max_points q"
begin

lemma order_frozen_update:
  assumes "distinct (map po_sn rows)" and "find_row po_sn sn rows = Some q"
  shows "order_frozen_of i (update_rows (\<lambda>x. po_sn x = sn) u rows) =
    order_frozen_of i rows + (if i = po_account_id q then frozen_pts (u q) - frozen_pts q else 0)"
  unfolding order_frozen_of_def sum_where_update_one [OF assms]
  by (simp add: frozen_pts_def owner_stable)

lemma order_spent_update:
  assumes "distinct (map po_sn (publish_orders d))" and "findPublishOrderBySn d sn = Some q"
  shows "order_spent (update_order sn u d) i =
    order_spent d i + (if i = po_account_id q then spent_pts (u q) - spent_pts q else 0)"
  using sum_where_update_one [OF assms(1) assms(2) [unfolded findPublishOrderBySn_def]]
  by (simp add: order_spent_def update_order_def spent_pts_def owner_stable)

lemma exec_committed_update:
  assumes "distinct (map po_sn rows)" and "find_row po_sn sn rows = Some q"
  shows "exec_committed (update_rows (\<lambda>x. po_sn x = sn) u rows) i e =
    exec_committed rows i e + (if i = po_account_id q \<and> e = po_execution_id q
      then frozen_pts (u q) + spent_pts (u q) - (frozen_pts q + spent_pts q) else 0)"
  unfolding exec_committed_def sum_where_update_one [OF assms]
  by (simp add: owner_stable exec_stable committed_pts [symmetric])

lemma find_updated:
  "findPublishOrderBySn (update_order sn u d) sn' =
     (if sn' = sn then map_option u (findPublishOrderBySn d sn) else findPublishOrderBySn d sn')"
  by (simp add: findPublishOrderBySn_def update_order_def find_row_update)

lemma orders_ok_update:
  assumes ok: "orders_ok d" and q: "findPublishOrderBySn d sn = Some q" and new: "order_ok (u q)"
    and cap: "\<And>r. r \<in> set (publish_orders d) \<Longrightarrow> po_account_id r = po_account_id q \<Longrightarrow>
      po_execution_id r = po_execution_id q \<Longrightarrow>
      exec_committed (publish_orders d) (po_account_id q) (po_execution_id q) +
        frozen_pts (u q) + spent_pts (u q) - (frozen_pts q + spent_pts q) \<le> po_execution_max_points r"
  shows "orders_ok (update_order sn u d)"
proof -
  let ?rows = "update_rows (\<lambda>x. po_sn x = sn) u (publish_orders d)"
  have dist: "distinct (map po_sn (publish_orders d))" using ok by (simp add: orders_ok_def)
  have qs: "q \<in> set (publish_orders d)" "po_sn q = sn"
    using q find_row_SomeD unfolding findPublishOrderBySn_def by fast+
  have uniq: "r = q" if "r \<in> set (publish_orders d)" "po_sn r = sn" for r
    using that qs dist by (metis distinct_map inj_onD)
  have cap_r: "exec_committed ?rows (po_account_id r) (po_execution_id r) \<le> po_execution_max_points r"
    if "r \<in> set (publish_orders d)" for r
    using that ok cap [OF that] exec_committed_update [OF dist q [unfolded findPublishOrderBySn_def]]
    by (auto simp: orders_ok_def)
  have rows: "order_ok r' \<and>
      exec_committed ?rows (po_account_id r') (po_execution_id r') \<le> po_execution_max_points r'"
    if "r' \<in> set ?rows" for r'
  proof -
    from that obtain r where r: "r \<in> set (publish_orders d)" and r': "r' = (if po_sn r = sn then u r else r)"
      by (auto simp: set_update_rows)
    then show ?thesis
      using ok new uniq [of r] cap_r [OF r]
      by (auto simp: orders_ok_def owner_stable exec_stable caps_stable)
  qed
  have "map po_account_id ?rows = map po_account_id (publish_orders d)"
    by (simp add: update_rows_def owner_stable)
  then have "po_account_id ` set ?rows = po_account_id ` set (publish_orders d)"
    by (metis list.set_map)
  with ok rows show ?thesis by (simp add: orders_ok_def update_order_def)
qed

end

interpretation retry_upd: order_update "retry_order_row cents points now" for cents points now
  by unfold_locales (simp_all add: retry_order_row_def)

interpretation complete_upd: order_update "complete_order_row partnerSn now" for partnerSn now
  by unfold_locales (simp_all add: complete_order_row_def)

interpretation fail_upd: order_update "fail_order_row now" for now
  by unfold_locales (simp_all add: fail_order_row_def)

interpretation status_upd: order_update "status_order_row ledger status url publishedAt closedAt now"
  for ledger status url publishedAt closedAt now
  by unfold_locales (simp_all add: status_order_row_def)

lemma pts_simps [simp]:
  "frozen_pts (retry_order_row cents points now q) = points"
  "spent_pts (retry_order_row cents points now q) = 0"
  "frozen_pts (complete_order_row ps now q) = frozen_pts q"
  "spent_pts (complete_order_row ps now q) = spent_pts q"
  "frozen_pts (fail_order_row now q) = 0"
  "spent_pts (fail_order_row now q) = 0"
  "frozen_pts (status_order_row l s url p c now q) = (if l = OFrozen then po_points q else 0)"
  "spent_pts (status_order_row l s url p c now q) = (if l = OSettled then po_points q else 0)"
  by (simp_all add: frozen_pts_def spent_pts_def retry_order_row_def complete_order_row_def
      fail_order_row_def status_order_row_def)

lemma update_order_frame [simp]:
  "accounts (update_order sn u d) = accounts d"
  "ledger_entries (update_order sn u d) = ledger_entries d"
  "billing_permits (update_order sn u d) = billing_permits d"
  "permit_unit_reports (update_order sn u d) = permit_unit_reports d"
  "findAccountById (update_order sn u d) i = findAccountById d i"
  "ledger_ok (update_order sn u d) = ledger_ok d"
  "spend_sum (update_order sn u d) i = spend_sum d i"
  "permit_spent (update_order sn u d) i = permit_spent d i"
  by (simp_all add: update_order_def)

lemma permits_ok_cong:
  assumes "billing_permits d' = billing_permits d" "permit_unit_reports d' = permit_unit_reports d"
    "ac_id ` set (accounts d') = ac_id ` set (accounts d)"
  shows "permits_ok d' = permits_ok d"
  using assms by (simp add: permits_ok_def)

lemma find_order_SomeD:
  "findPublishOrderBySn d sn = Some q \<Longrightarrow> q \<in> set (publish_orders d) \<and> po_sn q = sn"
  unfolding findPublishOrderBySn_def by (rule find_row_SomeD)

lemma orders_ok_order:
  "orders_ok d \<Longrightarrow> findPublishOrderBySn d sn = Some q \<Longrightarrow> order_ok q"
  using find_order_SomeD by (auto simp: orders_ok_def)

lemma ac_id_image_posted [simp]: "ac_id ` set (accounts (posted a delta k n now u d)) = ac_id ` set (accounts d)"
  using map_ac_id_posted [of a delta k n now u d] by (metis list.set_map)

lemma findPublishOrderBySn_posted [simp]:
  "findPublishOrderBySn (posted a delta k n now u d) sn = findPublishOrderBySn d sn"
  by (simp add: findPublishOrderBySn_def)

lemma orders_ok_posted [simp]: "orders_ok (posted a delta k n now u d) = orders_ok d"
  by (simp add: orders_ok_def)

section \<open>Preservation\<close>

context order_update
begin

text \<open>An update that posts nothing and does not raise the freeze.\<close>

lemma billing_inv_update:
  assumes inv: "billing_inv d" and ok: "orders_ok d" and q: "findPublishOrderBySn d sn = Some q"
    and cover: "\<And>account. findAccountById d (po_account_id q) = Some account \<Longrightarrow>
      frozenPointsFor d (po_account_id q) + frozen_pts (u q) - frozen_pts q \<le> ac_balance account"
    and spent: "spent_pts (u q) = spent_pts q"
  shows "billing_inv (update_order sn u d)"
proof -
  have dist: "distinct (map po_sn (publish_orders d))" using ok by (simp add: orders_ok_def)
  have frozen: "frozenPointsFor (update_order sn u d) i =
      frozenPointsFor d i + (if i = po_account_id q then frozen_pts (u q) - frozen_pts q else 0)" for i
    using order_frozen_update [OF dist q [unfolded findPublishOrderBySn_def], of i]
    by (simp add: frozenPointsFor_def update_order_def)
  have "solvent (update_order sn u d) i" for i
    using inv cover by (auto simp: solvent_def frozen billing_inv_def)
  then show ?thesis
    using inv order_spent_update [OF dist q] spent
    by (simp add: billing_inv_def books_balanced_def permits_ok_cong [of "update_order sn u d" d])
qed

text \<open>An update that posts exactly what it moves between the frozen and the spent points.\<close>

lemma billing_inv_post_update:
  assumes inv: "billing_inv d" and ok: "orders_ok d" and q: "findPublishOrderBySn d sn = Some q"
    and acc: "findAccountById d (po_account_id q) = Some account"
    and fresh: "uuid \<notin> le_id ` set (ledger_entries d)" and kind: "is_spend k"
    and frozen: "frozen_pts (u q) - frozen_pts q \<le> delta"
    and spent: "spent_pts (u q) + delta = spent_pts q"
  shows "billing_inv (update_order sn u (posted account delta k n now uuid d))"
proof -
  let ?p = "posted account delta k n now uuid d"
  let ?d = "update_order sn u ?p"
  have a: "ac_id account = po_account_id q" using acc by (simp add: findAccountById_ac_id)
  have dist: "distinct (map po_sn (publish_orders d))" using ok by (simp add: orders_ok_def)
  have fr: "frozenPointsFor ?d i =
      frozenPointsFor d i + (if i = po_account_id q then frozen_pts (u q) - frozen_pts q else 0)" for i
    using order_frozen_update [OF dist q [unfolded findPublishOrderBySn_def], of i]
    by (simp add: frozenPointsFor_def update_order_def)
  have "ledger_ok ?d" using inv acc fresh by (simp add: billing_inv_def ledger_ok_posted)
  moreover have "permits_ok ?d"
    using inv permits_ok_cong [of ?d d] by (simp add: billing_inv_def)
  moreover have "solvent ?d j" for j
    by (rule solvent_posted_charge [OF _ acc, where delta = delta and k = k and n = n and now = now and u = uuid])
      (use inv frozen in \<open>simp_all add: billing_inv_def fr\<close>)
  moreover have "books_balanced ?d i" for i
  proof -
    have "spend_sum d i + permit_spent d i + order_spent d i = 0"
      using inv by (simp add: billing_inv_def books_balanced_def)
    then show ?thesis
      using order_spent_update [of ?p sn q i] dist q kind spent
      by (auto simp: books_balanced_def spend_sum_posted a)
  qed
  ultimately show ?thesis by (simp add: billing_inv_def)
qed

end

lemma fold_min_le: "fold min xs (x :: int) \<le> x \<and> (\<forall>y \<in> set xs. fold min xs x \<le> y)"
proof (induction xs arbitrary: x)
  case (Cons z xs)
  from Cons [of "min z x"] show ?case by auto
qed simp

lemma min_max_eq:
  assumes "min_where P f rows = Some m" "max_where P f rows = Some m" "r \<in> set rows" "P r"
  shows "f r = m"
proof -
  obtain x xs where xs: "map f (filter P rows) = x # xs"
    using assms(1) by (auto simp: min_where_def split: list.splits)
  have "f r \<in> set (x # xs)" using assms(3,4) xs [symmetric] by auto
  then have "fold min xs x \<le> f r" "f r \<le> fold max xs x"
    using fold_min_le [of xs x] fold_max_ge [of x xs] by auto
  moreover have "fold min xs x = m" "fold max xs x = m"
    using assms(1,2) by (simp_all add: min_where_def max_where_def xs)
  ultimately show ?thesis by simp
qed

text \<open>What the admission check guarantees about the caps and the balance.\<close>

lemma order_admission_Inr:
  assumes "order_admission d a input points = Inr ()"
  obtains account where "findAccountById d a = Some account"
    "frozenPointsFor d a + points \<le> ac_balance account"
    "points \<le> oi_perArticleMaxPoints input"
    "\<And>r. r \<in> set (publish_orders d) \<Longrightarrow> po_account_id r = a \<Longrightarrow>
       po_execution_id r = oi_executionId input \<Longrightarrow> po_sn r \<noteq> oi_sn input \<Longrightarrow>
       po_execution_max_points r = oi_executionMaxPoints input"
    "sum_where (\<lambda>q. (po_account_id q = a \<and> po_execution_id q = oi_executionId input \<and>
         po_sn q \<noteq> oi_sn input) \<and> committed q) po_points (publish_orders d) + points
       \<le> oi_executionMaxPoints input"
proof -
  let ?peer = "\<lambda>q. po_account_id q = a \<and> po_execution_id q = oi_executionId input \<and> po_sn q \<noteq> oi_sn input"
  from assms have lim: "assertWithinSpendLimits d a input points = Inr ()"
    by (auto simp: order_admission_def bind_result_Inr_iff)
  from assms obtain account where acc: "findAccountById d a = Some account"
    and cover: "frozenPointsFor d a + points \<le> ac_balance account"
    by (auto simp: order_admission_def bind_result_Inr_iff loadAccount_def Let_def
        split: option.split_asm if_split_asm)
  from lim have art: "points \<le> oi_perArticleMaxPoints input"
    and sum: "sum_where (\<lambda>q. ?peer q \<and> committed q) po_points (publish_orders d) + points
      \<le> oi_executionMaxPoints input"
    and same: "count_where ?peer (publish_orders d) > 0 \<Longrightarrow>
      min_where ?peer po_execution_max_points (publish_orders d) = Some (oi_executionMaxPoints input) \<and>
      max_where ?peer po_execution_max_points (publish_orders d) = Some (oi_executionMaxPoints input)"
    by (simp_all add: assertWithinSpendLimits_def Let_def split: if_split_asm)
  have caps: "po_execution_max_points r = oi_executionMaxPoints input"
    if "r \<in> set (publish_orders d)" "?peer r" for r
  proof -
    have "count_where ?peer (publish_orders d) \<noteq> 0" using that by (auto simp: count_where_zero_iff)
    then have "count_where ?peer (publish_orders d) > 0"
      using count_where_nonneg [of ?peer "publish_orders d"] by linarith
    with same that show ?thesis by (blast intro: min_max_eq)
  qed
  show thesis
    by (rule that [OF acc cover art]) (use caps sum in auto)
qed

lemma exec_committed_split:
  assumes "distinct (map po_sn rows)" and "find_row po_sn sn rows = Some q"
    and "po_account_id q = a" and "po_execution_id q = e"
  shows "exec_committed rows a e =
    sum_where (\<lambda>r. (po_account_id r = a \<and> po_execution_id r = e \<and> po_sn r \<noteq> sn) \<and> committed r) po_points rows +
    (frozen_pts q + spent_pts q)"
  using assms(1,2)
proof (induction rows)
  case (Cons r rows)
  show ?case
  proof (cases "po_sn r = sn")
    case True
    with Cons.prems have r: "r = q" and none: "sn \<notin> po_sn ` set rows" by auto
    have "exec_committed rows a e =
        sum_where (\<lambda>r. (po_account_id r = a \<and> po_execution_id r = e \<and> po_sn r \<noteq> sn) \<and> committed r) po_points rows"
      unfolding exec_committed_def by (rule sum_where_cong) (use none in auto)
    with True r assms(3,4) show ?thesis
      by (simp add: exec_committed_def committed_pts [symmetric])
  next
    case False
    with Cons show ?thesis by (auto simp: exec_committed_def)
  qed
qed simp

lemma read_order_back_Inr:
  "read_order_back sn x d = Inr (d', q, y) \<longleftrightarrow> d' = d \<and> y = x \<and> findPublishOrderBySn d sn = Some q"
  by (auto simp: read_order_back_def split: option.splits)

text \<open>A successful begin: a replay without effect, a retried or a new frozen order.\<close>

lemma begin_order_body_Inr:
  assumes "begin_order_body a input now d = Inr (d', q, phase)"
  obtains
    (replay) "findPublishOrderBySn d (oi_sn input) = Some q" "po_account_id q = a" "d' = d"
      "same_order_params q input"
      "phase = ReplayPlaced \<and> po_placement_status q = Placed \<or>
       phase = ReplayPending \<and> po_placement_status q = Pending"
  | (retry) old where "findPublishOrderBySn d (oi_sn input) = Some old" "po_account_id old = a"
      "same_order_params old input" "po_placement_status old = Failed" "phase = RetryPhase"
      "order_admission d a input (publishOrderPoints (oi_mediaPriceCents input)) = Inr ()"
      "d' = update_order (oi_sn input)
        (retry_order_row (oi_mediaPriceCents input) (publishOrderPoints (oi_mediaPriceCents input)) now) d"
      "q = retry_order_row (oi_mediaPriceCents input) (publishOrderPoints (oi_mediaPriceCents input)) now old"
  | (created) "findPublishOrderBySn d (oi_sn input) = None" "phase = CreatedPhase"
      "order_admission d a input (publishOrderPoints (oi_mediaPriceCents input)) = Inr ()"
      "q = new_order a input (publishOrderPoints (oi_mediaPriceCents input)) now"
      "d' = d\<lparr>publish_orders := publish_orders d @ [q]\<rparr>"
proof (cases "findPublishOrderBySn d (oi_sn input)")
  case None
  with assms obtain d1 where adm: "order_admission d a input (publishOrderPoints (oi_mediaPriceCents input)) = Inr ()"
    and ins: "insert_order (new_order a input (publishOrderPoints (oi_mediaPriceCents input)) now) d = Inr d1"
    and rb: "read_order_back (oi_sn input) CreatedPhase d1 = Inr (d', q, phase)"
    by (auto simp: begin_order_body_def Let_def bind_result_Inr_iff)
  from ins have d1: "d1 = d\<lparr>publish_orders := publish_orders d @
      [new_order a input (publishOrderPoints (oi_mediaPriceCents input)) now]\<rparr>"
    by (auto simp: insert_order_def bind_result_Inr_iff insert_row_Inr_iff split: if_split_asm)
  have "q = new_order a input (publishOrderPoints (oi_mediaPriceCents input)) now"
    using rb None
    by (simp add: read_order_back_Inr d1 findPublishOrderBySn_def find_row_append new_order_def)
  with None adm rb d1 show thesis by (intro that(3)) (simp_all add: read_order_back_Inr)
next
  case (Some old)
  with assms have own: "po_account_id old = a" "same_order_params old input"
    by (auto simp: begin_order_body_def Let_def split: if_split_asm)
  show thesis
  proof (cases "po_placement_status old = Failed")
    case True
    with assms Some own show thesis
      by (intro that(2) [OF Some own True])
        (auto simp: begin_order_body_def Let_def bind_result_Inr_iff read_order_back_Inr retry_upd.find_updated)
  next
    case False
    with assms Some own show thesis
      by (intro that(1))
        (auto simp: begin_order_body_def Let_def split: placement_status.split_asm)
  qed
qed

definition backend_inv :: "db \<Rightarrow> bool" where
  "backend_inv d \<longleftrightarrow> billing_inv d \<and> orders_ok d"

lemma order_frozen_le:
  assumes "orders_ok d" and "permits_ok d" and "findPublishOrderBySn d sn = Some q"
  shows "frozen_pts q \<le> frozenPointsFor d (po_account_id q)" and "0 \<le> frozen_pts q" and "0 \<le> spent_pts q"
proof -
  have qs: "q \<in> set (publish_orders d)" using assms(3) by (simp add: find_order_SomeD)
  have nn: "\<forall>r \<in> set (publish_orders d). 0 \<le> po_points r"
    using assms(1) by (simp add: orders_ok_def order_ok_def)
  have perm: "0 \<le> permit_frozen_of (po_account_id q) (billing_permits d)"
    unfolding permit_frozen_of_def
    using assms(2) permit_ok_frozen_nonneg by (fastforce simp: permits_ok_def intro: sum_where_nonneg)
  have ord: "frozen_pts q \<le> order_frozen_of (po_account_id q) (publish_orders d)"
  proof (cases "po_ledger_status q = OFrozen")
    case True
    then show ?thesis
      using qs nn unfolding order_frozen_of_def frozen_pts_def
      by (simp add: sum_where_member_le [of q])
  next
    case False
    then show ?thesis
      using nn by (auto simp: frozen_pts_def order_frozen_of_def intro: sum_where_nonneg)
  qed
  from perm ord show "frozen_pts q \<le> frozenPointsFor d (po_account_id q)" by (simp add: frozenPointsFor_def)
  show "0 \<le> frozen_pts q" "0 \<le> spent_pts q" using nn qs by (simp_all add: frozen_pts_def spent_pts_def)
qed

lemma backend_inv_D:
  assumes "backend_inv d"
  shows "billing_inv d" "orders_ok d" "permits_ok d" "ledger_ok d" "solvent d i"
  using assms by (simp_all add: backend_inv_def billing_inv_def)

lemma orders_ok_cap:
  assumes "orders_ok d" and "r \<in> set (publish_orders d)"
  shows "exec_committed (publish_orders d) (po_account_id r) (po_execution_id r) \<le> po_execution_max_points r"
  using assms by (simp add: orders_ok_def)

lemma solvent_cover:
  "backend_inv d \<Longrightarrow> findAccountById d i = Some account \<Longrightarrow> frozenPointsFor d i \<le> ac_balance account"
  using backend_inv_D(5) [of d i] by (simp add: solvent_def)

text \<open>The updates that do not raise what is committed keep everything.\<close>

context order_update
begin

lemma backend_inv_release:
  assumes inv: "backend_inv d" and q: "findPublishOrderBySn d sn = Some q" and new: "order_ok (u q)"
    and frozen: "frozen_pts (u q) \<le> frozen_pts q" and spent: "spent_pts (u q) = spent_pts q"
  shows "backend_inv (update_order sn u d)"
proof -
  note D = backend_inv_D [OF inv]
  have "billing_inv (update_order sn u d)"
    by (rule billing_inv_update [OF D(1,2) q]) (use frozen spent solvent_cover [OF inv] in fastforce)+
  moreover have "orders_ok (update_order sn u d)"
    by (rule orders_ok_update [OF D(2) q new])
      (use frozen spent orders_ok_cap [OF D(2)] in fastforce)
  ultimately show ?thesis by (simp add: backend_inv_def)
qed

lemma backend_inv_post:
  assumes inv: "backend_inv d" and q: "findPublishOrderBySn d sn = Some q" and new: "order_ok (u q)"
    and acc: "findAccountById d (po_account_id q) = Some account"
    and fresh: "uuid \<notin> le_id ` set (ledger_entries d)" and kind: "is_spend k"
    and frozen: "frozen_pts (u q) - frozen_pts q \<le> delta"
    and spent: "spent_pts (u q) + delta = spent_pts q"
  shows "backend_inv (update_order sn u (posted account delta k n now uuid d))"
proof -
  note D = backend_inv_D [OF inv]
  have "orders_ok (update_order sn u (posted account delta k n now uuid d))"
    by (rule orders_ok_update)
      (use D(2) q new frozen spent orders_ok_cap [OF D(2)] in fastforce)+
  then show ?thesis
    using billing_inv_post_update [OF D(1,2) q acc fresh kind frozen spent, of n now]
    by (simp add: backend_inv_def)
qed

end

lemma backend_inv_complete:
  assumes inv: "backend_inv d" and run: "complete_order_body sn partnerSn now d = Inr (d', q')"
  shows "backend_inv d'"
proof -
  from run obtain q where q: "findPublishOrderBySn d sn = Some q"
    and d': "d' = update_order sn (complete_order_row partnerSn now) d"
    by (auto simp: complete_order_body_def bind_result_Inr_iff read_order_back_Inr complete_upd.find_updated)
  have "order_ok (complete_order_row partnerSn now q)"
    using orders_ok_order [OF backend_inv_D(2) [OF inv] q]
    by (simp add: order_ok_def complete_order_row_def committed_def)
  then show ?thesis
    unfolding d' using inv q by (intro complete_upd.backend_inv_release) simp_all
qed

lemma backend_inv_fail:
  assumes inv: "backend_inv d" and run: "fail_order_body sn now d = Inr (d', q')"
  shows "backend_inv d'"
proof -
  note D = backend_inv_D [OF inv]
  from run obtain q where q: "findPublishOrderBySn d sn = Some q"
    and d': "d' = (if po_placement_status q = Pending then update_order sn (fail_order_row now) d else d)"
    by (auto simp: fail_order_body_def bind_result_Inr_iff read_order_back_Inr split: option.split_asm)
  have ok: "order_ok q" using D(2) q by (rule orders_ok_order)
  show ?thesis
  proof (cases "po_placement_status q = Pending")
    case True
    with ok have "po_ledger_status q = OFrozen" by (simp add: order_ok_def)
    then have spent: "spent_pts q = 0" by (simp add: spent_pts_def)
    have "order_ok (fail_order_row now q)"
      using ok by (simp add: order_ok_def fail_order_row_def committed_def)
    then have "backend_inv (update_order sn (fail_order_row now) d)"
      using inv q order_frozen_le(2) [OF D(2,3) q] spent
      by (intro fail_upd.backend_inv_release) simp_all
    with True d' show ?thesis by simp
  qed (use inv d' in simp)
qed

lemma backend_inv_new_order:
  assumes inv: "backend_inv d" and price: "0 \<le> oi_mediaPriceCents input"
    and none: "findPublishOrderBySn d (oi_sn input) = None"
    and adm: "order_admission d a input (publishOrderPoints (oi_mediaPriceCents input)) = Inr ()"
    and q: "q = new_order a input (publishOrderPoints (oi_mediaPriceCents input)) now"
  shows "backend_inv (d\<lparr>publish_orders := publish_orders d @ [q]\<rparr>)"
proof -
  let ?d = "d\<lparr>publish_orders := publish_orders d @ [q]\<rparr>"
  note D = backend_inv_D [OF inv]
  have new: "po_points q = publishOrderPoints (oi_mediaPriceCents input)" "po_account_id q = a"
    "po_sn q = oi_sn input" "po_ledger_status q = OFrozen" "po_execution_id q = oi_executionId input"
    "po_execution_max_points q = oi_executionMaxPoints input"
    by (simp_all add: q new_order_def)
  from adm obtain account where adm':
    "findAccountById d a = Some account" "frozenPointsFor d a + po_points q \<le> ac_balance account"
    "po_points q \<le> oi_perArticleMaxPoints input"
    "\<And>r. r \<in> set (publish_orders d) \<Longrightarrow> po_account_id r = a \<Longrightarrow>
       po_execution_id r = oi_executionId input \<Longrightarrow> po_sn r \<noteq> oi_sn input \<Longrightarrow>
       po_execution_max_points r = oi_executionMaxPoints input"
    "sum_where (\<lambda>r. (po_account_id r = a \<and> po_execution_id r = oi_executionId input \<and>
         po_sn r \<noteq> oi_sn input) \<and> committed r) po_points (publish_orders d) + po_points q
       \<le> oi_executionMaxPoints input"
    unfolding new(1) by (rule order_admission_Inr) blast
  have fresh: "oi_sn input \<notin> po_sn ` set (publish_orders d)"
    using none by (simp add: findPublishOrderBySn_def find_row_None_iff)
  have "sum_where (\<lambda>r. (po_account_id r = a \<and> po_execution_id r = oi_executionId input \<and>
      po_sn r \<noteq> oi_sn input) \<and> committed r) po_points (publish_orders d) =
      exec_committed (publish_orders d) a (oi_executionId input)"
    unfolding exec_committed_def by (rule sum_where_cong) (use fresh in \<open>auto simp: image_iff\<close>)
  with adm'(5) have total: "exec_committed (publish_orders d) a (oi_executionId input) + po_points q
      \<le> oi_executionMaxPoints input" by simp
  have snoc: "exec_committed (publish_orders d @ [q]) i e = exec_committed (publish_orders d) i e +
      (if i = a \<and> e = oi_executionId input then po_points q else 0)" for i e
    using new by (auto simp: exec_committed_def sum_where_append committed_def)
  have ok: "order_ok q"
    using publishOrderPoints_nonneg [OF price] adm'(3) by (simp add: order_ok_def q new_order_def)
  have "r \<in> set (publish_orders d) \<Longrightarrow>
      exec_committed (publish_orders d @ [q]) (po_account_id r) (po_execution_id r) \<le> po_execution_max_points r" for r
    using total adm'(4) [of r] fresh orders_ok_cap [OF D(2), of r] by (force simp: snoc)
  moreover have "exec_committed (publish_orders d @ [q]) (po_account_id q) (po_execution_id q) \<le> po_execution_max_points q"
    using total by (simp add: snoc new)
  moreover have "a \<in> ac_id ` set (accounts d)"
    using adm'(1) findAccountById_ac_id findAccountById_member by blast
  ultimately have "orders_ok ?d"
    using D(2) fresh ok new by (auto simp: orders_ok_def)
  moreover have "billing_inv ?d"
  proof -
    have "frozenPointsFor ?d i = frozenPointsFor d i + (if i = a then po_points q else 0)" for i
      using new by (simp add: frozenPointsFor_def order_frozen_of_def sum_where_append)
    then have "solvent ?d i" for i
      using D(5) [of i] adm'(1,2) by (auto simp: solvent_def)
    moreover have "order_spent ?d i = order_spent d i" for i
      using new by (simp add: order_spent_def sum_where_append)
    ultimately show ?thesis
      using D(1) by (simp add: billing_inv_def books_balanced_def permits_ok_cong [of ?d d])
  qed
  ultimately show ?thesis by (simp add: backend_inv_def)
qed

lemma backend_inv_retry_order:
  assumes inv: "backend_inv d" and price: "0 \<le> oi_mediaPriceCents input"
    and old: "findPublishOrderBySn d (oi_sn input) = Some old" and own: "po_account_id old = a"
    and same: "same_order_params old input" and st: "po_placement_status old = Failed"
    and adm: "order_admission d a input (publishOrderPoints (oi_mediaPriceCents input)) = Inr ()"
  shows "backend_inv (update_order (oi_sn input)
    (retry_order_row (oi_mediaPriceCents input) (publishOrderPoints (oi_mediaPriceCents input)) now) d)"
proof -
  let ?pts = "publishOrderPoints (oi_mediaPriceCents input)"
  let ?u = "retry_order_row (oi_mediaPriceCents input) ?pts now"
  note D = backend_inv_D [OF inv]
  have dist: "distinct (map po_sn (publish_orders d))" using D(2) by (simp add: orders_ok_def)
  have refunded: "po_ledger_status old = ORefunded"
    using orders_ok_order [OF D(2) old] st by (simp add: order_ok_def)
  then have pts: "frozen_pts old = 0" "spent_pts old = 0" by (simp_all add: frozen_pts_def spent_pts_def)
  from adm obtain account where adm':
    "findAccountById d a = Some account" "frozenPointsFor d a + ?pts \<le> ac_balance account"
    "?pts \<le> oi_perArticleMaxPoints input"
    "\<And>r. r \<in> set (publish_orders d) \<Longrightarrow> po_account_id r = a \<Longrightarrow>
       po_execution_id r = oi_executionId input \<Longrightarrow> po_sn r \<noteq> oi_sn input \<Longrightarrow>
       po_execution_max_points r = oi_executionMaxPoints input"
    "sum_where (\<lambda>r. (po_account_id r = a \<and> po_execution_id r = oi_executionId input \<and>
         po_sn r \<noteq> oi_sn input) \<and> committed r) po_points (publish_orders d) + ?pts
       \<le> oi_executionMaxPoints input"
    by (rule order_admission_Inr) blast
  have ex: "po_execution_id old = oi_executionId input"
    and mx: "po_execution_max_points old = oi_executionMaxPoints input"
    and art: "po_per_article_max_points old = oi_perArticleMaxPoints input"
    using same by (simp_all add: same_order_params_def)
  have uniq: "r = old" if "r \<in> set (publish_orders d)" "po_sn r = oi_sn input" for r
    using that find_order_SomeD [OF old] dist by (metis distinct_map inj_onD)
  have cap: "po_execution_max_points r = oi_executionMaxPoints input"
    if "r \<in> set (publish_orders d)" "po_account_id r = a" "po_execution_id r = oi_executionId input" for r
    using adm'(4) [OF that] uniq [OF that(1)] mx by blast
  have ok: "order_ok (?u old)"
    using publishOrderPoints_nonneg [OF price] adm'(3) art by (simp add: order_ok_def retry_order_row_def)
  have "orders_ok (update_order (oi_sn input) ?u d)"
  proof (rule retry_upd.orders_ok_update [OF D(2) old ok])
    fix r
    assume r: "r \<in> set (publish_orders d)" "po_account_id r = po_account_id old"
      "po_execution_id r = po_execution_id old"
    show "exec_committed (publish_orders d) (po_account_id old) (po_execution_id old) + frozen_pts (?u old) +
        spent_pts (?u old) - (frozen_pts old + spent_pts old) \<le> po_execution_max_points r"
      using exec_committed_split [OF dist old [unfolded findPublishOrderBySn_def] own ex] adm'(5)
        cap [OF r(1)] r own ex by (simp add: pts)
  qed
  moreover have "billing_inv (update_order (oi_sn input) ?u d)"
    by (rule retry_upd.billing_inv_update [OF D(1,2) old]) (use adm'(1,2) own pts in simp_all)
  ultimately show ?thesis by (simp add: backend_inv_def)
qed

lemma backend_inv_begin:
  assumes inv: "backend_inv d" and price: "0 \<le> oi_mediaPriceCents input"
    and run: "begin_order_body a input now d = Inr (d', q, phase)"
  shows "backend_inv d'"
  using run
proof (cases rule: begin_order_body_Inr)
  case replay
  with inv show ?thesis by simp
next
  case (retry old)
  show ?thesis unfolding retry(7) by (rule backend_inv_retry_order [OF inv price retry(1-4,6)])
next
  case created
  show ?thesis unfolding created(5) by (rule backend_inv_new_order [OF inv price created(1,3,4)])
qed

lemma refundSettledPoints_Inr:
  assumes "refundSettledPoints a c note now uuid d = Inr (d', x)"
  obtains account where "findAccountById d a = Some account"
    "d' = posted account c Refund note now uuid d" "uuid \<notin> le_id ` set (ledger_entries d)"
proof -
  from assms obtain account where acc: "findAccountById d a = Some account"
    by (auto simp: refundSettledPoints_def split: option.splits)
  with assms obtain u where "applyBalanceChange account c Refund note now uuid d = Inr (d', u)"
    by (auto simp: refundSettledPoints_def bind_result_Inr_iff)
  from that [OF acc] applyBalanceChange_Inr [OF acc this] show thesis by simp
qed

text \<open>The three effects of a status on the ledger.\<close>

lemma order_ledger_step_Inr:
  assumes "order_ledger_step q status now uuid d = Inr (d1, ledger)"
  obtains
    (keep) "d1 = d" "ledger = po_ledger_status q"
  | (release) "d1 = d" "po_placement_status q = Placed" "po_ledger_status q = OFrozen"
      "ledger = ORefunded" "status \<in> set REFUND_STATUSES"
  | (settle) account where "po_placement_status q = Placed" "po_ledger_status q = OFrozen"
      "ledger = OSettled" "status \<in> set SETTLE_STATUSES"
      "findAccountById d (po_account_id q) = Some account" "uuid \<notin> le_id ` set (ledger_entries d)"
      "d1 = posted account (- po_points q) Consume (order_note (po_sn q)) now uuid d"
  | (refund) account where "po_placement_status q = Placed" "po_ledger_status q = OSettled"
      "ledger = ORefunded" "status \<in> set REFUND_STATUSES"
      "findAccountById d (po_account_id q) = Some account" "uuid \<notin> le_id ` set (ledger_entries d)"
      "d1 = posted account (po_points q) Refund (order_refund_note (po_sn q)) now uuid d"
proof (cases "po_placement_status q = Placed \<and>
    (po_ledger_status q = OFrozen \<and> status \<in> set SETTLE_STATUSES \<or>
     po_ledger_status q = OSettled \<and> status \<in> set REFUND_STATUSES)")
  case True
  show thesis
  proof (cases "po_ledger_status q = OFrozen")
    case frozen: True
    with True assms obtain x where
      "settleFrozenPoints (po_account_id q) (po_points q) (order_note (po_sn q)) now uuid d = Inr (d1, x)"
      "ledger = OSettled"
      by (auto simp: order_ledger_step_def bind_result_Inr_iff)
    then show thesis
      by (elim settleFrozenPoints_Inr) (use that(3) True frozen in auto)
  next
    case settled: False
    with True assms obtain x where
      "refundSettledPoints (po_account_id q) (po_points q) (order_refund_note (po_sn q)) now uuid d = Inr (d1, x)"
      "ledger = ORefunded"
      by (auto simp: order_ledger_step_def bind_result_Inr_iff)
    then show thesis
      by (elim refundSettledPoints_Inr) (use that(4) True settled in auto)
  qed
next
  case False
  with assms that(1,2) show thesis
    by (cases "po_ledger_status q") (auto simp: order_ledger_step_def split: if_split_asm)
qed

lemma apply_status_body_Inr:
  assumes "apply_status_body input now uuid d = Inr (d', r)"
  obtains
    (unknown) "findPublishOrderBySn d (os_sn input) = None" "d' = d" "r = None"
  | (known) q d1 ledger where "findPublishOrderBySn d (os_sn input) = Some q"
      "order_ledger_step q (os_status input) now uuid d = Inr (d1, ledger)"
      "d' = update_order (os_sn input) (status_order_row ledger (os_status input) (os_url input)
              (os_publishedAt input) (closed_observed q (os_status input) now) now) d1"
      "findPublishOrderBySn d' (os_sn input) = r" "r \<noteq> None"
  using assms
  by (cases "findPublishOrderBySn d (os_sn input)")
    (auto simp: apply_status_body_def bind_result_Inr_iff read_order_back_Inr)

lemma order_ok_status:
  assumes "order_ok q"
    and "ledger = po_ledger_status q \<or> po_placement_status q = Placed \<and> (committed q \<or> ledger = ORefunded)"
  shows "order_ok (status_order_row ledger s url p c now q)"
  using assms
  by (cases "po_placement_status q") (auto simp: order_ok_def status_order_row_def committed_def)

lemma backend_inv_status:
  assumes inv: "backend_inv d" and run: "apply_status_body input now uuid d = Inr (d', r)"
  shows "backend_inv d'"
  using run
proof (cases rule: apply_status_body_Inr)
  case unknown
  with inv show ?thesis by simp
next
  case (known q d1 ledger)
  let ?u = "status_order_row ledger (os_status input) (os_url input) (os_publishedAt input)
    (closed_observed q (os_status input) now) now"
  note D = backend_inv_D [OF inv]
  have ok: "order_ok q" using D(2) known(1) by (rule orders_ok_order)
  note nonneg = order_frozen_le(2,3) [OF D(2,3) known(1)]
  from known(2) show ?thesis
  proof (cases rule: order_ledger_step_Inr)
    case keep
    show ?thesis
      unfolding known(3) keep(1)
      by (rule status_upd.backend_inv_release [OF inv known(1) order_ok_status [OF ok]])
        (simp_all add: keep(2) frozen_pts_def [of q] spent_pts_def [of q])
  next
    case release
    show ?thesis
      unfolding known(3) release(1)
      by (rule status_upd.backend_inv_release [OF inv known(1) order_ok_status [OF ok]])
        (use nonneg release in \<open>simp_all add: spent_pts_def [of q]\<close>)
  next
    case (settle account)
    show ?thesis
      unfolding known(3) settle(7)
      by (rule status_upd.backend_inv_post [OF inv known(1) order_ok_status [OF ok] settle(5,6)])
        (use settle in \<open>simp_all add: is_spend_def committed_def frozen_pts_def [of q] spent_pts_def [of q]\<close>)
  next
    case (refund account)
    have "0 \<le> po_points q" using ok by (simp add: order_ok_def)
    then show ?thesis
      unfolding known(3) refund(7)
      by (intro status_upd.backend_inv_post [OF inv known(1) order_ok_status [OF ok] refund(5,6)])
        (use refund in \<open>simp_all add: is_spend_def committed_def frozen_pts_def [of q] spent_pts_def [of q]\<close>)
  qed
qed

section \<open>An order in progress\<close>

definition demo_order_input :: place_order_input where
  "demo_order_input = \<lparr>oi_sn = ''sn-00001'', oi_executionId = ''exec-1'', oi_itemId = ''item-1'',
     oi_kind = Media, oi_resourceId = 7, oi_title = [65], oi_contentUrl = ''https://a/1'',
     oi_remark = None, oi_owner = None, oi_publishForm = None, oi_publishType = None,
     oi_accountRule = None, oi_mediaPriceCents = 880, oi_perArticleMaxPoints = 200,
     oi_executionMaxPoints = 300\<rparr>"

definition demo_order :: publish_order_row where
  "demo_order = new_order ''acc-1'' demo_order_input 141 10"

definition demo_pending :: db where
  "demo_pending = demo_db\<lparr>publish_orders := [demo_order]\<rparr>"

lemma demo_points: "publishOrderPoints 880 = 141"
  by (simp add: publishOrderPoints_def ceil_div_def)

lemma demo_no_orders: "publish_orders demo_db = []" "billing_permits demo_db = []"
  by (simp_all add: demo_db_def empty_db_def)

lemma demo_backend_inv: "backend_inv demo_db"
  by (simp add: backend_inv_def demo_billing_inv orders_ok_def demo_no_orders)

lemma demo_admission: "order_admission demo_db ''acc-1'' demo_order_input 141 = Inr ()"
  by (simp add: order_admission_def assertWithinSpendLimits_def loadAccount_def demo_find Let_def
      demo_no_orders frozenPointsFor_def permit_frozen_of_def order_frozen_of_def demo_order_input_def
      demo_account_def)

lemma demo_begin:
  "beginPublishOrder ''acc-1'' demo_order_input 10 demo_db = (demo_pending, Inr (demo_order, CreatedPhase))"
proof -
  have "findPublishOrderBySn demo_db (oi_sn demo_order_input) = None"
    by (simp add: findPublishOrderBySn_def demo_no_orders)
  moreover have "publishOrderPoints (oi_mediaPriceCents demo_order_input) = 141"
    by (simp add: demo_order_input_def demo_points)
  moreover have "insert_order demo_order demo_db = Inr demo_pending"
    by (simp add: insert_order_def demo_order_def new_order_def demo_find insert_row_def demo_no_orders
        demo_pending_def)
  moreover have "findPublishOrderBySn demo_pending (oi_sn demo_order_input) = Some demo_order"
    by (simp add: findPublishOrderBySn_def demo_pending_def demo_order_def new_order_def)
  ultimately show ?thesis
    by (simp add: beginPublishOrder_def transaction_def begin_order_body_def demo_admission
        read_order_back_def demo_order_def [symmetric])
qed

lemma demo_pending_inv: "backend_inv demo_pending"
  using demo_begin backend_inv_begin [OF demo_backend_inv, of demo_order_input "''acc-1''" 10]
  by (auto simp: demo_order_input_def beginPublishOrder_def dest: transaction_InrD)

text \<open>The order after the upstream accepted it.\<close>

definition demo_placed :: db where
  "demo_placed = update_order ''sn-00001'' (complete_order_row (Some ''P-1'') 20) demo_pending"

lemma demo_placed_find:
  "findPublishOrderBySn demo_placed ''sn-00001'' = Some (complete_order_row (Some ''P-1'') 20 demo_order)"
proof -
  have "findPublishOrderBySn demo_pending ''sn-00001'' = Some demo_order"
    by (simp add: findPublishOrderBySn_def demo_pending_def demo_order_def new_order_def demo_order_input_def)
  then show ?thesis by (simp add: demo_placed_def complete_upd.find_updated)
qed

lemma demo_placed_inv: "backend_inv demo_placed"
proof (rule backend_inv_complete [OF demo_pending_inv])
  show "complete_order_body ''sn-00001'' (Some ''P-1'') 20 demo_pending =
      Inr (demo_placed, complete_order_row (Some ''P-1'') 20 demo_order)"
    using demo_placed_find by (simp add: complete_order_body_def read_order_back_def demo_placed_def)
qed

section \<open>Properties of publish orders\<close>

text \<open>
  The abstract order automaton: the new ledger status and how often the order's points are paid
  out to the account (\<open>-1\<close> charged, \<open>1\<close> paid back). A settled order cannot be settled again and
  a refunded one never moves.
\<close>

definition order_automaton ::
  "placement_status \<Rightarrow> order_ledger_status \<Rightarrow> rat \<Rightarrow> order_ledger_status \<times> int" where
  "order_automaton placement ledger status =
     (if placement = Placed \<and> ledger = OFrozen \<and> status \<in> {3, 4, 8, 10, 11, 12} then (OSettled, - 1)
      else if placement = Placed \<and> ledger = OFrozen \<and> status \<in> {2, 5, 7} then (ORefunded, 0)
      else if placement = Placed \<and> ledger = OSettled \<and> status \<in> {2, 5, 7} then (ORefunded, 1)
      else (ledger, 0))"

lemma order_ledger_step_ok:
  assumes "backend_inv d" and "findPublishOrderBySn d sn = Some q"
    and fresh: "uuid \<notin> le_id ` set (ledger_entries d)"
  obtains d1 account where
    "order_ledger_step q status now uuid d =
       Inr (d1, fst (order_automaton (po_placement_status q) (po_ledger_status q) status))"
    "findAccountById d (po_account_id q) = Some account"
    "map_option ac_balance (findAccountById d1 (po_account_id q)) =
       Some (ac_balance account +
         snd (order_automaton (po_placement_status q) (po_ledger_status q) status) * po_points q)"
    "publish_orders d1 = publish_orders d"
proof -
  have "po_account_id q \<in> ac_id ` set (accounts d)"
    using backend_inv_D(2) [OF assms(1)] find_order_SomeD [OF assms(2)] by (auto simp: orders_ok_def)
  then obtain account where acc: "findAccountById d (po_account_id q) = Some account"
    by (metis findAccountById_def find_row_None_iff not_None_eq)
  note ch = applyBalanceChange_ok [OF backend_inv_D(4) [OF assms(1)] acc fresh]
  define sign where "sign = snd (order_automaton (po_placement_status q) (po_ledger_status q) status)"
  define d1 where "d1 = (if sign = 0 then d
    else if sign = - 1 then posted account (- po_points q) Consume (order_note (po_sn q)) now uuid d
    else posted account (po_points q) Refund (order_refund_note (po_sn q)) now uuid d)"
  have sign: "sign = - 1 \<or> sign = 0 \<or> sign = 1" by (auto simp: sign_def order_automaton_def)
  have "order_ledger_step q status now uuid d =
      Inr (d1, fst (order_automaton (po_placement_status q) (po_ledger_status q) status))"
    by (cases "po_placement_status q = Placed"; cases "po_ledger_status q")
      (simp_all add: order_ledger_step_def d1_def sign_def order_automaton_def SETTLE_STATUSES_def
        REFUND_STATUSES_def settleFrozenPoints_def refundSettledPoints_def ch acc)
  moreover have "map_option ac_balance (findAccountById d1 (po_account_id q)) =
      Some (ac_balance account + sign * po_points q)"
    using sign acc
    by (auto simp: d1_def findAccountById_posted findAccountById_ac_id set_balance_def)
  moreover have "publish_orders d1 = publish_orders d" by (simp add: d1_def)
  ultimately show thesis using acc unfolding sign_def by (intro that)
qed

text \<open>
  C6: every upstream status drives a known order exactly as the abstract automaton says. The call
  always succeeds, the stored ledger status is the automaton's, and the balance of the owner moves
  by the automaton's sign times the order's points: frozen orders are charged once by a settling
  status, released without a charge by a refunding status, a settled order is paid back once, and
  every other status, or any status of an order that was not accepted upstream, moves no points.
\<close>

theorem applyPublishOrderStatus_automaton:
  assumes inv: "backend_inv d" and q: "findPublishOrderBySn d (os_sn input) = Some q"
    and fresh: "uuid \<notin> le_id ` set (ledger_entries d)"
  shows "\<exists>d' q' account account'. applyPublishOrderStatus input now uuid d = (d', Inr (Some q')) \<and>
    findPublishOrderBySn d' (os_sn input) = Some q' \<and>
    po_ledger_status q' = fst (order_automaton (po_placement_status q) (po_ledger_status q) (os_status input)) \<and>
    po_placement_status q' = po_placement_status q \<and> po_upstream_status q' = Some (os_status input) \<and>
    findAccountById d (po_account_id q) = Some account \<and>
    findAccountById d' (po_account_id q) = Some account' \<and>
    ac_balance account' = ac_balance account +
      snd (order_automaton (po_placement_status q) (po_ledger_status q) (os_status input)) * po_points q"
proof -
  let ?l = "fst (order_automaton (po_placement_status q) (po_ledger_status q) (os_status input))"
  let ?u = "status_order_row ?l (os_status input) (os_url input) (os_publishedAt input)
    (closed_observed q (os_status input) now) now"
  obtain d1 account where
    step: "order_ledger_step q (os_status input) now uuid d = Inr (d1, ?l)"
    and acc: "findAccountById d (po_account_id q) = Some account"
    and bal: "map_option ac_balance (findAccountById d1 (po_account_id q)) = Some (ac_balance account +
      snd (order_automaton (po_placement_status q) (po_ledger_status q) (os_status input)) * po_points q)"
    and same: "publish_orders d1 = publish_orders d"
    using inv q fresh by (rule order_ledger_step_ok)
  have found: "findPublishOrderBySn (update_order (os_sn input) ?u d1) (os_sn input) = Some (?u q)"
  proof -
    have "findPublishOrderBySn d1 (os_sn input) = Some q"
      using q same by (simp add: findPublishOrderBySn_def)
    then show ?thesis by (simp add: status_upd.find_updated)
  qed
  have run: "applyPublishOrderStatus input now uuid d =
      (update_order (os_sn input) ?u d1, Inr (Some (?u q)))"
    using found by (simp add: applyPublishOrderStatus_def transaction_def apply_status_body_def q step
        read_order_back_def)
  from bal obtain account' where "findAccountById d1 (po_account_id q) = Some account'"
    "ac_balance account' = ac_balance account +
      snd (order_automaton (po_placement_status q) (po_ledger_status q) (os_status input)) * po_points q"
    by auto
  with run found acc show ?thesis
    by (intro exI [of _ "update_order (os_sn input) ?u d1"] exI [of _ "?u q"] exI [of _ account] exI [of _ account'])
      (simp add: status_order_row_def)
qed

theorem applyPublishOrderStatus_automaton_witness:
  "\<exists>d' account account'.
     fst (applyPublishOrderStatus \<lparr>os_sn = ''sn-00001'', os_status = 4, os_url = None, os_publishedAt = None\<rparr>
            30 ''le-9'' demo_placed) = d' \<and>
     findAccountById demo_placed ''acc-1'' = Some account \<and> findAccountById d' ''acc-1'' = Some account' \<and>
     ac_balance account' = ac_balance account - 141"
proof -
  let ?in = "\<lparr>os_sn = ''sn-00001'', os_status = 4, os_url = None, os_publishedAt = None\<rparr>"
  let ?q = "complete_order_row (Some ''P-1'') 20 demo_order"
  have row: "po_account_id ?q = ''acc-1''" "po_placement_status ?q = Placed" "po_ledger_status ?q = OFrozen"
    "po_points ?q = 141"
    by (simp_all add: complete_order_row_def demo_order_def new_order_def)
  have "''le-9'' \<notin> le_id ` set (ledger_entries demo_placed)"
    by (simp add: demo_placed_def demo_pending_def demo_db_def)
  then show ?thesis
    using applyPublishOrderStatus_automaton [OF demo_placed_inv, of ?in ?q "''le-9''" 30] demo_placed_find
    by (auto simp: row order_automaton_def)
qed

text \<open>
  C19: orders are idempotent under their number. Once an order has been begun, beginning it again
  with the same parameters, even at another media price, is answered from the stored row: nothing
  is frozen a second time and the database is not touched; the same number with another
  parameter is a 409, and from another account a 404.
\<close>

theorem beginPublishOrder_idempotent:
  assumes "beginPublishOrder a input now d = (d1, Inr (q, phase))"
  shows "beginPublishOrder a (input\<lparr>oi_mediaPriceCents := c\<rparr>) now' d1 =
      (d1, Inr (q, if po_placement_status q = Placed then ReplayPlaced else ReplayPending)) \<and>
    (b \<noteq> a \<longrightarrow> beginPublishOrder b input now' d1 = (d1, fail ''order_not_found'' 404)) \<and>
    (t \<noteq> oi_title input \<longrightarrow>
       beginPublishOrder a (input\<lparr>oi_title := t\<rparr>) now' d1 = (d1, fail ''sn_conflict'' 409))"
proof -
  have run: "begin_order_body a input now d = Inr (d1, q, phase)"
    using assms unfolding beginPublishOrder_def by (rule transaction_InrD)
  have "findPublishOrderBySn d1 (oi_sn input) = Some q \<and> po_account_id q = a \<and>
      same_order_params q input \<and> po_placement_status q \<noteq> Failed"
    using run
  proof (cases rule: begin_order_body_Inr)
    case replay
    then show ?thesis by auto
  next
    case (retry old)
    then show ?thesis
      by (auto simp: retry_upd.find_updated retry_order_row_def same_order_params_def)
  next
    case created
    then show ?thesis
      by (simp add: findPublishOrderBySn_def find_row_append new_order_def same_order_params_def)
  qed
  then show ?thesis
    by (cases "po_placement_status q")
      (auto simp: beginPublishOrder_def transaction_def begin_order_body_def same_order_params_def Let_def)
qed

theorem beginPublishOrder_idempotent_witness:
  "beginPublishOrder ''acc-2'' demo_order_input 11 demo_pending = (demo_pending, fail ''order_not_found'' 404)"
  using beginPublishOrder_idempotent [OF demo_begin, of 0 11 "''acc-2''"] by simp

end
