(* ===== verification/Json.thy ===== *)
theory Json
  imports Pricing
begin

text \<open>
  The JSON values that upstream bodies carry, as \<open>JSON.parse\<close> gives them, with the property access
  of JavaScript, and the number readers of the language that the code applies to them:
  \<open>Number.parseFloat\<close> and \<open>Math.round\<close>. Numbers are exact rationals; the amounts and token counts
  of the program are far inside the range where the double arithmetic of the code agrees.
\<close>

datatype json =
    JNull
  | JBool bool
  | JNum rat
  | JStr utext
  | JArr "json list"
  | JObj "(string \<times> json) list"

text \<open>
  Property access: \<open>None\<close> is \<open>undefined\<close>. A repeated key keeps its last value. Reading a property of
  \<open>null\<close> throws; the callers below test for it where the code can reach it.
\<close>

definition jget :: "json \<Rightarrow> string \<Rightarrow> json option" where
  "jget j k = (case j of JObj fs \<Rightarrow> map_of (rev fs) k | _ \<Rightarrow> None)"

definition is_object :: "json \<Rightarrow> bool" where
  "is_object j \<longleftrightarrow> (case j of JObj _ \<Rightarrow> True | JArr _ \<Rightarrow> True | _ \<Rightarrow> False)"

definition digits_value :: "utext \<Rightarrow> nat" where
  "digits_value ds = foldl (\<lambda>n c. 10 * n + (c - 48)) 0 ds"

definition take_sign :: "utext \<Rightarrow> bool \<times> utext" where
  "take_sign t = (case t of c # r \<Rightarrow> if c = 45 then (True, r) else if c = 43 then (False, r) else (False, t)
                  | [] \<Rightarrow> (False, []))"

definition exponent_of :: "utext \<Rightarrow> int" where
  "exponent_of t =
     (case t of
        c # r \<Rightarrow>
          if c = 101 \<or> c = 69
          then let (neg, r1) = take_sign r; ds = takeWhile digit_char r1
               in if neg then - int (digits_value ds) else int (digits_value ds)
          else 0
      | [] \<Rightarrow> 0)"

definition parse_float :: "utext \<Rightarrow> rat option" where
  "parse_float t =
     (let (neg, t1) = take_sign (dropWhile js_space t);
          ip = takeWhile digit_char t1;
          r1 = dropWhile digit_char t1;
          fp = (case r1 of c # r \<Rightarrow> if c = 46 then takeWhile digit_char r else [] | [] \<Rightarrow> []);
          r2 = (case r1 of c # r \<Rightarrow> if c = 46 then dropWhile digit_char r else r1 | [] \<Rightarrow> []);
          e = exponent_of r2;
          m = of_nat (digits_value (ip @ fp)) / 10 ^ length fp;
          v = (if 0 \<le> e then m * 10 ^ nat e else m / 10 ^ nat (- e))
      in if ip = [] \<and> fp = [] then None else Some (if neg then - v else v))"

text \<open>A finite non-negative number rounded to an integer, zero for anything else.\<close>

definition pickNonNegativeInt :: "json option \<Rightarrow> int" where
  "pickNonNegativeInt v = (case v of Some (JNum r) \<Rightarrow> if 0 \<le> r then math_round r else 0 | _ \<Rightarrow> 0)"

lemma math_round_nonneg: "0 \<le> x \<Longrightarrow> 0 \<le> math_round x"
  by (simp add: math_round_def)

lemma pickNonNegativeInt_nonneg [simp]: "0 \<le> pickNonNegativeInt v"
  by (auto simp: pickNonNegativeInt_def math_round_nonneg split: option.splits json.splits)

end
