(* ===== verification/Upstream.thy ===== *)
theory Upstream
  imports PublishOrders Json
begin

text \<open>
  The upstream client of \<open>backend/src/gateway/distribution-upstream.ts\<close>: how a response of the
  media platform becomes a result of the order routes. The HTTP exchange itself is an argument: a
  network failure, or a status with a body that is JSON or not. The signatures are in theory \<open>Signing\<close>.
\<close>

section \<open>Responses\<close>

datatype http_outcome = NetworkError | HttpResponse nat "json option"

datatype 'a call_result = CallOk 'a | CallFail nat

text \<open>A thrown error skips the handler; \<open>null\<close> as the whole body throws when its code is read.\<close>

type_synonym 'a upstream = "'a call_result result"

definition fail_status :: "nat \<Rightarrow> nat" where
  "fail_status status = (if 200 \<le> status \<and> status < 300 then 502 else status)"

definition upstream_data :: "http_outcome \<Rightarrow> json option upstream" where
  "upstream_data h =
     (case h of
        NetworkError \<Rightarrow> fail ''upstream_unavailable'' 502
      | HttpResponse status body \<Rightarrow>
          if status < 200 \<or> status \<ge> 300 then Inr (CallFail (fail_status status))
          else (case body of
                  None \<Rightarrow> Inr (CallFail (fail_status status))
                | Some JNull \<Rightarrow> fail ''internal_error'' 500
                | Some j \<Rightarrow>
                    if jget j ''code'' = Some (JNum 200) then Inr (CallOk (jget j ''data''))
                    else Inr (CallFail (fail_status status))))"

definition as_list :: "json option \<Rightarrow> json list" where
  "as_list d = (case d of Some (JArr xs) \<Rightarrow> xs | _ \<Rightarrow> [])"

definition text_field :: "json option \<Rightarrow> utext" where
  "text_field f = (case f of Some (JStr s) \<Rightarrow> s | _ \<Rightarrow> [])"

definition text_option :: "json option \<Rightarrow> utext option" where
  "text_option f = (case f of Some (JStr s) \<Rightarrow> Some s | _ \<Rightarrow> None)"

definition num_option :: "json option \<Rightarrow> rat option" where
  "num_option f = (case f of Some (JNum r) \<Rightarrow> Some r | _ \<Rightarrow> None)"

text \<open>Identifiers of the upstream are ASCII; \<open>ident\<close> reads a text back as an identifier.\<close>

definition ident :: "utext \<Rightarrow> string" where
  "ident t = map char_of t"

section \<open>Calls\<close>

definition placeOrder :: "http_outcome \<Rightarrow> string upstream" where
  "placeOrder h =
     bind_result (upstream_data h) (\<lambda>r.
       case r of
         CallFail s \<Rightarrow> Inr (CallFail s)
       | CallOk data \<Rightarrow>
           (case Option.bind data (\<lambda>j. jget j ''partner_sn'') of
              Some (JStr s) \<Rightarrow> Inr (if s = [] then CallFail 502 else CallOk (ident s))
            | _ \<Rightarrow> Inr (CallFail 502)))"

fun order_snapshots :: "json list \<Rightarrow> order_snapshot list result" where
  "order_snapshots [] = Inr []"
| "order_snapshots (item # items) =
     (if item = JNull then fail ''internal_error'' 500
      else bind_result (order_snapshots items) (\<lambda>rest.
        case (jget item ''sn'', jget item ''status'') of
          (Some (JStr sn), Some (JNum status)) \<Rightarrow>
            Inr (\<lparr>os_sn = ident sn, os_status = status,
                  os_url = map_option ident (text_option (jget item ''url'')),
                  os_publishedAt = map_option ident (text_option (jget item ''published_at''))\<rparr> # rest)
        | _ \<Rightarrow> Inr rest))"

definition queryOrders :: "http_outcome \<Rightarrow> order_snapshot list upstream" where
  "queryOrders h =
     bind_result (upstream_data h) (\<lambda>r.
       case r of
         CallFail s \<Rightarrow> Inr (CallFail s)
       | CallOk data \<Rightarrow> bind_result (order_snapshots (as_list data)) (\<lambda>xs. Inr (CallOk xs)))"

definition orderAction :: "http_outcome \<Rightarrow> unit upstream" where
  "orderAction h =
     bind_result (upstream_data h) (\<lambda>r.
       case r of CallFail s \<Rightarrow> Inr (CallFail s) | CallOk _ \<Rightarrow> Inr (CallOk ()))"

text \<open>
  A price in yuan as a number or a decimal string, in cents; anything that is not a finite
  non-negative number is no price.
\<close>

definition priceToCents :: "json option \<Rightarrow> int option" where
  "priceToCents price =
     (let value = (case price of
                     Some (JNum r) \<Rightarrow> Some r | Some (JStr s) \<Rightarrow> parse_float s | _ \<Rightarrow> None)
      in case value of
           None \<Rightarrow> None
         | Some v \<Rightarrow> if v < 0 then None else Some (math_round (v * 100)))"

record resource_snapshot =
  rs_id :: int
  rs_name :: utext
  rs_priceCents :: int
  rs_status :: "rat option"

fun find_resource :: "int \<Rightarrow> json list \<Rightarrow> json option result" where
  "find_resource resourceId [] = Inr None"
| "find_resource resourceId (item # items) =
     (if item = JNull then fail ''internal_error'' 500
      else if jget item ''id'' = Some (JNum (of_int resourceId)) then Inr (Some item)
      else find_resource resourceId items)"

definition resource_result :: "int \<Rightarrow> json option \<Rightarrow> resource_snapshot option upstream" where
  "resource_result resourceId found =
     (case found of
        None \<Rightarrow> Inr (CallOk None)
      | Some item \<Rightarrow>
          (case priceToCents (jget item ''price'') of
             None \<Rightarrow> Inr (CallFail 502)
           | Some cents \<Rightarrow>
               Inr (CallOk (Some \<lparr>rs_id = resourceId, rs_name = text_field (jget item ''name''),
                 rs_priceCents = cents, rs_status = num_option (jget item ''status'')\<rparr>))))"

definition queryResource :: "int \<Rightarrow> http_outcome \<Rightarrow> resource_snapshot option upstream" where
  "queryResource resourceId h =
     bind_result (upstream_data h) (\<lambda>r.
       case r of
         CallFail s \<Rightarrow> Inr (CallFail s)
       | CallOk data \<Rightarrow>
           bind_result (find_resource resourceId (as_list data)) (resource_result resourceId))"

text \<open>The batched query: items without a positive integer id are skipped, a missing price is zero.\<close>

definition positive_int :: "json option \<Rightarrow> int option" where
  "positive_int f =
     (case f of Some (JNum r) \<Rightarrow> if r \<in> \<int> \<and> 0 < r then Some \<lfloor>r\<rfloor> else None | _ \<Rightarrow> None)"

fun resource_snapshots :: "json list \<Rightarrow> resource_snapshot list result" where
  "resource_snapshots [] = Inr []"
| "resource_snapshots (item # items) =
     (if item = JNull then fail ''internal_error'' 500
      else bind_result (resource_snapshots items) (\<lambda>rest.
        case positive_int (jget item ''id'') of
          None \<Rightarrow> Inr rest
        | Some i \<Rightarrow>
            Inr (\<lparr>rs_id = i, rs_name = text_field (jget item ''name''),
                  rs_priceCents = case_option 0 id (priceToCents (jget item ''price'')),
                  rs_status = num_option (jget item ''status'')\<rparr> # rest)))"

definition queryResources :: "int list \<Rightarrow> http_outcome \<Rightarrow> resource_snapshot list upstream" where
  "queryResources ids h =
     (if ids = [] then Inr (CallOk [])
      else bind_result (upstream_data h) (\<lambda>r.
        case r of
          CallFail s \<Rightarrow> Inr (CallFail s)
        | CallOk data \<Rightarrow> bind_result (resource_snapshots (as_list data)) (\<lambda>xs. Inr (CallOk xs))))"

section \<open>Facts\<close>

lemma priceToCents_nonneg: "priceToCents p = Some c \<Longrightarrow> 0 \<le> c"
  by (auto simp: priceToCents_def Let_def math_round_nonneg split: option.splits json.splits if_splits)

lemma queryResource_price:
  assumes "queryResource i h = Inr (CallOk (Some r))"
  shows "rs_id r = i \<and> 0 \<le> rs_priceCents r"
proof -
  from assms obtain c where
    "(case c of CallFail s \<Rightarrow> Inr (CallFail s)
      | CallOk data \<Rightarrow> bind_result (find_resource i (as_list data)) (resource_result i)) = Inr (CallOk (Some r))"
    by (auto simp: queryResource_def bind_result_Inr_iff)
  then obtain found where "resource_result i found = Inr (CallOk (Some r))"
    by (cases c) (auto simp: bind_result_Inr_iff)
  then show ?thesis
    by (cases found) (auto simp: resource_result_def split: option.split_asm dest: priceToCents_nonneg)
qed

end
