(* ===== verification/Industry.thy ===== *)
theory Industry
  imports Prelude "HOL-Library.Code_Target_Nat"
begin

text \<open>
  The industry matching of \<open>backend/src/domain/pool-industry-match.ts\<close> with the category names of
  \<open>backend/src/domain/preference-channels.ts\<close>: which media channel types belong to an industry of
  the preference list. The names are the Chinese texts of the source as code points, in the order
  of the source.
\<close>

section \<open>Tables\<close>

definition PREFERENCE_CATEGORY_NAMES :: "(int \<times> utext) list" where
  "PREFERENCE_CATEGORY_NAMES =
    [(0, [36890, 29992]),
     (1, [25991, 21270]),
     (2, [21382, 21490]),
     (3, [19977, 20892]),
     (4, [36130, 32463]),
     (5, [31185, 25216]),
     (6, [20307, 32946]),
     (7, [27773, 36710]),
     (8, [23089, 20048]),
     (9, [26102, 23578]),
     (10, [20581, 24247]),
     (11, [25945, 32946]),
     (12, [27597, 23156]),
     (13, [32654, 39135]),
     (14, [26053, 28216]),
     (15, [20844, 30410]),
     (16, [28216, 25103]),
     (17, [21160, 28459]),
     (18, [31038, 20250]),
     (19, [25151, 20135]),
     (20, [32844, 22330]),
     (21, [24773, 24863]),
     (22, [25630, 31505]),
     (23, [26032, 38395]),
     (24, [23478, 23621]),
     (25, [29983, 27963]),
     (26, [24037, 19994, 36152, 26131])]"

definition MEDIA_CHANNEL_TYPE_NAMES :: "(int \<times> utext) list" where
  "MEDIA_CHANNEL_TYPE_NAMES =
    [(1, [73, 84, 31185, 25216]),
     (2, [29983, 27963, 28040, 36153]),
     (3, [22899, 24615, 26102, 23578]),
     (4, [23089, 20048, 20241, 38386]),
     (5, [28216, 25103, 32593, 31449]),
     (6, [27773, 36710, 32593, 31449]),
     (7, [25945, 32946, 22521, 35757]),
     (8, [37202, 24215, 26053, 28216]),
     (9, [20581, 24247, 21307, 30103]),
     (10, [25151, 20135, 23478, 23621]),
     (11, [36130, 32463, 21830, 19994]),
     (12, [26032, 38395, 36164, 35759]),
     (13, [22871, 39184, 31995, 21015]),
     (14, [26368, 26032, 31186, 26432]),
     (15, [21313, 20803, 19987, 21306]),
     (16, [25991, 21270, 33402, 26415]),
     (17, [20307, 32946, 36816, 21160]),
     (18, [39135, 21697, 39184, 39278]),
     (19, [24037, 19994, 36152, 26131]),
     (20, [20146, 23376, 27597, 23156]),
     (21, [24904, 21892, 20844, 30410]),
     (100, [20854, 20182, 39057, 36947])]"

definition NON_INDUSTRY_CATEGORY_NAMES :: "utext list" where
  "NON_INDUSTRY_CATEGORY_NAMES =
    [[22871, 39184, 31995, 21015],
     [26368, 26032, 31186, 26432],
     [21313, 20803, 19987, 21306],
     [20854, 20182, 39057, 36947],
     [20854, 20182]]"

definition INDUSTRY_TERM_ALIASES :: "(utext \<times> utext list) list" where
  "INDUSTRY_TERM_ALIASES =
    [([73, 84], [[31185, 25216]]),
     ([25968, 30721], [[31185, 25216]]),
     ([20114, 32852, 32593], [[31185, 25216]]),
     ([36719, 20214], [[31185, 25216]]),
     ([20154, 24037, 26234, 33021], [[31185, 25216]]),
     ([30005, 23376], [[31185, 25216]]),
     ([21307, 32654], [[20581, 24247], [21307, 30103]]),
     ([21307, 30103], [[20581, 24247], [21307, 30103]]),
     ([21307, 33647], [[20581, 24247], [21307, 30103]]),
     ([20859, 29983], [[20581, 24247]]),
     ([32654, 22918], [[26102, 23578]]),
     ([26381, 39280], [[26102, 23578]]),
     ([22882, 20360, 21697], [[26102, 23578]]),
     ([24433, 35270], [[23089, 20048]]),
     ([32508, 33402], [[23089, 20048]]),
     ([26126, 26143], [[23089, 20048]]),
     ([30005, 31454], [[28216, 25103]]),
     ([27665, 23487], [[26053, 28216]]),
     ([35013, 20462], [[23478, 23621]]),
     ([24314, 26448], [[23478, 23621]]),
     ([37329, 34701], [[36130, 32463]]),
     ([35777, 21048], [[36130, 32463]]),
     ([20445, 38505], [[36130, 32463]]),
     ([38134, 34892], [[36130, 32463]]),
     ([29702, 36130], [[36130, 32463]]),
     ([25237, 36164], [[36130, 32463]]),
     ([23186, 20307], [[26032, 38395]]),
     ([36164, 35759], [[26032, 38395]]),
     ([39550, 26657], [[27773, 36710]]),
     ([27773, 20462], [[27773, 36710]]),
     ([27773, 37197], [[27773, 36710]]),
     ([36710, 36742], [[27773, 36710]]),
     ([39550, 39542], [[27773, 36710]]),
     ([24904, 21892], [[20844, 30410]]),
     ([23381, 20135], [[27597, 23156]]),
     ([25910, 34255], [[25991, 21270]]),
     ([20070, 30011], [[25991, 21270]]),
     ([20581, 36523], [[20307, 32946]]),
     ([36275, 29699], [[20307, 32946]]),
     ([31726, 29699], [[20307, 32946]]),
     ([20892, 19994], [[39135, 21697], [19977, 20892]]),
     ([20892, 36164], [[39135, 21697], [19977, 20892]]),
     ([21046, 36896], [[24037, 19994]]),
     ([26426, 26800], [[24037, 19994]]),
     ([33021, 28304], [[24037, 19994]]),
     ([21270, 24037], [[24037, 19994]]),
     ([29289, 27969], [[24037, 19994]]),
     ([36152, 26131], [[24037, 19994]]),
     ([23478, 25919], [[29983, 27963]]),
     ([28040, 36153], [[29983, 27963]]),
     ([32654, 39135], [[39135, 21697]]),
     ([39184, 39278], [[32654, 39135], [39135, 21697]])]"

section \<open>Matching\<close>

text \<open>\<open>hay.includes(needle)\<close>.\<close>

fun text_prefix :: "utext \<Rightarrow> utext \<Rightarrow> bool" where
  "text_prefix [] ys = True"
| "text_prefix (x # xs) [] = False"
| "text_prefix (x # xs) (y # ys) = (x = y \<and> text_prefix xs ys)"

fun text_includes :: "utext \<Rightarrow> utext \<Rightarrow> bool" where
  "text_includes [] needle = (needle = [])"
| "text_includes (c # hay) needle = (text_prefix needle (c # hay) \<or> text_includes hay needle)"

fun bigrams :: "utext \<Rightarrow> utext list" where
  "bigrams (a # b # rest) = [a, b] # bigrams (b # rest)"
| "bigrams _ = []"

definition matchesCategoryName :: "utext \<Rightarrow> utext \<Rightarrow> bool" where
  "matchesCategoryName industry name \<longleftrightarrow>
     text_includes industry name \<or> text_includes name industry \<or>
     list_ex (\<lambda>(term, fragments). text_includes industry term \<and>
                list_ex (text_includes name) fragments) INDUSTRY_TERM_ALIASES \<or>
     list_ex (text_includes industry) (bigrams name)"

definition industryCodesFor :: "utext \<Rightarrow> (int \<times> utext) list \<Rightarrow> int list" where
  "industryCodesFor industry names =
     (let trimmed = js_trim industry in
      if trimmed = [] then []
      else map fst (filter (\<lambda>(code, name). name \<notin> set NON_INDUSTRY_CATEGORY_NAMES \<and>
                              matchesCategoryName trimmed name) names))"

definition mediaChannelTypeCodesFor :: "int \<Rightarrow> int list" where
  "mediaChannelTypeCodesFor industry =
     (if industry = 0 then []
      else case map_of PREFERENCE_CATEGORY_NAMES industry of
             None \<Rightarrow> []
           | Some label \<Rightarrow> industryCodesFor label MEDIA_CHANNEL_TYPE_NAMES)"

section \<open>Facts\<close>

lemma text_prefix_iff: "text_prefix xs ys \<longleftrightarrow> (\<exists>zs. ys = xs @ zs)"
  by (induction xs ys rule: text_prefix.induct) auto

lemma text_includes_iff: "text_includes hay needle \<longleftrightarrow> (\<exists>p s. hay = p @ needle @ s)"
proof (induction hay)
  case (Cons c hay)
  show ?case
  proof
    assume "text_includes (c # hay) needle"
    then consider zs where "c # hay = [] @ needle @ zs" | p s where "c # hay = (c # p) @ needle @ s"
      using Cons.IH by (auto simp: text_prefix_iff)
    then show "\<exists>p s. c # hay = p @ needle @ s" by cases blast+
  next
    assume "\<exists>p s. c # hay = p @ needle @ s"
    then obtain p s where ps: "c # hay = p @ needle @ s" by blast
    show "text_includes (c # hay) needle"
    proof (cases p)
      case Nil
      with ps have "text_prefix needle (c # hay)" by (auto simp: text_prefix_iff)
      then show ?thesis by simp
    next
      case (Cons x p')
      with ps Cons.IH show ?thesis by auto
    qed
  qed
qed auto

lemma industryCodesFor_D:
  "code \<in> set (industryCodesFor t names) \<Longrightarrow>
   \<exists>name. (code, name) \<in> set names \<and> name \<notin> set NON_INDUSTRY_CATEGORY_NAMES"
  by (auto simp: industryCodesFor_def Let_def split: if_splits)

lemma marketing_names:
  "(code, name) \<in> set MEDIA_CHANNEL_TYPE_NAMES \<Longrightarrow> code \<in> {13, 14, 15, 100} \<Longrightarrow>
   name \<in> set NON_INDUSTRY_CATEGORY_NAMES"
proof -
  have "list_all (\<lambda>(code, name). code \<in> set [13, 14, 15, 100] \<longrightarrow> name \<in> set NON_INDUSTRY_CATEGORY_NAMES)
      MEDIA_CHANNEL_TYPE_NAMES"
    by code_simp
  then show "(code, name) \<in> set MEDIA_CHANNEL_TYPE_NAMES \<Longrightarrow> code \<in> {13, 14, 15, 100} \<Longrightarrow>
      name \<in> set NON_INDUSTRY_CATEGORY_NAMES"
    by (auto simp: list_all_iff)
qed

text \<open>
  The industry filter of the pool page agrees with its documentation: food maps to the single
  channel type for food and catering, housing and home share one channel type, the industries
  without a media counterpart map to nothing, the general entry maps to nothing, and no industry
  ever selects one of the marketing areas or the rest category.
\<close>

theorem mediaChannelTypeCodesFor_table:
  "mediaChannelTypeCodesFor 13 = [18] \<and> mediaChannelTypeCodesFor 24 = [10] \<and>
   mediaChannelTypeCodesFor 19 = [10] \<and> mediaChannelTypeCodesFor 2 = [] \<and>
   mediaChannelTypeCodesFor 3 = [] \<and> mediaChannelTypeCodesFor 17 = [] \<and>
   mediaChannelTypeCodesFor 0 = [] \<and>
   set (mediaChannelTypeCodesFor i) \<inter> {13, 14, 15, 100} = {}"
proof -
  have "set (industryCodesFor t MEDIA_CHANNEL_TYPE_NAMES) \<inter> {13, 14, 15, 100} = {}" for t
    using industryCodesFor_D [of _ t MEDIA_CHANNEL_TYPE_NAMES] marketing_names by fastforce
  then have "set (mediaChannelTypeCodesFor i) \<inter> {13, 14, 15, 100} = {}"
    by (simp add: mediaChannelTypeCodesFor_def split: option.splits)
  moreover have "mediaChannelTypeCodesFor 13 = [18]" by code_simp
  moreover have "mediaChannelTypeCodesFor 24 = [10]" by code_simp
  moreover have "mediaChannelTypeCodesFor 19 = [10]" by code_simp
  moreover have "mediaChannelTypeCodesFor 2 = []" by code_simp
  moreover have "mediaChannelTypeCodesFor 3 = []" by code_simp
  moreover have "mediaChannelTypeCodesFor 17 = []" by code_simp
  moreover have "mediaChannelTypeCodesFor 0 = []" by (simp add: mediaChannelTypeCodesFor_def)
  ultimately show ?thesis by simp
qed

end
