(* ===== verification/PoolSnapshot.thy ===== *)
theory PoolSnapshot
  imports Upstream Industry
begin

text \<open>
  The resource pool snapshot of \<open>backend/src/domain/distribution-pool-snapshot.ts\<close> and the guards
  of its scheduler: the full refresh with its page loop, retries and page limit, the replacement of
  a kind, the incremental write-back, the search with its \<open>LIKE\<close> pattern and industry filter. The
  upstream pages are arguments.
\<close>

section \<open>Replacement and write-back\<close>

record pool_item =
  it_resourceId :: int
  it_name :: utext
  it_domain :: utext
  it_priceCents :: int
  it_status :: "rat option"
  it_geoCount :: int
  it_categoryCode :: "int option"
  it_platform :: "int option"
  it_fansNumber :: "int option"

definition snapshot_key :: "pool_snapshot_row \<Rightarrow> publish_order_kind \<times> int" where
  "snapshot_key r = (ps_kind r, ps_resource_id r)"

definition snapshot_row :: "publish_order_kind \<Rightarrow> instant \<Rightarrow> pool_item \<Rightarrow> pool_snapshot_row" where
  "snapshot_row kind fetchedAt item =
     \<lparr>ps_kind = kind, ps_resource_id = it_resourceId item, ps_name = it_name item,
      ps_domain = it_domain item, ps_status = it_status item, ps_price_cents = it_priceCents item,
      ps_geo_count = it_geoCount item, ps_category_code = it_categoryCode item,
      ps_geo = (it_geoCount item > 0), ps_platform = it_platform item,
      ps_fans_number = it_fansNumber item, ps_fetched_at = fetchedAt\<rparr>"

fun insert_rows :: "pool_snapshot_row list \<Rightarrow> pool_snapshot_row list \<Rightarrow> pool_snapshot_row list result" where
  "insert_rows rows [] = Inr rows"
| "insert_rows rows (r # rs) = bind_result (insert_row snapshot_key r rows) (\<lambda>rows'. insert_rows rows' rs)"

definition replacePoolSnapshot :: "publish_order_kind \<Rightarrow> pool_item list \<Rightarrow> instant \<Rightarrow> unit body" where
  "replacePoolSnapshot kind items fetchedAt d =
     bind_result
       (insert_rows (filter (\<lambda>r. ps_kind r \<noteq> kind) (distribution_pool_snapshot d))
          (map (snapshot_row kind fetchedAt) items))
       (\<lambda>rows. Inr (d\<lparr>distribution_pool_snapshot := rows\<rparr>, ()))"

definition writeback_row :: "utext \<Rightarrow> int \<Rightarrow> rat option \<Rightarrow> pool_snapshot_row \<Rightarrow> pool_snapshot_row" where
  "writeback_row name cents status r =
     r\<lparr>ps_name := name, ps_price_cents := cents, ps_status := status\<rparr>"

definition applyPoolSnapshotRefUpdate ::
  "publish_order_kind \<Rightarrow> int \<Rightarrow> resource_snapshot option \<Rightarrow> db \<Rightarrow> db" where
  "applyPoolSnapshotRefUpdate kind resourceId update d =
     (case update of
        None \<Rightarrow>
          d\<lparr>distribution_pool_snapshot :=
             filter (\<lambda>r. snapshot_key r \<noteq> (kind, resourceId)) (distribution_pool_snapshot d)\<rparr>
      | Some u \<Rightarrow>
          d\<lparr>distribution_pool_snapshot :=
             update_rows (\<lambda>r. snapshot_key r = (kind, resourceId))
               (writeback_row (rs_name u) (rs_priceCents u) (rs_status u))
               (distribution_pool_snapshot d)\<rparr>)"

section \<open>The full refresh\<close>

record pool_page =
  pg_total :: int
  pg_items :: "pool_item list"

text \<open>
  \<open>fetchPage kind page attempt\<close> is the answer of the upstream to that attempt; \<open>None\<close> is a failure.
\<close>

type_synonym page_source = "publish_order_kind \<Rightarrow> nat \<Rightarrow> nat \<Rightarrow> pool_page option"

definition MAX_PAGE_ATTEMPTS :: nat where "MAX_PAGE_ATTEMPTS = 3"

definition MAX_REFRESH_PAGES_PER_KIND :: nat where "MAX_REFRESH_PAGES_PER_KIND = 1000"

fun first_success :: "(nat \<Rightarrow> 'a option) \<Rightarrow> nat list \<Rightarrow> 'a option" where
  "first_success f [] = None"
| "first_success f (n # ns) = (case f n of Some x \<Rightarrow> Some x | None \<Rightarrow> first_success f ns)"

definition fetch_with_retry :: "page_source \<Rightarrow> publish_order_kind \<Rightarrow> nat \<Rightarrow> pool_page option" where
  "fetch_with_retry fetchPage kind page =
     first_success (fetchPage kind page) [1 ..< MAX_PAGE_ATTEMPTS + 1]"

fun add_new :: "pool_item list \<Rightarrow> pool_item list \<Rightarrow> pool_item list" where
  "add_new acc [] = acc"
| "add_new acc (item # items) =
     (if it_resourceId item \<in> it_resourceId ` set acc then add_new acc items
      else add_new (acc @ [item]) items)"

text \<open>The page loop; the last argument counts the pages that are still allowed.\<close>

fun collect_pages ::
  "page_source \<Rightarrow> publish_order_kind \<Rightarrow> nat \<Rightarrow> int \<Rightarrow> pool_item list \<Rightarrow> nat \<Rightarrow> pool_item list result" where
  "collect_pages fetchPage kind page expected acc 0 = fail ''upstream_unavailable'' 502"
| "collect_pages fetchPage kind page expected acc (Suc left) =
     (case fetch_with_retry fetchPage kind page of
        None \<Rightarrow> fail ''upstream_unavailable'' 502
      | Some result \<Rightarrow>
          let expected' = (if page = 1 then pg_total result else expected);
              acc' = add_new acc (pg_items result)
          in if expected' \<le> int (length acc') \<or> pg_items result = [] then Inr acc'
             else collect_pages fetchPage kind (Suc page) expected' acc' left)"

definition refreshDistributionPoolSnapshot ::
  "page_source \<Rightarrow> nat \<Rightarrow> instant \<Rightarrow> db \<Rightarrow> db \<times> (nat \<times> nat) result" where
  "refreshDistributionPoolSnapshot fetchPage maxPages fetchedAt d =
     (case collect_pages fetchPage Media 1 0 [] maxPages of
        Inl e \<Rightarrow> (d, Inl e)
      | Inr m \<Rightarrow>
          (case collect_pages fetchPage WeMedia 1 0 [] maxPages of
             Inl e \<Rightarrow> (d, Inl e)
           | Inr w \<Rightarrow>
               (case transaction (replacePoolSnapshot Media m fetchedAt) d of
                  (d1, Inl e) \<Rightarrow> (d1, Inl e)
                | (d1, Inr _) \<Rightarrow>
                    (case transaction (replacePoolSnapshot WeMedia w fetchedAt) d1 of
                       (d2, Inl e) \<Rightarrow> (d2, Inl e)
                     | (d2, Inr _) \<Rightarrow> (d2, Inr (length m, length w))))))"

section \<open>Verification of the bound references\<close>

fun chunks :: "nat \<Rightarrow> 'a list \<Rightarrow> 'a list list" where
  "chunks n [] = []"
| "chunks n (x # xs) = take (Suc n) (x # xs) # chunks n (drop (Suc n) (x # xs))"

text \<open>\<open>fetchBatch\<close> answers a batch of ids of one kind; batches have at most 200 ids.\<close>

fun verify_batches ::
  "(int list \<Rightarrow> resource_snapshot list option) \<Rightarrow> int list list \<Rightarrow>
   (resource_snapshot list \<times> int list) result" where
  "verify_batches fetchBatch [] = Inr ([], [])"
| "verify_batches fetchBatch (batch # rest) =
     (case fetchBatch batch of
        None \<Rightarrow> fail ''upstream_unavailable'' 502
      | Some found \<Rightarrow>
          bind_result (verify_batches fetchBatch rest) (\<lambda>(updates, delisted).
            Inr (found @ updates, filter (\<lambda>i. i \<notin> rs_id ` set found) batch @ delisted)))"

definition unique_ids :: "publish_order_kind \<Rightarrow> (publish_order_kind \<times> int) list \<Rightarrow> int list" where
  "unique_ids kind refs = map snd (filter (\<lambda>(k, i). k = kind) (rev (remdups (rev (filter (\<lambda>(_, i). 0 < i) refs)))))"

definition apply_writebacks ::
  "publish_order_kind \<Rightarrow> resource_snapshot list \<Rightarrow> db \<Rightarrow> db" where
  "apply_writebacks kind items d =
     fold (\<lambda>item. applyPoolSnapshotRefUpdate kind (rs_id item) (Some item)) items d"

definition apply_delistings :: "publish_order_kind \<Rightarrow> int list \<Rightarrow> db \<Rightarrow> db" where
  "apply_delistings kind ids d = fold (\<lambda>i. applyPoolSnapshotRefUpdate kind i None) ids d"

definition verifyPoolSnapshotRefs ::
  "(publish_order_kind \<Rightarrow> int list \<Rightarrow> resource_snapshot list option) \<Rightarrow>
   (publish_order_kind \<times> int) list \<Rightarrow> db \<Rightarrow> db \<times> (nat \<times> nat) result" where
  "verifyPoolSnapshotRefs fetchBatch refs d =
     (case verify_batches (fetchBatch Media) (chunks 199 (unique_ids Media refs)) of
        Inl e \<Rightarrow> (d, Inl e)
      | Inr (mu, md) \<Rightarrow>
          (case verify_batches (fetchBatch WeMedia) (chunks 199 (unique_ids WeMedia refs)) of
             Inl e \<Rightarrow> (d, Inl e)
           | Inr (wu, wd) \<Rightarrow>
               (apply_delistings WeMedia wd (apply_delistings Media md
                  (apply_writebacks WeMedia wu (apply_writebacks Media mu d))),
                Inr (length mu + length wu, length md + length wd))))"

section \<open>Search\<close>

definition escapeLikePattern :: "utext \<Rightarrow> utext" where
  "escapeLikePattern t = concat (map (\<lambda>c. if c = 92 \<or> c = 37 \<or> c = 95 then [92, c] else [c]) t)"

definition ascii_fold :: "nat \<Rightarrow> nat" where
  "ascii_fold c = (if 65 \<le> c \<and> c \<le> 90 then c + 32 else c)"

text \<open>SQLite's \<open>LIKE\<close> with a backslash as the escape character; it ignores the case of ASCII letters.\<close>

function like :: "utext \<Rightarrow> utext \<Rightarrow> bool" where
  "like [] t = (t = [])"
| "like (p # ps) t =
     (if p = 37 then like ps t \<or> (case t of [] \<Rightarrow> False | _ # t' \<Rightarrow> like (p # ps) t')
      else if p = 95 then (case t of [] \<Rightarrow> False | _ # t' \<Rightarrow> like ps t')
      else if p = 92 then
        (case ps of [] \<Rightarrow> False
         | c # ps' \<Rightarrow> (case t of [] \<Rightarrow> False | x # t' \<Rightarrow> ascii_fold c = ascii_fold x \<and> like ps' t'))
      else (case t of [] \<Rightarrow> False | x # t' \<Rightarrow> ascii_fold p = ascii_fold x \<and> like ps t'))"
  by pat_completeness auto
termination
  by (relation "measure (\<lambda>(ps, t). length ps + length t)") auto

definition industry_filter :: "int option \<Rightarrow> bool \<Rightarrow> pool_snapshot_row \<Rightarrow> bool" where
  "industry_filter industry includeUnclassified r \<longleftrightarrow>
     (case industry of
        None \<Rightarrow> True
      | Some i \<Rightarrow>
          i = 0 \<or>
          ps_kind r = WeMedia \<and> ps_category_code r = Some i \<or>
          includeUnclassified \<and>
            (ps_category_code r = None \<or> ps_category_code r = Some 0 \<or> ps_category_code r = Some 100) \<or>
          ps_kind r = Media \<and>
            (case ps_category_code r of None \<Rightarrow> False | Some c \<Rightarrow> c \<in> set (mediaChannelTypeCodesFor i)))"

definition kind_rank :: "publish_order_kind \<Rightarrow> int" where
  "kind_rank k = (case k of Media \<Rightarrow> 0 | WeMedia \<Rightarrow> 1)"

definition pool_order :: "pool_snapshot_row list \<Rightarrow> pool_snapshot_row list" where
  "pool_order rows = sort_key (\<lambda>r. kind_rank (ps_kind r)) (sort_key ps_resource_id rows)"

definition searchPoolSnapshot ::
  "db \<Rightarrow> utext \<Rightarrow> nat \<Rightarrow> int option \<Rightarrow> bool \<Rightarrow> pool_snapshot_row list" where
  "searchPoolSnapshot d query limit industry includeUnclassified =
     take limit (pool_order
       (filter (\<lambda>r. like (37 # escapeLikePattern query @ [37]) (ps_name r) \<and>
                    industry_filter industry includeUnclassified r)
          (distribution_pool_snapshot d)))"

definition listPoolSnapshotNames :: "db \<Rightarrow> nat \<Rightarrow> int option \<Rightarrow> bool \<Rightarrow> utext list" where
  "listPoolSnapshotNames d limit industry includeUnclassified =
     take (max 1 limit) (rev (remdups (rev (filter (\<lambda>n. n \<noteq> [])
       (map ps_name (pool_order
          (filter (industry_filter industry includeUnclassified) (distribution_pool_snapshot d))))))))"

definition poolSnapshotStats :: "db \<Rightarrow> int \<times> instant option" where
  "poolSnapshotStats d =
     (count_where (\<lambda>_. True) (distribution_pool_snapshot d),
      max_where (\<lambda>_. True) ps_fetched_at (distribution_pool_snapshot d))"

definition isSnapshotStale :: "int \<times> instant option \<Rightarrow> instant \<Rightarrow> bool" where
  "isSnapshotStale stats nowMs =
     (fst stats = 0 \<or> (case snd stats of None \<Rightarrow> True | Some t \<Rightarrow> nowMs - t > 24 * 60 * 60 * 1000))"

section \<open>Facts\<close>

lemma add_new_ids:
  "pi_distinct = (\<lambda>xs. distinct (map it_resourceId xs)) \<Longrightarrow> pi_distinct acc \<Longrightarrow> pi_distinct (add_new acc items)"
  by (induction acc items rule: add_new.induct) auto

lemma collect_pages_distinct:
  assumes "distinct (map it_resourceId acc)"
    and "collect_pages fetchPage kind page expected acc left = Inr items"
  shows "distinct (map it_resourceId items)"
  using assms
proof (induction fetchPage kind page expected acc left rule: collect_pages.induct)
  case (2 fetchPage kind page expected acc left)
  then obtain result where res: "fetch_with_retry fetchPage kind page = Some result"
    by (auto split: option.splits)
  have "distinct (map it_resourceId (add_new acc (pg_items result)))"
    using add_new_ids [OF refl "2.prems"(1)] by simp
  with 2 res show ?case by (auto simp: Let_def split: if_splits)
qed simp

lemma insert_rows_ok:
  assumes "distinct (map snapshot_key rows)" and "distinct (map snapshot_key rs)"
    and "snapshot_key ` set rows \<inter> snapshot_key ` set rs = {}"
  shows "insert_rows rows rs = Inr (rows @ rs)"
  using assms
proof (induction rs arbitrary: rows)
  case (Cons r rs)
  then have "insert_row snapshot_key r rows = Inr (rows @ [r])" by (auto simp: insert_row_def)
  moreover have "insert_rows (rows @ [r]) rs = Inr ((rows @ [r]) @ rs)"
    by (rule Cons.IH) (use Cons.prems in auto)
  ultimately show ?case by simp
qed simp

lemma snapshot_row_simps [simp]:
  "ps_kind (snapshot_row kind t item) = kind"
  "snapshot_key (snapshot_row kind t item) = (kind, it_resourceId item)"
  by (simp_all add: snapshot_row_def snapshot_key_def)

lemma distinct_snapshot_rows:
  "distinct (map it_resourceId items) \<Longrightarrow> distinct (map snapshot_key (map (snapshot_row kind t) items))"
  by (auto simp: distinct_map inj_on_def)

lemma distinct_replaced:
  assumes "distinct (map snapshot_key rows)" and "distinct (map it_resourceId items)"
  shows "distinct (map snapshot_key (filter (\<lambda>r. ps_kind r \<noteq> kind) rows @ map (snapshot_row kind t) items))"
proof -
  have "snapshot_key ` set (filter (\<lambda>r. ps_kind r \<noteq> kind) rows) \<inter>
      snapshot_key ` set (map (snapshot_row kind t) items) = {}"
    by (auto simp: snapshot_key_def)
  then show ?thesis
    using assms distinct_snapshot_rows [OF assms(2), of kind t]
    unfolding map_append distinct_append set_map by (simp add: distinct_map_filter)
qed

lemma replacePoolSnapshot_ok:
  assumes "distinct (map snapshot_key (distribution_pool_snapshot d))"
    and "distinct (map it_resourceId items)"
  shows "replacePoolSnapshot kind items t d =
    Inr (d\<lparr>distribution_pool_snapshot :=
      filter (\<lambda>r. ps_kind r \<noteq> kind) (distribution_pool_snapshot d) @ map (snapshot_row kind t) items\<rparr>, ())"
proof -
  have "insert_rows (filter (\<lambda>r. ps_kind r \<noteq> kind) (distribution_pool_snapshot d))
      (map (snapshot_row kind t) items) =
      Inr (filter (\<lambda>r. ps_kind r \<noteq> kind) (distribution_pool_snapshot d) @ map (snapshot_row kind t) items)"
    by (rule insert_rows_ok)
      (use distinct_replaced [OF assms, of kind t] in \<open>simp_all only: map_append distinct_append set_map\<close>)
  then show ?thesis by (simp add: replacePoolSnapshot_def)
qed


definition demo_page :: page_source where
  "demo_page kind page attempt =
     (if attempt < 2 then None
      else Some \<lparr>pg_total = 1, pg_items = [\<lparr>it_resourceId = 5, it_name = [65], it_domain = [],
        it_priceCents = 100, it_status = Some 2, it_geoCount = 0, it_categoryCode = None,
        it_platform = None, it_fansNumber = None\<rparr>]\<rparr>)"


lemma like_percent: "like (37 # ps) t \<longleftrightarrow> (\<exists>u v. t = u @ v \<and> like ps v)"
proof (induction t)
  case Nil
  then show ?case by simp
next
  case (Cons c t)
  have "like (37 # ps) (c # t) \<longleftrightarrow> like ps (c # t) \<or> like (37 # ps) t" by simp
  also have "\<dots> \<longleftrightarrow> like ps (c # t) \<or> (\<exists>u v. t = u @ v \<and> like ps v)" using Cons by simp
  also have "\<dots> \<longleftrightarrow> (\<exists>u v. c # t = u @ v \<and> like ps v)"
    by (auto simp: Cons_eq_append_conv)
  finally show ?case .
qed

lemma like_escaped:
  "like (escapeLikePattern q @ ps) t \<longleftrightarrow>
     (\<exists>u v. t = u @ v \<and> map ascii_fold u = map ascii_fold q \<and> like ps v)"
proof (induction q arbitrary: t)
  case Nil
  then show ?case by (simp add: escapeLikePattern_def)
next
  case (Cons c q)
  have one: "like (escapeLikePattern (c # q) @ ps) t \<longleftrightarrow>
      (\<exists>x t'. t = x # t' \<and> ascii_fold x = ascii_fold c \<and> like (escapeLikePattern q @ ps) t')"
    by (cases t) (auto simp: escapeLikePattern_def)
  show ?case
  proof
    assume "like (escapeLikePattern (c # q) @ ps) t"
    then obtain x t' where t: "t = x # t'" "ascii_fold x = ascii_fold c" "like (escapeLikePattern q @ ps) t'"
      unfolding one by blast
    from t(3) obtain u v where "t' = u @ v" "map ascii_fold u = map ascii_fold q" "like ps v"
      unfolding Cons.IH by blast
    with t show "\<exists>u v. t = u @ v \<and> map ascii_fold u = map ascii_fold (c # q) \<and> like ps v"
      by (intro exI [of _ "x # u"] exI [of _ v]) simp
  next
    assume "\<exists>u v. t = u @ v \<and> map ascii_fold u = map ascii_fold (c # q) \<and> like ps v"
    then obtain u v where uv: "t = u @ v" "map ascii_fold u = map ascii_fold (c # q)" "like ps v" by blast
    then obtain x u' where "u = x # u'" "ascii_fold x = ascii_fold c" "map ascii_fold u' = map ascii_fold q"
      by auto
    with uv show "like (escapeLikePattern (c # q) @ ps) t"
      unfolding one Cons.IH by auto
  qed
qed

lemma like_all: "like [37] t"
  by (induction t) auto

text \<open>
  The pool search really is a literal contains: for every query, with whatever percent signs,
  underscores and backslashes it has, the escaped pattern matches a name exactly when the query
  occurs in the name up to the case of ASCII letters.
\<close>

theorem search_pattern_contains:
  "like (37 # escapeLikePattern query @ [37]) name \<longleftrightarrow>
     text_includes (map ascii_fold name) (map ascii_fold query)"
proof -
  have "like (37 # escapeLikePattern query @ [37]) name \<longleftrightarrow>
      (\<exists>p u s. name = p @ u @ s \<and> map ascii_fold u = map ascii_fold query)"
    unfolding like_percent [of "escapeLikePattern query @ [37]"] like_escaped
    by (simp only: like_all simp_thms) blast
  also have "\<dots> \<longleftrightarrow> (\<exists>p s. map ascii_fold name = p @ map ascii_fold query @ s)" (is "?L \<longleftrightarrow> ?R")
  proof
    assume ?L
    then obtain p u s where pus: "name = p @ u @ s" and u: "map ascii_fold u = map ascii_fold query" by blast
    have "map ascii_fold name = map ascii_fold p @ map ascii_fold query @ map ascii_fold s"
      by (simp add: pus u)
    then show ?R by blast
  next
    assume ?R
    then obtain p s where "map ascii_fold name = p @ map ascii_fold query @ s" by blast
    then obtain n1 n2 where n: "name = n1 @ n2" "map ascii_fold n2 = map ascii_fold query @ s"
      unfolding map_eq_append_conv [of ascii_fold name] by auto
    then obtain n3 n4 where "n2 = n3 @ n4" "map ascii_fold n3 = map ascii_fold query"
      unfolding map_eq_append_conv [of ascii_fold n2] by auto
    with n(1) show ?L by blast
  qed
  finally show ?thesis by (simp add: text_includes_iff)
qed

end
