(* ===== verification/OrderRoutes.thy ===== *)
theory OrderRoutes
  imports PoolSnapshot
begin

text \<open>
  The order routes of \<open>backend/src/http/provider-proxy-routes.ts\<close> and the callback of
  \<open>backend/src/http/distribution-callback-routes.ts\<close>. A handler runs to its next \<open>await\<close> without
  interruption, so each handler is cut into segments at its upstream calls: a segment maps the
  database and the upstream's answer to the new database and either the reply or the next call.
  Other requests may run between two segments; theory \<open>System\<close> puts the interleaving together.
\<close>

section \<open>Placing an order\<close>

datatype order_reply =
    ReplyOrder "publish_order_row option" bool nat
  | ReplyUpstream nat
  | ReplyError app_error

datatype order_wait = WaitResource | WaitPlace bool | WaitReconcile bool nat

datatype order_next = Done order_reply | Await order_wait

definition utf16_length :: "utext \<Rightarrow> nat" where
  "utf16_length t = sum_list (map (\<lambda>c. if c \<ge> 65536 then 2 else 1) t)"

definition in_range :: "int \<Rightarrow> int \<Rightarrow> int option \<Rightarrow> bool" where
  "in_range lo hi v \<longleftrightarrow> (case v of None \<Rightarrow> True | Some x \<Rightarrow> lo \<le> x \<and> x \<le> hi)"

definition orderSnSchema :: "string \<Rightarrow> bool" where
  "orderSnSchema s \<longleftrightarrow> 8 \<le> length s \<and> length s \<le> 64 \<and> list_all id_char s"

text \<open>The URL test of the schema library is the parameter \<open>valid_url\<close>.\<close>

definition placeOrderSchema :: "(string \<Rightarrow> bool) \<Rightarrow> place_order_input \<Rightarrow> bool" where
  "placeOrderSchema valid_url b \<longleftrightarrow>
     orderSnSchema (oi_sn b) \<and>
     1 \<le> length (oi_executionId b) \<and> length (oi_executionId b) \<le> 160 \<and>
     1 \<le> length (oi_itemId b) \<and> length (oi_itemId b) \<le> 160 \<and> 1 \<le> oi_resourceId b \<and>
     1 \<le> utf16_length (oi_title b) \<and> utf16_length (oi_title b) \<le> 200 \<and>
     valid_url (oi_contentUrl b) \<and> length (oi_contentUrl b) \<le> 2000 \<and>
     (case oi_remark b of None \<Rightarrow> True | Some t \<Rightarrow> utf16_length t \<le> 500) \<and>
     (case oi_owner b of None \<Rightarrow> True | Some t \<Rightarrow> utf16_length t \<le> 100) \<and>
     in_range 1 2 (oi_publishForm b) \<and> in_range 1 3 (oi_publishType b) \<and>
     in_range 2 3 (oi_accountRule b) \<and>
     1 \<le> oi_perArticleMaxPoints b \<and> oi_perArticleMaxPoints b \<le> 160000000 \<and>
     1 \<le> oi_executionMaxPoints b \<and> oi_executionMaxPoints b \<le> 160000000"

definition we_media_fields :: "place_order_input \<Rightarrow> bool" where
  "we_media_fields b \<longleftrightarrow>
     oi_kind b = WeMedia \<longrightarrow>
       oi_publishForm b \<noteq> None \<and> oi_publishType b \<noteq> None \<and> oi_accountRule b \<noteq> None"

text \<open>The server's price replaces whatever the request carries.\<close>

definition order_priced :: "string \<Rightarrow> place_order_input \<Rightarrow> int \<Rightarrow> instant \<Rightarrow> db \<Rightarrow> db \<times> order_next" where
  "order_priced accountId b cents now d =
     (case beginPublishOrder accountId (b\<lparr>oi_mediaPriceCents := cents\<rparr>) now d of
        (d1, Inl e) \<Rightarrow> (d1, Done (ReplyError e))
      | (d1, Inr (order, phase)) \<Rightarrow>
          if phase = ReplayPlaced \<or> phase = ReplayPending
          then (d1, Done (ReplyOrder (Some order) False 200))
          else (d1, Await (WaitPlace (phase = CreatedPhase))))"

definition order_start ::
  "(string \<Rightarrow> bool) \<Rightarrow> string \<Rightarrow> place_order_input \<Rightarrow> instant \<Rightarrow> db \<Rightarrow> db \<times> order_next" where
  "order_start valid_url accountId b now d =
     (if \<not> placeOrderSchema valid_url b \<or> \<not> we_media_fields b
      then (d, Done (ReplyError (AppError ''validation_error'' 400 [])))
      else case readDistributionResourceCache d (oi_kind b) (oi_resourceId b) of
             None \<Rightarrow> (d, Await WaitResource)
           | Some cached \<Rightarrow> order_priced accountId b (rc_price_cents cached) now d)"

definition cache_row :: "publish_order_kind \<Rightarrow> resource_snapshot \<Rightarrow> instant \<Rightarrow> resource_cache_row" where
  "cache_row kind r now =
     \<lparr>rc_kind = kind, rc_resource_id = rs_id r, rc_name = rs_name r,
      rc_price_cents = rs_priceCents r, rc_status = rs_status r, rc_fetched_at = now\<rparr>"

definition order_resource ::
  "string \<Rightarrow> place_order_input \<Rightarrow> http_outcome \<Rightarrow> instant \<Rightarrow> db \<Rightarrow> db \<times> order_next" where
  "order_resource accountId b h now d =
     (case queryResource (oi_resourceId b) h of
        Inl e \<Rightarrow> (d, Done (ReplyError e))
      | Inr (CallFail s) \<Rightarrow> (d, Done (ReplyUpstream s))
      | Inr (CallOk None) \<Rightarrow> (d, Done (ReplyError (AppError ''resource_not_found'' 404 [])))
      | Inr (CallOk (Some r)) \<Rightarrow>
          let d1 = upsertDistributionResourceCache (cache_row (oi_kind b) r now) d
          in case readDistributionResourceCache d1 (oi_kind b) (oi_resourceId b) of
               None \<Rightarrow> (d1, Done (ReplyError (AppError ''internal_error'' 500 [])))
             | Some cached \<Rightarrow> order_priced accountId b (rc_price_cents cached) now d1)"

definition order_usage :: "publish_order_kind \<Rightarrow> string" where
  "order_usage kind =
     (case kind of Media \<Rightarrow> ''distribution.media_order'' | WeMedia \<Rightarrow> ''distribution.we-media_order'')"

definition reply_with_usage ::
  "string \<Rightarrow> string \<Rightarrow> instant \<Rightarrow> string \<Rightarrow> order_reply \<Rightarrow> db \<Rightarrow> db \<times> order_next" where
  "reply_with_usage accountId route now uuid reply d =
     (case recordProviderUsage accountId ''distribution'' route None None now uuid d of
        Inl e \<Rightarrow> (d, Done (ReplyError e)) | Inr d1 \<Rightarrow> (d1, Done reply))"

definition created_status :: "bool \<Rightarrow> nat" where
  "created_status created = (if created then 201 else 200)"

text \<open>The answer to the placement: a thrown network error leaves the pending order as it is.\<close>

definition order_placed ::
  "string \<Rightarrow> place_order_input \<Rightarrow> bool \<Rightarrow> http_outcome \<Rightarrow> instant \<Rightarrow> string \<Rightarrow> db \<Rightarrow> db \<times> order_next" where
  "order_placed accountId b created h now uuid d =
     (case placeOrder h of
        Inl e \<Rightarrow> (d, Done (ReplyError e))
      | Inr (CallOk partnerSn) \<Rightarrow>
          (case completePublishOrder (oi_sn b) (Some partnerSn) now d of
             (d1, Inl e) \<Rightarrow> (d1, Done (ReplyError e))
           | (d1, Inr order) \<Rightarrow>
               reply_with_usage accountId (order_usage (oi_kind b)) now uuid
                 (ReplyOrder (Some order) created (created_status created)) d1)
      | Inr (CallFail s) \<Rightarrow> (d, Await (WaitReconcile created s)))"

text \<open>The reconciling query after a refused placement.\<close>

definition order_reconciled ::
  "string \<Rightarrow> place_order_input \<Rightarrow> bool \<Rightarrow> nat \<Rightarrow> http_outcome \<Rightarrow> instant \<Rightarrow> string \<Rightarrow> string \<Rightarrow> db \<Rightarrow>
   db \<times> order_next" where
  "order_reconciled accountId b created s h now uuid uuid' d =
     (case queryOrders h of
        Inl e \<Rightarrow> (d, Done (ReplyError e))
      | Inr (CallFail s') \<Rightarrow> (d, Done (ReplyUpstream s'))
      | Inr (CallOk snapshots) \<Rightarrow>
          (case List.find (\<lambda>x. os_sn x = oi_sn b) snapshots of
             Some found \<Rightarrow>
               (case completePublishOrder (oi_sn b) None now d of
                  (d1, Inl e) \<Rightarrow> (d1, Done (ReplyError e))
                | (d1, Inr _) \<Rightarrow>
                    (case applyPublishOrderStatus found now uuid d1 of
                       (d2, Inl e) \<Rightarrow> (d2, Done (ReplyError e))
                     | (d2, Inr applied) \<Rightarrow>
                         reply_with_usage accountId (order_usage (oi_kind b)) now uuid'
                           (ReplyOrder applied created (created_status created)) d2))
           | None \<Rightarrow>
               (case failPublishOrder (oi_sn b) now d of
                  (d1, Inl e) \<Rightarrow> (d1, Done (ReplyError e))
                | (d1, Inr _) \<Rightarrow> (d1, Done (ReplyUpstream s)))))"

section \<open>Querying orders and the callback\<close>

text \<open>
  The loop over the returned snapshots: each is its own transaction, a thrown error ends the loop.
  The result counts the orders that were known here.
\<close>

fun apply_statuses :: "(order_snapshot \<times> string) list \<Rightarrow> instant \<Rightarrow> db \<Rightarrow> db \<times> nat result" where
  "apply_statuses [] now d = (d, Inr 0)"
| "apply_statuses ((s, uuid) # rest) now d =
     (case applyPublishOrderStatus s now uuid d of
        (d1, Inl e) \<Rightarrow> (d1, Inl e)
      | (d1, Inr r) \<Rightarrow>
          (case apply_statuses rest now d1 of
             (d2, Inl e) \<Rightarrow> (d2, Inl e)
           | (d2, Inr n) \<Rightarrow> (d2, Inr (n + (if r = None then 0 else 1)))))"

text \<open>The ids of the ledger entries that the loop may write, one per snapshot.\<close>

definition with_ids :: "order_snapshot list \<Rightarrow> (nat \<Rightarrow> string) \<Rightarrow> (order_snapshot \<times> string) list" where
  "with_ids snapshots uuids = zip snapshots (map uuids [0 ..< length snapshots])"

fun owned_all :: "db \<Rightarrow> string \<Rightarrow> publish_order_kind \<Rightarrow> string list \<Rightarrow> unit result" where
  "owned_all d accountId kind [] = Inr ()"
| "owned_all d accountId kind (sn # sns) =
     bind_result (requireOwnedPublishOrder d accountId sn kind) (\<lambda>_. owned_all d accountId kind sns)"

definition query_start :: "string \<Rightarrow> publish_order_kind \<Rightarrow> string list \<Rightarrow> db \<Rightarrow> unit result" where
  "query_start accountId kind sns d =
     (if sns = [] \<or> length sns > 20 then fail ''validation_error'' 400
      else owned_all d accountId kind sns)"

definition query_usage :: "publish_order_kind \<Rightarrow> string" where
  "query_usage kind = order_usage kind @ ''_query''"

definition query_answered ::
  "string \<Rightarrow> publish_order_kind \<Rightarrow> http_outcome \<Rightarrow> instant \<Rightarrow> (nat \<Rightarrow> string) \<Rightarrow> string \<Rightarrow> db \<Rightarrow>
   db \<times> (nat + order_reply)" where
  "query_answered accountId kind h now uuids uuid d =
     (case queryOrders h of
        Inl e \<Rightarrow> (d, Inr (ReplyError e))
      | Inr (CallFail s) \<Rightarrow> (d, Inr (ReplyUpstream s))
      | Inr (CallOk snapshots) \<Rightarrow>
          (case apply_statuses (with_ids snapshots uuids) now d of
             (d1, Inl e) \<Rightarrow> (d1, Inr (ReplyError e))
           | (d1, Inr n) \<Rightarrow>
               (case recordProviderUsage accountId ''distribution'' (query_usage kind) None None now uuid d1 of
                  Inl e \<Rightarrow> (d1, Inr (ReplyError e)) | Inr d2 \<Rightarrow> (d2, Inl 200))))"

text \<open>Urge, cancel, refund and republish requests only pass through, once the order is owned.\<close>

datatype order_action = Urge | Cancel | ApplyRefund | ApplyRepublish

definition action_name :: "order_action \<Rightarrow> string" where
  "action_name a = (case a of Urge \<Rightarrow> ''urge'' | Cancel \<Rightarrow> ''cancel'' | ApplyRefund \<Rightarrow> ''apply_refund''
     | ApplyRepublish \<Rightarrow> ''apply_republish'')"

definition action_start ::
  "order_action \<Rightarrow> string \<Rightarrow> publish_order_kind \<Rightarrow> string \<Rightarrow> utext option \<Rightarrow> db \<Rightarrow> publish_order_row result" where
  "action_start action accountId kind sn reason d =
     (if action = ApplyRepublish \<and> kind \<noteq> Media then fail ''action_not_supported'' 400
      else if \<not> orderSnSchema sn \<or>
              (action = Cancel \<or> action = ApplyRefund) \<and>
                (case reason of None \<Rightarrow> True | Some t \<Rightarrow> utf16_length t < 1 \<or> utf16_length t > 500)
      then fail ''validation_error'' 400
      else requireOwnedPublishOrder d accountId sn kind)"

definition action_answered ::
  "order_action \<Rightarrow> string \<Rightarrow> publish_order_kind \<Rightarrow> http_outcome \<Rightarrow> instant \<Rightarrow> string \<Rightarrow> db \<Rightarrow>
   db \<times> (nat + order_reply)" where
  "action_answered action accountId kind h now uuid d =
     (case orderAction h of
        Inl e \<Rightarrow> (d, Inr (ReplyError e))
      | Inr (CallFail s) \<Rightarrow> (d, Inr (ReplyUpstream s))
      | Inr (CallOk _) \<Rightarrow>
          (case recordProviderUsage accountId ''distribution''
                  (order_usage kind @ ''_'' @ action_name action) None None now uuid d of
             Inl e \<Rightarrow> (d, Inr (ReplyError e)) | Inr d1 \<Rightarrow> (d1, Inl 200)))"

text \<open>
  The two events of the callback after its signature was accepted. A resource event refreshes the
  price cache and the pool row, or drops both; an order event drives the order state machine.
\<close>

definition callback_resource ::
  "publish_order_kind \<Rightarrow> int \<Rightarrow> http_outcome \<Rightarrow> instant \<Rightarrow> db \<Rightarrow> db \<times> bool result" where
  "callback_resource kind resourceId h now d =
     (if resourceId \<le> 0 then (d, fail ''validation_error'' 400)
      else case queryResource resourceId h of
        Inl e \<Rightarrow> (d, Inl e)
      | Inr (CallOk (Some r)) \<Rightarrow>
          (applyPoolSnapshotRefUpdate kind (rs_id r) (Some r)
             (upsertDistributionResourceCache (cache_row kind r now) d), Inr True)
      | Inr (CallOk None) \<Rightarrow>
          (applyPoolSnapshotRefUpdate kind resourceId None
             (fst (invalidateDistributionResourceCache kind resourceId d)), Inr False)
      | Inr (CallFail s) \<Rightarrow>
          (fst (invalidateDistributionResourceCache kind resourceId d),
           fail ''upstream_unavailable'' 502))"

definition callback_order ::
  "string \<Rightarrow> http_outcome \<Rightarrow> instant \<Rightarrow> (nat \<Rightarrow> string) \<Rightarrow> db \<Rightarrow> db \<times> bool result" where
  "callback_order sn h now uuids d =
     (if sn = [] then (d, fail ''validation_error'' 400)
      else case queryOrders h of
        Inl e \<Rightarrow> (d, Inl e)
      | Inr (CallFail s) \<Rightarrow> (d, fail ''upstream_unavailable'' 502)
      | Inr (CallOk snapshots) \<Rightarrow>
          (case apply_statuses (with_ids snapshots uuids) now d of
             (d1, Inl e) \<Rightarrow> (d1, Inl e) | (d1, Inr n) \<Rightarrow> (d1, Inr (n > 0))))"

section \<open>Invariants of the segments\<close>

text \<open>Cached prices are never negative, so neither are the points of an order.\<close>

definition cache_ok :: "db \<Rightarrow> bool" where
  "cache_ok d \<longleftrightarrow> (\<forall>r \<in> set (distribution_resource_cache d). 0 \<le> rc_price_cents r)"

definition gateway_inv :: "db \<Rightarrow> bool" where
  "gateway_inv d \<longleftrightarrow> backend_inv d \<and> cache_ok d"

definition placements :: "db \<Rightarrow> string \<Rightarrow> placement_status option" where
  "placements d sn = map_option po_placement_status (findPublishOrderBySn d sn)"

text \<open>Tables outside the billing core do not matter to it.\<close>

lemma backend_inv_cong:
  assumes "accounts d' = accounts d" "ledger_entries d' = ledger_entries d"
    "billing_permits d' = billing_permits d" "permit_unit_reports d' = permit_unit_reports d"
    "publish_orders d' = publish_orders d"
  shows "backend_inv d' = backend_inv d"
proof -
  have "findAccountById d' i = findAccountById d i" for i using assms by (simp add: findAccountById_def)
  moreover have "entries_of d' i = entries_of d i" for i using assms by (simp add: entries_of_def)
  ultimately show ?thesis
    using assms
    by (simp add: backend_inv_def billing_inv_def orders_ok_def permits_ok_def ledger_ok_def solvent_def
        books_balanced_def frozenPointsFor_def spend_sum_def permit_spent_def order_spent_def)
qed

lemma placements_cong: "publish_orders d' = publish_orders d \<Longrightarrow> placements d' = placements d"
  by (simp add: placements_def findPublishOrderBySn_def fun_eq_iff)

lemma upsert_frame:
  "backend_inv (upsertDistributionResourceCache row d) = backend_inv d"
  "placements (upsertDistributionResourceCache row d) = placements d"
  by (rule backend_inv_cong placements_cong; simp add: upsertDistributionResourceCache_def)+

lemma invalidate_frame:
  "backend_inv (fst (invalidateDistributionResourceCache kind i d)) = backend_inv d"
  "placements (fst (invalidateDistributionResourceCache kind i d)) = placements d"
  by (rule backend_inv_cong placements_cong; simp add: invalidateDistributionResourceCache_def)+

lemma pool_update_frame:
  "gateway_inv (applyPoolSnapshotRefUpdate kind i u d) = gateway_inv d"
  "placements (applyPoolSnapshotRefUpdate kind i u d) = placements d"
proof -
  have "backend_inv (applyPoolSnapshotRefUpdate kind i u d) = backend_inv d"
    by (rule backend_inv_cong) (simp_all add: applyPoolSnapshotRefUpdate_def split: option.splits)
  moreover have "cache_ok (applyPoolSnapshotRefUpdate kind i u d) = cache_ok d"
    by (simp add: cache_ok_def applyPoolSnapshotRefUpdate_def split: option.splits)
  ultimately show "gateway_inv (applyPoolSnapshotRefUpdate kind i u d) = gateway_inv d"
    by (simp add: gateway_inv_def)
  show "placements (applyPoolSnapshotRefUpdate kind i u d) = placements d"
    by (rule placements_cong) (simp add: applyPoolSnapshotRefUpdate_def split: option.splits)
qed

lemma cache_ok_upsert:
  "cache_ok d \<Longrightarrow> 0 \<le> rc_price_cents row \<Longrightarrow> cache_ok (upsertDistributionResourceCache row d)"
  by (auto simp: cache_ok_def upsertDistributionResourceCache_def set_update_rows overwrite_cache_row_def)

lemma recordProviderUsage_Inr:
  assumes "recordProviderUsage a p r it ot now uuid d = Inr d'"
  shows "gateway_inv d' = gateway_inv d" and "placements d' = placements d"
proof -
  obtain rows where d': "d' = d\<lparr>provider_usage_records := rows\<rparr>"
    using assms by (auto simp: recordProviderUsage_def bind_result_Inr_iff split: if_split_asm)
  have "backend_inv d' = backend_inv d" by (rule backend_inv_cong) (simp_all add: d')
  then show "gateway_inv d' = gateway_inv d" by (simp add: gateway_inv_def cache_ok_def d')
  show "placements d' = placements d" by (rule placements_cong) (simp add: d')
qed

lemma reply_with_usage_frame:
  assumes "reply_with_usage a route now uuid reply d = (d', n)"
  shows "gateway_inv d' = gateway_inv d" and "placements d' = placements d"
    and "\<exists>r. n = Done r"
  using assms by (auto simp: reply_with_usage_def recordProviderUsage_Inr split: sum.split_asm)

lemma cache_ok_cong: "distribution_resource_cache d' = distribution_resource_cache d \<Longrightarrow> cache_ok d' = cache_ok d"
  by (simp add: cache_ok_def)

lemma posted_cache: "cache_ok (posted a delta k n now u d) = cache_ok d"
  by (simp add: cache_ok_def)

lemma update_order_cache [simp]: "cache_ok (update_order sn u d) = cache_ok d"
  by (simp add: cache_ok_def update_order_def)

text \<open>Beginning an order is possible only when no placement of it is under way.\<close>

lemma begin_order_segment:
  assumes inv: "gateway_inv d" and price: "0 \<le> oi_mediaPriceCents input"
    and run: "beginPublishOrder a input now d = (d', r)"
  shows "gateway_inv d'"
    and "r = Inr (q, phase) \<Longrightarrow> phase \<noteq> ReplayPlaced \<Longrightarrow> phase \<noteq> ReplayPending \<Longrightarrow>
      placements d' = (placements d)(oi_sn input \<mapsto> Pending) \<and> placements d (oi_sn input) \<noteq> Some Pending"
    and "(\<exists>e. r = Inl e) \<or> (\<exists>q. r = Inr (q, ReplayPlaced) \<or> r = Inr (q, ReplayPending)) \<Longrightarrow> d' = d"
proof -
  have body: "\<exists>e. r = Inl e \<and> d' = d \<or> (\<exists>q phase. r = Inr (q, phase) \<and>
      begin_order_body a input now d = Inr (d', q, phase))"
    using run unfolding beginPublishOrder_def
    by (cases r) (auto dest: transaction_InlD transaction_InrD)
  have cache: "cache_ok d'" if "begin_order_body a input now d = Inr (d', q, phase)" for q phase
    using that
  proof (cases rule: begin_order_body_Inr)
    case replay
    with inv show ?thesis by (simp add: gateway_inv_def)
  next
    case (retry old)
    with inv show ?thesis by (simp add: gateway_inv_def)
  next
    case created
    with inv show ?thesis by (simp add: gateway_inv_def cache_ok_def)
  qed
  show "gateway_inv d'"
    using body inv cache backend_inv_begin [OF _ price] by (auto simp: gateway_inv_def)
  show "placements d' = (placements d)(oi_sn input \<mapsto> Pending) \<and> placements d (oi_sn input) \<noteq> Some Pending"
    if "r = Inr (q, phase)" "phase \<noteq> ReplayPlaced" "phase \<noteq> ReplayPending"
  proof -
    have "begin_order_body a input now d = Inr (d', q, phase)" using body that(1) by auto
    then show ?thesis
    proof (cases rule: begin_order_body_Inr)
      case replay
      with that show ?thesis by auto
    next
      case (retry old)
      then show ?thesis
        by (simp add: placements_def fun_eq_iff retry_upd.find_updated retry_order_row_def)
    next
      case created
      then show ?thesis
        by (simp add: placements_def fun_eq_iff findPublishOrderBySn_def find_row_append new_order_def
            split: option.split)
    qed
  qed
  show "d' = d" if "(\<exists>e. r = Inl e) \<or> (\<exists>q. r = Inr (q, ReplayPlaced) \<or> r = Inr (q, ReplayPending))"
    using body that by (auto elim: begin_order_body_Inr)
qed

lemma complete_order_segment:
  assumes inv: "gateway_inv d" and run: "completePublishOrder sn p now d = (d', r)"
  shows "gateway_inv d'"
    and "placements d' = placements d \<or> placements d' = (placements d)(sn \<mapsto> Placed)"
    and "r = Inr q \<Longrightarrow> placements d' sn = Some Placed"
proof -
  have body: "(\<exists>e. r = Inl e) \<and> d' = d \<or>
      (\<exists>q. r = Inr q \<and> complete_order_body sn p now d = Inr (d', q))"
    using run unfolding completePublishOrder_def
    by (cases r) (auto dest: transaction_InlD transaction_InrD)
  have eff: "d' = update_order sn (complete_order_row p now) d \<and> findPublishOrderBySn d sn \<noteq> None"
    if "complete_order_body sn p now d = Inr (d', q)" for q
    using that
    by (auto simp: complete_order_body_def bind_result_Inr_iff read_order_back_Inr complete_upd.find_updated)
  show "gateway_inv d'"
    using body inv eff backend_inv_complete by (fastforce simp: gateway_inv_def)
  have upd: "placements (update_order sn (complete_order_row p now) d) = (placements d)(sn \<mapsto> Placed)"
    if "findPublishOrderBySn d sn \<noteq> None"
    using that by (auto simp: placements_def fun_eq_iff complete_upd.find_updated complete_order_row_def)
  then show "placements d' = placements d \<or> placements d' = (placements d)(sn \<mapsto> Placed)"
    using body eff by auto
  show "placements d' sn = Some Placed" if "r = Inr q"
    using body that eff upd by auto
qed

lemma fail_order_segment:
  assumes inv: "gateway_inv d" and run: "failPublishOrder sn now d = (d', r)"
  shows "gateway_inv d'"
    and "placements d' = placements d \<or> placements d' = (placements d)(sn \<mapsto> Failed)"
    and "r = Inr q \<Longrightarrow> placements d sn = Some Pending \<Longrightarrow> placements d' sn = Some Failed"
proof -
  have body: "(\<exists>e. r = Inl e) \<and> d' = d \<or> (\<exists>q. r = Inr q \<and> fail_order_body sn now d = Inr (d', q))"
    using run unfolding failPublishOrder_def
    by (cases r) (auto dest: transaction_InlD transaction_InrD)
  have eff: "\<exists>order. findPublishOrderBySn d sn = Some order \<and>
      d' = (if po_placement_status order = Pending then update_order sn (fail_order_row now) d else d)"
    if "fail_order_body sn now d = Inr (d', q)" for q
    using that by (auto simp: fail_order_body_def bind_result_Inr_iff read_order_back_Inr split: option.split_asm)
  show "gateway_inv d'"
    using body inv eff backend_inv_fail by (fastforce simp: gateway_inv_def split: if_splits)
  have upd: "placements (update_order sn (fail_order_row now) d) = (placements d)(sn \<mapsto> Failed)"
    if "findPublishOrderBySn d sn = Some order" for order
    using that by (auto simp: placements_def fun_eq_iff fail_upd.find_updated fail_order_row_def)
  show "placements d' = placements d \<or> placements d' = (placements d)(sn \<mapsto> Failed)"
    using body eff upd by (metis (full_types))
  show "placements d' sn = Some Failed" if "r = Inr q" "placements d sn = Some Pending"
  proof -
    have "fail_order_body sn now d = Inr (d', q)" using body that(1) by auto
    then obtain order where order: "findPublishOrderBySn d sn = Some order"
      "d' = (if po_placement_status order = Pending then update_order sn (fail_order_row now) d else d)"
      using eff by blast
    with that(2) upd [OF order(1)] show ?thesis by (simp add: placements_def)
  qed
qed

lemma status_segment:
  assumes inv: "gateway_inv d" and run: "applyPublishOrderStatus s now uuid d = (d', r)"
  shows "gateway_inv d'" and "placements d' = placements d"
proof -
  have body: "d' = d \<or> (\<exists>r'. apply_status_body s now uuid d = Inr (d', r'))"
    using run unfolding applyPublishOrderStatus_def
    by (cases r) (auto dest: transaction_InlD transaction_InrD)
  have eff: "cache_ok d' \<and> placements d' = placements d" if "apply_status_body s now uuid d = Inr (d', r')" for r'
    using that
  proof (cases rule: apply_status_body_Inr)
    case unknown
    with inv show ?thesis by (simp add: gateway_inv_def)
  next
    case (known q d1 ledger)
    from known(2) have d1: "cache_ok d1 = cache_ok d" "publish_orders d1 = publish_orders d"
      by (cases rule: order_ledger_step_Inr; simp add: posted_cache)+
    have "findPublishOrderBySn d1 = findPublishOrderBySn d"
      using d1(2) by (simp add: fun_eq_iff findPublishOrderBySn_def)
    then have "placements d' = placements d"
      using known(1)
      by (auto simp: known(3) placements_def fun_eq_iff status_upd.find_updated status_order_row_def)
    with d1(1) inv show ?thesis by (simp add: known(3) gateway_inv_def)
  qed
  show "gateway_inv d'"
    using body inv eff backend_inv_status by (fastforce simp: gateway_inv_def)
  show "placements d' = placements d" using body eff by auto
qed

lemma statuses_segment:
  assumes "gateway_inv d" and "apply_statuses xs now d = (d', r)"
  shows "gateway_inv d' \<and> placements d' = placements d"
  using assms
proof (induction xs now d arbitrary: d' r rule: apply_statuses.induct)
  case (2 s uuid rest now d)
  obtain d1 r1 where one: "applyPublishOrderStatus s now uuid d = (d1, r1)" by fastforce
  note seg = status_segment [OF "2.prems"(1) one]
  show ?case
  proof (cases r1)
    case (Inl e)
    with "2.prems"(2) one seg show ?thesis by simp
  next
    case (Inr x)
    obtain d2 r2 where two: "apply_statuses rest now d1 = (d2, r2)" by fastforce
    have "d' = d2" using "2.prems"(2) one Inr two by (cases r2) auto
    with "2.IH" [OF one [symmetric] Inr seg(1) two] seg(2) show ?thesis by simp
  qed
qed simp

lemma order_priced_segment:
  assumes inv: "gateway_inv d" and price: "0 \<le> cents" and run: "order_priced a b cents now d = (d', n)"
  shows "gateway_inv d'"
    and "(\<exists>r. n = Done r) \<and> d' = d \<or>
      (\<exists>c. n = Await (WaitPlace c)) \<and> placements d' = (placements d)(oi_sn b \<mapsto> Pending) \<and>
      placements d (oi_sn b) \<noteq> Some Pending"
proof -
  obtain d1 r where beg: "beginPublishOrder a (b\<lparr>oi_mediaPriceCents := cents\<rparr>) now d = (d1, r)" by fastforce
  have seg: "gateway_inv d1" using inv _ beg by (rule begin_order_segment(1)) (simp add: price)
  note seg2 = begin_order_segment(2) [OF inv _ beg]
  note seg3 = begin_order_segment(3) [OF inv _ beg]
  have d': "d' = d1" using run beg by (auto simp: order_priced_def split: sum.split_asm if_split_asm)
  with seg show "gateway_inv d'" by simp
  show "(\<exists>r. n = Done r) \<and> d' = d \<or>
      (\<exists>c. n = Await (WaitPlace c)) \<and> placements d' = (placements d)(oi_sn b \<mapsto> Pending) \<and>
      placements d (oi_sn b) \<noteq> Some Pending"
  proof (cases r)
    case (Inl e)
    with run beg seg3 price d' show ?thesis by (auto simp: order_priced_def)
  next
    case (Inr x)
    obtain q phase where x: "x = (q, phase)" by fastforce
    with Inr run beg seg2 [of q phase] seg3 price d' show ?thesis
      by (auto simp: order_priced_def split: if_split_asm)
  qed
qed

text \<open>
  What a segment of the order handler can do to the placements: nothing, mark its own order pending
  when it was not (and then it waits for the placement), or decide its own order and finish.
\<close>

lemma read_cache_price:
  assumes "cache_ok d" and "readDistributionResourceCache d kind i = Some r"
  shows "0 \<le> rc_price_cents r"
  using assms by (auto simp: cache_ok_def readDistributionResourceCache_def dest: find_row_SomeD)

lemma order_start_segment:
  assumes inv: "gateway_inv d" and run: "order_start valid_url a b now d = (d', n)"
  shows "gateway_inv d'"
    and "(\<exists>r. n = Done r) \<and> placements d' = placements d \<or> n = Await WaitResource \<and> d' = d \<or>
      (\<exists>c. n = Await (WaitPlace c)) \<and> placements d' = (placements d)(oi_sn b \<mapsto> Pending) \<and>
      placements d (oi_sn b) \<noteq> Some Pending"
proof -
  consider r where "n = Done r" "d' = d" | "n = Await WaitResource" "d' = d"
    | cached where "readDistributionResourceCache d (oi_kind b) (oi_resourceId b) = Some cached"
        "order_priced a b (rc_price_cents cached) now d = (d', n)"
    using run by (auto simp: order_start_def split: if_split_asm option.split_asm)
  then have "gateway_inv d' \<and>
    ((\<exists>r. n = Done r) \<and> placements d' = placements d \<or> n = Await WaitResource \<and> d' = d \<or>
      (\<exists>c. n = Await (WaitPlace c)) \<and> placements d' = (placements d)(oi_sn b \<mapsto> Pending) \<and>
      placements d (oi_sn b) \<noteq> Some Pending)"
  proof cases
    case (3 cached)
    have "0 \<le> rc_price_cents cached" using inv 3(1) by (auto simp: gateway_inv_def intro: read_cache_price)
    from order_priced_segment [OF inv this 3(2)] show ?thesis by auto
  qed (use inv in simp_all)
  then show "gateway_inv d'"
    and "(\<exists>r. n = Done r) \<and> placements d' = placements d \<or> n = Await WaitResource \<and> d' = d \<or>
      (\<exists>c. n = Await (WaitPlace c)) \<and> placements d' = (placements d)(oi_sn b \<mapsto> Pending) \<and>
      placements d (oi_sn b) \<noteq> Some Pending" by blast+
qed

lemma order_resource_segment:
  assumes inv: "gateway_inv d" and run: "order_resource a b h now d = (d', n)"
  shows "gateway_inv d'"
    and "(\<exists>r. n = Done r) \<and> placements d' = placements d \<or>
      (\<exists>c. n = Await (WaitPlace c)) \<and> placements d' = (placements d)(oi_sn b \<mapsto> Pending) \<and>
      placements d (oi_sn b) \<noteq> Some Pending"
proof -
  let ?d1 = "\<lambda>r. upsertDistributionResourceCache (cache_row (oi_kind b) r now) d"
  consider (plain) r where "n = Done r" "d' = d"
    | (cached) r where "queryResource (oi_resourceId b) h = Inr (CallOk (Some r))"
        "(\<exists>x. n = Done x) \<and> d' = ?d1 r \<or>
         (\<exists>c. readDistributionResourceCache (?d1 r) (oi_kind b) (oi_resourceId b) = Some c \<and>
            order_priced a b (rc_price_cents c) now (?d1 r) = (d', n))"
    using run
    by (auto simp: order_resource_def Let_def split: sum.split_asm call_result.split_asm option.split_asm)
  then have "gateway_inv d' \<and> ((\<exists>r. n = Done r) \<and> placements d' = placements d \<or>
      (\<exists>c. n = Await (WaitPlace c)) \<and> placements d' = (placements d)(oi_sn b \<mapsto> Pending) \<and>
      placements d (oi_sn b) \<noteq> Some Pending)"
  proof cases
    case plain
    with inv show ?thesis by simp
  next
    case (cached r)
    have inv1: "gateway_inv (?d1 r)"
      using inv queryResource_price [OF cached(1)]
      by (simp add: gateway_inv_def upsert_frame cache_ok_upsert cache_row_def)
    from cached(2) show ?thesis
    proof
      assume "(\<exists>x. n = Done x) \<and> d' = ?d1 r"
      with inv1 show ?thesis by (simp add: upsert_frame)
    next
      assume "\<exists>c. readDistributionResourceCache (?d1 r) (oi_kind b) (oi_resourceId b) = Some c \<and>
          order_priced a b (rc_price_cents c) now (?d1 r) = (d', n)"
      then obtain c where c: "readDistributionResourceCache (?d1 r) (oi_kind b) (oi_resourceId b) = Some c"
        "order_priced a b (rc_price_cents c) now (?d1 r) = (d', n)" by blast
      have "0 \<le> rc_price_cents c" using inv1 c(1) by (auto simp: gateway_inv_def intro: read_cache_price)
      from order_priced_segment [OF inv1 this c(2)] show ?thesis by (auto simp: upsert_frame)
    qed
  qed
  then show "gateway_inv d'"
    and "(\<exists>r. n = Done r) \<and> placements d' = placements d \<or>
      (\<exists>c. n = Await (WaitPlace c)) \<and> placements d' = (placements d)(oi_sn b \<mapsto> Pending) \<and>
      placements d (oi_sn b) \<noteq> Some Pending" by blast+
qed

lemma order_placed_segment:
  assumes inv: "gateway_inv d" and run: "order_placed a b c h now uuid d = (d', n)"
  shows "gateway_inv d' \<and> ((\<exists>r. n = Done r) \<and>
      (placements d' = placements d \<or> placements d' = (placements d)(oi_sn b \<mapsto> Placed)) \<or>
      (\<exists>s. n = Await (WaitReconcile c s)) \<and> d' = d)"
proof -
  consider (plain) r where "n = Done r" "d' = d" | (refused) s where "n = Await (WaitReconcile c s)" "d' = d"
    | (broken) p r x where "completePublishOrder (oi_sn b) (Some p) now d = (d', r)" "n = Done x"
    | (ok) p d1 r reply where "completePublishOrder (oi_sn b) (Some p) now d = (d1, r)"
        "reply_with_usage a (order_usage (oi_kind b)) now uuid reply d1 = (d', n)"
    using run
    by (auto simp: order_placed_def split: sum.split_asm call_result.split_asm prod.split_asm)
  then show ?thesis
  proof cases
    case (broken p r x)
    with complete_order_segment(1,2) [OF inv broken(1)] show ?thesis by auto
  next
    case (ok p d1 r reply)
    with complete_order_segment(1,2) [OF inv ok(1)] reply_with_usage_frame [OF ok(2)] show ?thesis by auto
  qed (use inv in auto)
qed

lemma order_reconciled_segment:
  assumes inv: "gateway_inv d" and run: "order_reconciled a b c s h now uuid uuid' d = (d', n)"
  shows "gateway_inv d' \<and> (\<exists>r. n = Done r) \<and>
    (placements d' = placements d \<or> placements d' = (placements d)(oi_sn b \<mapsto> Placed) \<or>
     placements d' = (placements d)(oi_sn b \<mapsto> Failed))"
proof -
  consider (plain) r where "n = Done r" "d' = d"
    | (failed) r x where "failPublishOrder (oi_sn b) now d = (d', r)" "n = Done x"
    | (completed) r x where "completePublishOrder (oi_sn b) None now d = (d', r)" "n = Done x"
    | (broken) d1 r f r2 x where "completePublishOrder (oi_sn b) None now d = (d1, r)"
        "applyPublishOrderStatus f now uuid d1 = (d', r2)" "n = Done x"
    | (applied) d1 r f d2 r2 reply where "completePublishOrder (oi_sn b) None now d = (d1, r)"
        "applyPublishOrderStatus f now uuid d1 = (d2, r2)"
        "reply_with_usage a (order_usage (oi_kind b)) now uuid' reply d2 = (d', n)"
    using run
    by (auto simp: order_reconciled_def split: sum.split_asm call_result.split_asm prod.split_asm
        option.split_asm)
  then show ?thesis
  proof cases
    case (failed r x)
    with fail_order_segment(1,2) [OF inv failed(1)] show ?thesis by auto
  next
    case (completed r x)
    with complete_order_segment(1,2) [OF inv completed(1)] show ?thesis by auto
  next
    case (broken d1 r f r2 x)
    note one = complete_order_segment(1,2) [OF inv broken(1)]
    with status_segment [OF one(1) broken(2)] broken(3) show ?thesis by auto
  next
    case (applied d1 r f d2 r2 reply)
    note one = complete_order_segment(1,2) [OF inv applied(1)]
    with status_segment [OF one(1) applied(2)] reply_with_usage_frame [OF applied(3)] show ?thesis by auto
  qed (use inv in auto)
qed

lemma query_answered_segment:
  assumes inv: "gateway_inv d" and run: "query_answered a kind h now uuids uuid d = (d', r)"
  shows "gateway_inv d' \<and> placements d' = placements d"
proof -
  consider "d' = d"
    | xs r1 where "apply_statuses xs now d = (d', r1)"
    | xs r1 d1 where "apply_statuses xs now d = (d1, r1)"
        "recordProviderUsage a ''distribution'' (query_usage kind) None None now uuid d1 = Inr d'"
    using run by (auto simp: query_answered_def split: sum.split_asm call_result.split_asm prod.split_asm)
  then show ?thesis
    by cases (use inv statuses_segment recordProviderUsage_Inr in \<open>metis+\<close>)
qed

lemma action_answered_segment:
  assumes inv: "gateway_inv d" and run: "action_answered action a kind h now uuid d = (d', r)"
  shows "gateway_inv d' \<and> placements d' = placements d"
  using run inv recordProviderUsage_Inr
  by (auto simp: action_answered_def split: sum.split_asm call_result.split_asm)

lemma callback_order_segment:
  assumes inv: "gateway_inv d" and run: "callback_order sn h now uuids d = (d', r)"
  shows "gateway_inv d' \<and> placements d' = placements d"
proof -
  consider "d' = d" | xs r1 where "apply_statuses xs now d = (d', r1)"
    using run
    by (auto simp: callback_order_def split: if_split_asm sum.split_asm call_result.split_asm prod.split_asm)
  then show ?thesis by cases (use inv statuses_segment in auto)
qed

lemma invalidate_inv: "gateway_inv d \<Longrightarrow> gateway_inv (fst (invalidateDistributionResourceCache kind i d))"
  using invalidate_frame(1) [of kind i d]
  by (auto simp: gateway_inv_def cache_ok_def) (simp add: invalidateDistributionResourceCache_def)

lemma callback_resource_segment:
  assumes inv: "gateway_inv d" and run: "callback_resource kind i h now d = (d', r)"
  shows "gateway_inv d' \<and> placements d' = placements d"
proof -
  consider "d' = d"
    | x where "queryResource i h = Inr (CallOk (Some x))"
        "d' = applyPoolSnapshotRefUpdate kind (rs_id x) (Some x)
               (upsertDistributionResourceCache (cache_row kind x now) d)"
    | "d' = applyPoolSnapshotRefUpdate kind i None (fst (invalidateDistributionResourceCache kind i d))"
    | "d' = fst (invalidateDistributionResourceCache kind i d)"
    using run
    by (auto simp: callback_resource_def split: if_split_asm sum.split_asm call_result.split_asm
        option.split_asm)
  then show ?thesis
  proof cases
    case (2 x)
    then have "gateway_inv (upsertDistributionResourceCache (cache_row kind x now) d)"
      using inv queryResource_price [OF 2(1)]
      by (simp add: gateway_inv_def upsert_frame cache_ok_upsert cache_row_def)
    with 2 show ?thesis by (simp add: pool_update_frame upsert_frame)
  qed (use inv invalidate_inv in \<open>simp_all add: pool_update_frame invalidate_frame\<close>)
qed

section \<open>Properties of the order routes\<close>


text \<open>The small ledger with a cached price for the ordered resource.\<close>

definition demo_cached :: db where
  "demo_cached = demo_db\<lparr>distribution_resource_cache :=
     [\<lparr>rc_kind = Media, rc_resource_id = 7, rc_name = [65], rc_price_cents = 880, rc_status = None,
       rc_fetched_at = 0\<rparr>]\<rparr>"

definition demo_request :: place_order_input where
  "demo_request = demo_order_input\<lparr>oi_mediaPriceCents := 1\<rparr>"

lemma demo_start:
  "order_start (\<lambda>_. True) ''acc-1'' demo_request 10 demo_cached =
     (demo_cached\<lparr>publish_orders := [demo_order]\<rparr>, Await (WaitPlace True))"
proof -
  have schema: "placeOrderSchema (\<lambda>_. True) demo_request" "we_media_fields demo_request"
    by (simp_all add: demo_request_def demo_order_input_def placeOrderSchema_def orderSnSchema_def
        id_char_def word_char_def utf16_length_def in_range_def we_media_fields_def)
  have cache: "readDistributionResourceCache demo_cached (oi_kind demo_request) (oi_resourceId demo_request) =
      Some \<lparr>rc_kind = Media, rc_resource_id = 7, rc_name = [65], rc_price_cents = 880, rc_status = None,
        rc_fetched_at = 0\<rparr>"
    by (simp add: readDistributionResourceCache_def demo_cached_def demo_request_def demo_order_input_def
        cache_key_def)
  have input: "demo_request\<lparr>oi_mediaPriceCents := 880\<rparr> = demo_order_input"
    by (simp add: demo_request_def demo_order_input_def)
  have empty: "publish_orders demo_cached = []" "billing_permits demo_cached = []"
    "findAccountById demo_cached ''acc-1'' = Some demo_account"
    by (simp_all add: demo_cached_def demo_no_orders demo_find)
  have adm: "order_admission demo_cached ''acc-1'' demo_order_input 141 = Inr ()"
    by (simp add: order_admission_def assertWithinSpendLimits_def loadAccount_def empty Let_def
        frozenPointsFor_def permit_frozen_of_def order_frozen_of_def demo_order_input_def demo_account_def)
  have "oi_mediaPriceCents demo_order_input = 880" "oi_sn demo_order_input = ''sn-00001''"
    "po_sn demo_order = ''sn-00001''" "po_account_id demo_order = ''acc-1''"
    by (simp_all add: demo_order_input_def demo_order_def new_order_def)
  then have "beginPublishOrder ''acc-1'' demo_order_input 10 demo_cached =
      (demo_cached\<lparr>publish_orders := [demo_order]\<rparr>, Inr (demo_order, CreatedPhase))"
    by (simp add: beginPublishOrder_def transaction_def begin_order_body_def demo_points adm
        findPublishOrderBySn_def insert_order_def insert_row_def read_order_back_def empty
        demo_order_def [symmetric])
  then show ?thesis
    by (simp add: order_start_def schema cache order_priced_def input)
qed


end
