(* ===== verification/Sessions.thy ===== *)
theory Sessions
  imports Ledger
begin

text \<open>
  Login sessions of \<open>backend/src/auth/sessions.ts\<close>: opening a session, revoking one session or all
  sessions of an account, and the rotation of refresh tokens with its reuse detection. The keyed
  hash of \<open>hashRefreshToken\<close> (HMAC-SHA256 of \<open>node:crypto\<close>) is a parameter \<open>hash\<close>; the random
  identifiers and token strings that the code draws are arguments.
\<close>

section \<open>Operations\<close>

record started_session =
  st_sessionId :: string
  st_refreshTokenId :: string
  st_refreshRaw :: string

definition insert_session :: "auth_session_row \<Rightarrow> db \<Rightarrow> db result" where
  "insert_session s d =
     (if findAccountById d (as_account_id s) = None then Inl (SqlError ForeignKeyConstraint)
      else bind_result (insert_row as_id s (auth_sessions d))
             (\<lambda>rows. Inr (d\<lparr>auth_sessions := rows\<rparr>)))"

definition insert_token :: "refresh_token_row \<Rightarrow> db \<Rightarrow> db result" where
  "insert_token t d =
     (if find_row as_id (rt_session_id t) (auth_sessions d) = None
      then Inl (SqlError ForeignKeyConstraint)
      else if rt_token_hash t \<in> rt_token_hash ` set (refresh_tokens d)
      then Inl (SqlError UniqueConstraint)
      else bind_result (insert_row rt_id t (refresh_tokens d))
             (\<lambda>rows. Inr (d\<lparr>refresh_tokens := rows\<rparr>)))"

definition new_session :: "backend_config \<Rightarrow> string \<Rightarrow> string \<Rightarrow> instant \<Rightarrow> auth_session_row" where
  "new_session cfg sessionId accountId now =
     \<lparr>as_id = sessionId, as_account_id = accountId, as_created_at = now, as_last_seen_at = now,
      as_expires_at = now + refreshTokenTtlSeconds cfg * 1000,
      as_revoked_at = None, as_revoked_reason = None\<rparr>"

definition new_token :: "backend_config \<Rightarrow> string \<Rightarrow> string \<Rightarrow> string \<Rightarrow> instant \<Rightarrow> refresh_token_row" where
  "new_token cfg tokenId sessionId tokenHash now =
     \<lparr>rt_id = tokenId, rt_session_id = sessionId, rt_token_hash = tokenHash, rt_issued_at = now,
      rt_expires_at = now + refreshTokenTtlSeconds cfg * 1000,
      rt_consumed_at = None, rt_replaced_by = None, rt_revoked_at = None\<rparr>"

definition start_session_body ::
  "(string \<Rightarrow> string) \<Rightarrow> backend_config \<Rightarrow> string \<Rightarrow> started_session \<Rightarrow> instant \<Rightarrow> unit body" where
  "start_session_body hash cfg accountId new now d =
     bind_result (insert_session (new_session cfg (st_sessionId new) accountId now) d) (\<lambda>d1.
       bind_result
         (insert_token (new_token cfg (st_refreshTokenId new) (st_sessionId new)
                          (hash (st_refreshRaw new)) now) d1)
         (\<lambda>d2. Inr (d2, ())))"

definition startSession ::
  "(string \<Rightarrow> string) \<Rightarrow> backend_config \<Rightarrow> string \<Rightarrow> started_session \<Rightarrow> instant \<Rightarrow> started_session operation" where
  "startSession hash cfg accountId new now d =
     (case transaction (start_session_body hash cfg accountId new now) d of
        (d1, Inl e) \<Rightarrow> (d1, Inl e) | (d1, Inr _) \<Rightarrow> (d1, Inr new))"

definition revoke_session_row :: "instant \<Rightarrow> string \<Rightarrow> auth_session_row \<Rightarrow> auth_session_row" where
  "revoke_session_row now reason s = s\<lparr>as_revoked_at := Some now, as_revoked_reason := Some reason\<rparr>"

definition revoke_token_row :: "instant \<Rightarrow> refresh_token_row \<Rightarrow> refresh_token_row" where
  "revoke_token_row now t = t\<lparr>rt_revoked_at := Some now\<rparr>"

definition revokeSession :: "string \<Rightarrow> string \<Rightarrow> instant \<Rightarrow> db \<Rightarrow> db" where
  "revokeSession sessionId reason now d =
     d\<lparr>auth_sessions := update_rows (\<lambda>s. as_id s = sessionId \<and> as_revoked_at s = None)
                          (revoke_session_row now reason) (auth_sessions d),
       refresh_tokens := update_rows (\<lambda>t. rt_session_id t = sessionId \<and> rt_revoked_at t = None)
                          (revoke_token_row now) (refresh_tokens d)\<rparr>"

definition sessions_of :: "db \<Rightarrow> string \<Rightarrow> string list" where
  "sessions_of d accountId = map as_id (filter (\<lambda>s. as_account_id s = accountId) (auth_sessions d))"

definition revokeAccountSessions :: "string \<Rightarrow> string \<Rightarrow> instant \<Rightarrow> db \<Rightarrow> db" where
  "revokeAccountSessions accountId reason now d =
     d\<lparr>auth_sessions := update_rows (\<lambda>s. as_account_id s = accountId \<and> as_revoked_at s = None)
                          (revoke_session_row now reason) (auth_sessions d),
       refresh_tokens := update_rows
                          (\<lambda>t. rt_revoked_at t = None \<and> rt_session_id t \<in> set (sessions_of d accountId))
                          (revoke_token_row now) (refresh_tokens d)\<rparr>"

definition find_token :: "db \<Rightarrow> string \<Rightarrow> refresh_token_row option" where
  "find_token d h = find_row rt_token_hash h (refresh_tokens d)"

definition find_session :: "db \<Rightarrow> string \<Rightarrow> auth_session_row option" where
  "find_session d i = find_row as_id i (auth_sessions d)"

definition findRefreshTokenOwner :: "(string \<Rightarrow> string) \<Rightarrow> db \<Rightarrow> string \<Rightarrow> (string \<times> string) option" where
  "findRefreshTokenOwner hash d raw =
     (case find_token d (hash raw) of
        None \<Rightarrow> None
      | Some t \<Rightarrow> map_option (\<lambda>s. (rt_session_id t, as_account_id s)) (find_session d (rt_session_id t)))"

datatype refresh_rotation =
    Rotated (rot_accountId: string) (rot_sessionId: string) (rot_refreshRaw: string)
  | ReuseDetected
  | RefreshExpired
  | RefreshInvalid
  | RefreshDisabled

definition consume_token_row :: "instant \<Rightarrow> string \<Rightarrow> refresh_token_row \<Rightarrow> refresh_token_row" where
  "consume_token_row now replacement t =
     t\<lparr>rt_consumed_at := Some now, rt_replaced_by := Some replacement\<rparr>"

definition extend_session_row :: "backend_config \<Rightarrow> instant \<Rightarrow> auth_session_row \<Rightarrow> auth_session_row" where
  "extend_session_row cfg now s =
     s\<lparr>as_expires_at := now + refreshTokenTtlSeconds cfg * 1000, as_last_seen_at := now\<rparr>"

definition consume_token :: "string \<Rightarrow> string \<Rightarrow> instant \<Rightarrow> db \<Rightarrow> db result" where
  "consume_token tokenId replacement now d =
     (if count_where (\<lambda>t. rt_id t = tokenId \<and> rt_consumed_at t = None) (refresh_tokens d) \<noteq> 1
      then fail ''internal_error'' 500
      else Inr (d\<lparr>refresh_tokens :=
                    update_rows (\<lambda>t. rt_id t = tokenId \<and> rt_consumed_at t = None)
                      (consume_token_row now replacement) (refresh_tokens d)\<rparr>))"

definition extend_session :: "backend_config \<Rightarrow> string \<Rightarrow> instant \<Rightarrow> db \<Rightarrow> db" where
  "extend_session cfg sessionId now d =
     d\<lparr>auth_sessions := update_rows (\<lambda>s. as_id s = sessionId) (extend_session_row cfg now)
                          (auth_sessions d)\<rparr>"

definition rotate_body ::
  "(string \<Rightarrow> string) \<Rightarrow> backend_config \<Rightarrow> string \<Rightarrow> string \<Rightarrow> string \<Rightarrow> string \<Rightarrow> instant \<Rightarrow> unit body" where
  "rotate_body hash cfg tokenId sessionId nextId nextRaw now d =
     bind_result (consume_token tokenId nextId now d) (\<lambda>d1.
       bind_result (insert_token (new_token cfg nextId sessionId (hash nextRaw) now) d1) (\<lambda>d2.
         Inr (extend_session cfg sessionId now d2, ())))"

definition rotateRefreshToken ::
  "(string \<Rightarrow> string) \<Rightarrow> backend_config \<Rightarrow> string \<Rightarrow> string \<Rightarrow> string \<Rightarrow> instant \<Rightarrow> refresh_rotation operation" where
  "rotateRefreshToken hash cfg raw nextId nextRaw now d =
     (case find_token d (hash raw) of
        None \<Rightarrow> (d, Inr RefreshInvalid)
      | Some t \<Rightarrow>
          if rt_revoked_at t \<noteq> None then (d, Inr RefreshInvalid)
          else if rt_consumed_at t \<noteq> None
          then (revokeSession (rt_session_id t) ''refresh_reuse'' now d, Inr ReuseDetected)
          else case find_session d (rt_session_id t) of
            None \<Rightarrow> (d, Inr RefreshInvalid)
          | Some s \<Rightarrow>
              if as_revoked_at s \<noteq> None then (d, Inr RefreshInvalid)
              else case findAccountById d (as_account_id s) of
                None \<Rightarrow> (d, Inr RefreshInvalid)
              | Some a \<Rightarrow>
                  if rt_expires_at t \<le> now \<or> as_expires_at s \<le> now then (d, Inr RefreshExpired)
                  else if ac_status a \<noteq> Active then (d, Inr RefreshDisabled)
                  else case transaction
                              (rotate_body hash cfg (rt_id t) (as_id s) nextId nextRaw now) d of
                         (d1, Inl e) \<Rightarrow> (d1, Inl e)
                       | (d1, Inr _) \<Rightarrow> (d1, Inr (Rotated (as_account_id s) (as_id s) nextRaw)))"

section \<open>The session invariant\<close>

text \<open>
  The keys are unique and the references resolve. A session and its tokens are revoked together,
  and every session has exactly one token that was not consumed yet: the end of its rotation chain.
\<close>

definition live_token :: "string \<Rightarrow> refresh_token_row \<Rightarrow> bool" where
  "live_token sid t \<longleftrightarrow> rt_session_id t = sid \<and> rt_consumed_at t = None"

definition sessions_ok :: "db \<Rightarrow> bool" where
  "sessions_ok d \<longleftrightarrow>
     distinct (map as_id (auth_sessions d)) \<and> distinct (map rt_id (refresh_tokens d)) \<and>
     distinct (map rt_token_hash (refresh_tokens d)) \<and>
     (\<forall>s \<in> set (auth_sessions d). as_account_id s \<in> ac_id ` set (accounts d)) \<and>
     (\<forall>t \<in> set (refresh_tokens d). \<exists>s \<in> set (auth_sessions d). as_id s = rt_session_id t \<and>
        (as_revoked_at s = None \<longleftrightarrow> rt_revoked_at t = None)) \<and>
     (\<forall>s \<in> set (auth_sessions d). count_where (live_token (as_id s)) (refresh_tokens d) = 1)"

lemmas token_row_defs = consume_token_row_def revoke_token_row_def
lemmas session_row_defs = revoke_session_row_def extend_session_row_def

lemma token_row_simps [simp]:
  "rt_id (revoke_token_row now t) = rt_id t" "rt_id (consume_token_row now r t) = rt_id t"
  "rt_token_hash (revoke_token_row now t) = rt_token_hash t"
  "rt_token_hash (consume_token_row now r t) = rt_token_hash t"
  "rt_session_id (revoke_token_row now t) = rt_session_id t"
  "rt_session_id (consume_token_row now r t) = rt_session_id t"
  "rt_consumed_at (revoke_token_row now t) = rt_consumed_at t"
  "rt_revoked_at (consume_token_row now r t) = rt_revoked_at t"
  "rt_revoked_at (revoke_token_row now t) = Some now"
  "rt_consumed_at (consume_token_row now r t) = Some now"
  by (simp_all add: token_row_defs)

lemma session_row_simps [simp]:
  "as_id (revoke_session_row now x s) = as_id s" "as_id (extend_session_row cfg now s) = as_id s"
  "as_account_id (revoke_session_row now x s) = as_account_id s"
  "as_account_id (extend_session_row cfg now s) = as_account_id s"
  "as_revoked_at (revoke_session_row now x s) = Some now"
  "as_revoked_at (extend_session_row cfg now s) = as_revoked_at s"
  by (simp_all add: session_row_defs)

interpretation revoke_session: key_update as_id "revoke_session_row now reason" for now reason
  by unfold_locales simp

interpretation extend_session: key_update as_id "extend_session_row cfg now" for cfg now
  by unfold_locales simp

interpretation revoke_token: key_update rt_id "revoke_token_row now" for now
  by unfold_locales simp

interpretation revoke_token_hash: key_update rt_token_hash "revoke_token_row now" for now
  by unfold_locales simp

interpretation consume_token: key_update rt_id "consume_token_row now replacement"
  for now replacement
  by unfold_locales simp

interpretation consume_token_hash: key_update rt_token_hash "consume_token_row now replacement"
  for now replacement
  by unfold_locales simp

text \<open>Both revocations revoke a set of sessions with their tokens.\<close>

definition revoke_ids :: "string set \<Rightarrow> string \<Rightarrow> instant \<Rightarrow> db \<Rightarrow> db" where
  "revoke_ids S reason now d =
     d\<lparr>auth_sessions := update_rows (\<lambda>s. as_id s \<in> S \<and> as_revoked_at s = None)
                          (revoke_session_row now reason) (auth_sessions d),
       refresh_tokens := update_rows (\<lambda>t. rt_session_id t \<in> S \<and> rt_revoked_at t = None)
                          (revoke_token_row now) (refresh_tokens d)\<rparr>"

lemma revoke_ids_frame:
  "refresh_tokens (revoke_ids S reason now d) =
     update_rows (\<lambda>t. rt_session_id t \<in> S \<and> rt_revoked_at t = None) (revoke_token_row now) (refresh_tokens d)"
  "auth_sessions (revoke_ids S reason now d) =
     update_rows (\<lambda>s. as_id s \<in> S \<and> as_revoked_at s = None) (revoke_session_row now reason) (auth_sessions d)"
  "accounts (revoke_ids S reason now d) = accounts d"
  by (simp_all add: revoke_ids_def)

lemma revokeSession_ids: "revokeSession sid reason now d = revoke_ids {sid} reason now d"
  by (simp add: revokeSession_def revoke_ids_def)

lemma revokeAccountSessions_ids:
  assumes "distinct (map as_id (auth_sessions d))"
  shows "revokeAccountSessions a reason now d = revoke_ids (set (sessions_of d a)) reason now d"
proof -
  have "s \<in> set (auth_sessions d) \<Longrightarrow> as_id s \<in> set (sessions_of d a) \<longleftrightarrow> as_account_id s = a" for s
    using assms by (force simp: sessions_of_def distinct_map dest: inj_onD)
  then have "update_rows (\<lambda>s. as_account_id s = a \<and> as_revoked_at s = None)
        (revoke_session_row now reason) (auth_sessions d) =
      update_rows (\<lambda>s. as_id s \<in> set (sessions_of d a) \<and> as_revoked_at s = None)
        (revoke_session_row now reason) (auth_sessions d)"
    by (auto simp: update_rows_def)
  then show ?thesis
    by (simp add: revokeAccountSessions_def revoke_ids_def conj_commute)
qed

lemma sessions_ok_revoke_ids:
  assumes "sessions_ok d"
  shows "sessions_ok (revoke_ids S reason now d)"
proof -
  have live: "count_where (live_token i) (refresh_tokens (revoke_ids S reason now d)) =
      count_where (live_token i) (refresh_tokens d)" for i
    by (simp add: revoke_ids_def live_token_def revoke_token.count_where_update_frame)
  have tokens: "\<forall>t \<in> set (refresh_tokens d). \<exists>s \<in> set (auth_sessions d). as_id s = rt_session_id t \<and>
      (as_revoked_at s = None \<longleftrightarrow> rt_revoked_at t = None)"
    using assms by (simp add: sessions_ok_def)
  have tok: "\<forall>t \<in> set (refresh_tokens (revoke_ids S reason now d)).
      \<exists>s \<in> set (auth_sessions (revoke_ids S reason now d)). as_id s = rt_session_id t \<and>
      (as_revoked_at s = None \<longleftrightarrow> rt_revoked_at t = None)"
    unfolding revoke_ids_frame ball_update_rows bex_update_rows
  proof
    fix t assume "t \<in> set (refresh_tokens d)"
    with tokens obtain s where "s \<in> set (auth_sessions d)" "as_id s = rt_session_id t"
      "as_revoked_at s = None \<longleftrightarrow> rt_revoked_at t = None" by metis
    then show "\<exists>s \<in> set (auth_sessions d).
        as_id (if as_id s \<in> S \<and> as_revoked_at s = None then revoke_session_row now reason s else s) =
        rt_session_id (if rt_session_id t \<in> S \<and> rt_revoked_at t = None then revoke_token_row now t else t) \<and>
        (as_revoked_at (if as_id s \<in> S \<and> as_revoked_at s = None then revoke_session_row now reason s else s) = None) =
        (rt_revoked_at (if rt_session_id t \<in> S \<and> rt_revoked_at t = None then revoke_token_row now t else t) = None)"
      by (intro bexI [of _ s]) auto
  qed
  have "\<forall>s \<in> set (auth_sessions (revoke_ids S reason now d)). as_account_id s \<in> ac_id ` set (accounts d)"
    and "\<forall>s \<in> set (auth_sessions (revoke_ids S reason now d)).
      count_where (live_token (as_id s)) (refresh_tokens d) = 1"
    using assms by (auto simp: revoke_ids_def ball_update_rows sessions_ok_def)
  with assms tok show ?thesis
    unfolding sessions_ok_def live by (simp add: revoke_ids_def)
qed

subsection \<open>Inserted rows\<close>

lemma insert_session_Inr:
  "insert_session s d = Inr d' \<longleftrightarrow>
     as_account_id s \<in> ac_id ` set (accounts d) \<and> as_id s \<notin> as_id ` set (auth_sessions d) \<and>
     d' = d\<lparr>auth_sessions := auth_sessions d @ [s]\<rparr>"
  by (auto simp: insert_session_def bind_result_Inr_iff insert_row_Inr_iff findAccountById_def
      find_row_None_iff)

lemma insert_token_Inr:
  "insert_token t d = Inr d' \<longleftrightarrow>
     rt_session_id t \<in> as_id ` set (auth_sessions d) \<and>
     rt_token_hash t \<notin> rt_token_hash ` set (refresh_tokens d) \<and>
     rt_id t \<notin> rt_id ` set (refresh_tokens d) \<and>
     d' = d\<lparr>refresh_tokens := refresh_tokens d @ [t]\<rparr>"
  by (auto simp: insert_token_def bind_result_Inr_iff insert_row_Inr_iff find_row_None_iff)

lemma new_row_simps [simp]:
  "as_id (new_session cfg i a now) = i" "as_account_id (new_session cfg i a now) = a"
  "as_revoked_at (new_session cfg i a now) = None"
  "rt_id (new_token cfg j i h now) = j" "rt_session_id (new_token cfg j i h now) = i"
  "rt_token_hash (new_token cfg j i h now) = h" "rt_consumed_at (new_token cfg j i h now) = None"
  "rt_revoked_at (new_token cfg j i h now) = None"
  by (simp_all add: new_session_def new_token_def)

definition session_opened ::
  "(string \<Rightarrow> string) \<Rightarrow> backend_config \<Rightarrow> string \<Rightarrow> started_session \<Rightarrow> instant \<Rightarrow> db \<Rightarrow> db" where
  "session_opened hash cfg a new now d =
     d\<lparr>auth_sessions := auth_sessions d @ [new_session cfg (st_sessionId new) a now],
       refresh_tokens := refresh_tokens d @
         [new_token cfg (st_refreshTokenId new) (st_sessionId new) (hash (st_refreshRaw new)) now]\<rparr>"

lemma start_session_body_Inr:
  "start_session_body hash cfg a new now d = Inr (d', x) \<longleftrightarrow>
     a \<in> ac_id ` set (accounts d) \<and> st_sessionId new \<notin> as_id ` set (auth_sessions d) \<and>
     hash (st_refreshRaw new) \<notin> rt_token_hash ` set (refresh_tokens d) \<and>
     st_refreshTokenId new \<notin> rt_id ` set (refresh_tokens d) \<and>
     d' = session_opened hash cfg a new now d"
  by (auto simp: start_session_body_def bind_result_Inr_iff insert_session_Inr insert_token_Inr
      session_opened_def)

lemma startSession_Inr:
  "startSession hash cfg a new now d = (d', Inr x) \<longleftrightarrow>
     start_session_body hash cfg a new now d = Inr (d', ()) \<and> x = new"
  by (auto simp: startSession_def transaction_def split: sum.splits prod.splits)

lemma startSession_Inl: "startSession hash cfg a new now d = (d', Inl e) \<Longrightarrow> d' = d"
  by (auto simp: startSession_def transaction_def split: sum.splits prod.splits)

lemma sessions_ok_token_session:
  assumes "sessions_ok d" and "t \<in> set (refresh_tokens d)"
  shows "rt_session_id t \<in> as_id ` set (auth_sessions d)"
  using assms unfolding sessions_ok_def by force

lemma sessions_ok_opened:
  assumes ok: "sessions_ok d" and start: "start_session_body hash cfg a new now d = Inr (d', x)"
  shows "sessions_ok d'"
proof -
  let ?s = "new_session cfg (st_sessionId new) a now"
  let ?t = "new_token cfg (st_refreshTokenId new) (st_sessionId new) (hash (st_refreshRaw new)) now"
  have fresh: "a \<in> ac_id ` set (accounts d)" "st_sessionId new \<notin> as_id ` set (auth_sessions d)"
    "hash (st_refreshRaw new) \<notin> rt_token_hash ` set (refresh_tokens d)"
    "st_refreshTokenId new \<notin> rt_id ` set (refresh_tokens d)"
    and d': "d' = session_opened hash cfg a new now d"
    using start by (simp_all add: start_session_body_Inr)
  have none: "count_where (live_token (st_sessionId new)) (refresh_tokens d) = 0"
    using fresh(2) sessions_ok_token_session [OF ok]
    unfolding count_where_zero_iff live_token_def by metis
  have live0: "count_where (live_token (st_sessionId new)) (refresh_tokens d @ [?t]) = 1"
    using none by (simp add: count_where_append live_token_def [of _ ?t])
  have live: "count_where (live_token (as_id s)) (refresh_tokens d @ [?t]) = 1"
    if "s \<in> set (auth_sessions d)" for s
    using that fresh(2) ok by (auto simp: count_where_append live_token_def [of _ ?t] sessions_ok_def)
  show ?thesis
    using ok fresh live0 live unfolding d' sessions_ok_def by (simp add: session_opened_def)
qed

subsection \<open>Rotation\<close>

lemma distinct_find_token:
  "sessions_ok d \<Longrightarrow> find_token d h = Some t \<longleftrightarrow> t \<in> set (refresh_tokens d) \<and> rt_token_hash t = h"
  by (simp add: find_token_def find_row_Some_iff sessions_ok_def)

lemma distinct_find_session:
  "sessions_ok d \<Longrightarrow> find_session d i = Some s \<longleftrightarrow> s \<in> set (auth_sessions d) \<and> as_id s = i"
  by (simp add: find_session_def find_row_Some_iff sessions_ok_def)

definition rotated ::
  "(string \<Rightarrow> string) \<Rightarrow> backend_config \<Rightarrow> string \<Rightarrow> string \<Rightarrow> string \<Rightarrow> string \<Rightarrow> instant \<Rightarrow> db \<Rightarrow> db" where
  "rotated hash cfg tokenId sessionId nextId nextRaw now d =
     d\<lparr>auth_sessions := update_rows (\<lambda>s. as_id s = sessionId) (extend_session_row cfg now)
                          (auth_sessions d),
       refresh_tokens := update_rows (\<lambda>t. rt_id t = tokenId \<and> rt_consumed_at t = None)
                           (consume_token_row now nextId) (refresh_tokens d) @
                         [new_token cfg nextId sessionId (hash nextRaw) now]\<rparr>"

lemma rotate_body_Inr:
  "rotate_body hash cfg tokenId sessionId nextId nextRaw now d = Inr (d', x) \<longleftrightarrow>
     count_where (\<lambda>t. rt_id t = tokenId \<and> rt_consumed_at t = None) (refresh_tokens d) = 1 \<and>
     sessionId \<in> as_id ` set (auth_sessions d) \<and>
     hash nextRaw \<notin> rt_token_hash ` set (refresh_tokens d) \<and>
     nextId \<notin> rt_id ` set (refresh_tokens d) \<and>
     d' = rotated hash cfg tokenId sessionId nextId nextRaw now d"
  by (auto simp: rotate_body_def consume_token_def bind_result_Inr_iff insert_token_Inr rotated_def
      extend_session_def)

lemma sessions_ok_rotated:
  assumes ok: "sessions_ok d"
    and t: "t \<in> set (refresh_tokens d)" "rt_consumed_at t = None"
    and s: "s \<in> set (auth_sessions d)" "as_id s = rt_session_id t" "as_revoked_at s = None"
    and run: "rotate_body hash cfg (rt_id t) (rt_session_id t) nextId nextRaw now d = Inr (d', x)"
  shows "sessions_ok d'"
proof -
  let ?new = "new_token cfg nextId (rt_session_id t) (hash nextRaw) now"
  let ?rest = "update_rows (\<lambda>r. rt_id r = rt_id t) (consume_token_row now nextId) (refresh_tokens d)"
  have dist: "distinct (map rt_id (refresh_tokens d))" using ok by (simp add: sessions_ok_def)
  have "r \<in> set (refresh_tokens d) \<Longrightarrow> rt_id r = rt_id t \<Longrightarrow> rt_consumed_at r = None" for r
    using dist t inj_onD [of rt_id "set (refresh_tokens d)" r t] by (simp add: distinct_map)
  then have "update_rows (\<lambda>r. rt_id r = rt_id t \<and> rt_consumed_at r = None)
      (consume_token_row now nextId) (refresh_tokens d) = ?rest"
    using t by (auto simp: update_rows_def)
  then have d': "d' = d\<lparr>auth_sessions := update_rows (\<lambda>s. as_id s = rt_session_id t) (extend_session_row cfg now)
      (auth_sessions d), refresh_tokens := ?rest @ [?new]\<rparr>"
    and fresh: "hash nextRaw \<notin> rt_token_hash ` set (refresh_tokens d)"
    "nextId \<notin> rt_id ` set (refresh_tokens d)"
    using run by (simp_all add: rotate_body_Inr rotated_def)
  have found: "find_row rt_id (rt_id t) (refresh_tokens d) = Some t"
    using dist t(1) by (simp add: find_row_Some_iff)
  have count: "count_where (live_token i) (?rest @ [?new]) = count_where (live_token i) (refresh_tokens d)" for i
    using t(2) by (simp add: count_where_append consume_token.count_where_update_one [OF dist found] live_token_def)
  have old: "\<forall>r \<in> set (refresh_tokens d). \<exists>s \<in> set (auth_sessions d). as_id s = rt_session_id r \<and>
      (as_revoked_at s = None \<longleftrightarrow> rt_revoked_at r = None)"
    using ok by (simp add: sessions_ok_def)
  have "\<forall>r \<in> set ?rest. \<exists>s \<in> set (auth_sessions d). as_id s = rt_session_id r \<and>
      (as_revoked_at s = None \<longleftrightarrow> rt_revoked_at r = None)"
    using old by (simp add: ball_update_rows)
  moreover have "\<exists>s \<in> set (auth_sessions d). as_id s = rt_session_id ?new \<and>
      (as_revoked_at s = None \<longleftrightarrow> rt_revoked_at ?new = None)"
    using s by auto
  ultimately have "\<forall>r \<in> set (?rest @ [?new]). \<exists>s \<in> set (auth_sessions d). as_id s = rt_session_id r \<and>
      (as_revoked_at s = None \<longleftrightarrow> rt_revoked_at r = None)"
    by auto
  then have "\<forall>r \<in> set (?rest @ [?new]). \<exists>s \<in> set (auth_sessions d').
      as_id s = rt_session_id r \<and> (as_revoked_at s = None \<longleftrightarrow> rt_revoked_at r = None)"
    by (simp add: d' bex_update_rows if_distrib cong: if_cong)
  moreover have "\<forall>s \<in> set (auth_sessions d'). count_where (live_token (as_id s)) (?rest @ [?new]) = 1"
    "\<forall>s \<in> set (auth_sessions d'). as_account_id s \<in> ac_id ` set (accounts d)"
    using ok unfolding count by (auto simp: sessions_ok_def d' ball_update_rows)
  ultimately show ?thesis
    using ok fresh unfolding sessions_ok_def by (simp add: d')
qed

lemma rotate_cases:
  assumes ok: "sessions_ok d" and run: "rotateRefreshToken hash cfg raw nextId nextRaw now d = (d', r)"
  obtains (same) "d' = d" and "\<And>a i w. r \<noteq> Inr (Rotated a i w)" and "r \<noteq> Inr ReuseDetected"
  | (reuse) t where "t \<in> set (refresh_tokens d)" and "rt_token_hash t = hash raw"
      and "rt_consumed_at t \<noteq> None"
      and "d' = revokeSession (rt_session_id t) ''refresh_reuse'' now d" and "r = Inr ReuseDetected"
  | (rotated) t s a where "t \<in> set (refresh_tokens d)" and "rt_token_hash t = hash raw"
      and "rt_consumed_at t = None" and "rt_revoked_at t = None"
      and "s \<in> set (auth_sessions d)" and "as_id s = rt_session_id t" and "as_revoked_at s = None"
      and "findAccountById d (as_account_id s) = Some a" and "ac_status a = Active"
      and "now < rt_expires_at t" and "now < as_expires_at s"
      and "rotate_body hash cfg (rt_id t) (rt_session_id t) nextId nextRaw now d = Inr (d', ())"
      and "r = Inr (Rotated (as_account_id s) (as_id s) nextRaw)"
proof (cases "find_token d (hash raw)")
  case None
  with run show thesis by (intro same) (auto simp: rotateRefreshToken_def)
next
  case (Some t)
  then have t: "t \<in> set (refresh_tokens d)" "rt_token_hash t = hash raw"
    by (simp_all add: distinct_find_token [OF ok])
  note R = run [unfolded rotateRefreshToken_def Some option.case]
  show thesis
  proof (cases "rt_revoked_at t \<noteq> None \<or> rt_consumed_at t \<noteq> None")
    case True
    with R t show thesis
      by (cases "rt_revoked_at t \<noteq> None") (auto intro: same reuse)
  next
    case False
    show thesis
    proof (cases "find_session d (rt_session_id t)")
      case None
      with R False show thesis by (intro same) auto
    next
      case (Some s)
      then have s: "s \<in> set (auth_sessions d)" "as_id s = rt_session_id t"
        by (simp_all add: distinct_find_session [OF ok])
      show thesis
      proof (cases "as_revoked_at s = None \<and> (\<exists>a. findAccountById d (as_account_id s) = Some a \<and>
            ac_status a = Active) \<and> now < rt_expires_at t \<and> now < as_expires_at s \<and>
            rotate_body hash cfg (rt_id t) (rt_session_id t) nextId nextRaw now d = Inr (d', ())")
        case True
        with R False Some s t show thesis
          by (auto simp: transaction_def intro: rotated)
      next
        case other: False
        from R False Some s other show thesis
          by (intro same)
            (auto simp: transaction_def split: if_splits option.splits sum.splits prod.splits)
      qed
    qed
  qed
qed

lemma count_unique_key:
  "distinct (map key rows) \<Longrightarrow> r \<in> set rows \<Longrightarrow> P r \<Longrightarrow> count_where (\<lambda>x. key x = key r \<and> P x) rows = 1"
proof (induction rows)
  case Nil
  then show ?case by simp
next
  case (Cons x xs)
  then show ?case
  proof (cases "x = r")
    case True
    with Cons.prems(1) have "count_where (\<lambda>x. key x = key r \<and> P x) xs = 0"
      unfolding count_where_zero_iff by (metis distinct.simps(2) imageI list.set_map list.simps(9))
    with True Cons.prems show ?thesis by simp
  next
    case False
    with Cons.prems have "r \<in> set xs" "key x \<noteq> key r" by auto
    with Cons show ?thesis by simp
  qed
qed

text \<open>A token that is fresh in every respect is rotated.\<close>

lemma rotate_succeeds:
  assumes ok: "sessions_ok d"
    and t: "t \<in> set (refresh_tokens d)" "rt_token_hash t = hash raw" "rt_revoked_at t = None"
      "rt_consumed_at t = None" "now < rt_expires_at t"
    and s: "s \<in> set (auth_sessions d)" "as_id s = rt_session_id t" "as_revoked_at s = None"
      "now < as_expires_at s"
    and a: "findAccountById d (as_account_id s) = Some a" "ac_status a = Active"
    and fresh: "hash nextRaw \<notin> rt_token_hash ` set (refresh_tokens d)"
      "nextId \<notin> rt_id ` set (refresh_tokens d)"
  shows "rotateRefreshToken hash cfg raw nextId nextRaw now d =
    (rotated hash cfg (rt_id t) (rt_session_id t) nextId nextRaw now d,
     Inr (Rotated (as_account_id s) (rt_session_id t) nextRaw))"
proof -
  have "find_token d (hash raw) = Some t" "find_session d (rt_session_id t) = Some s"
    using ok t(1,2) s(1,2) by (simp_all add: distinct_find_token distinct_find_session)
  moreover have "count_where (\<lambda>x. rt_id x = rt_id t \<and> rt_consumed_at x = None) (refresh_tokens d) = 1"
    using ok t(1,4) by (intro count_unique_key) (simp_all add: sessions_ok_def)
  moreover have "rt_session_id t \<in> as_id ` set (auth_sessions d)"
    using s(1,2) by (metis imageI)
  ultimately have "rotate_body hash cfg (rt_id t) (rt_session_id t) nextId nextRaw now d =
      Inr (rotated hash cfg (rt_id t) (rt_session_id t) nextId nextRaw now d, ())"
    using fresh by (simp add: rotate_body_Inr)
  then show ?thesis
    using \<open>find_token d (hash raw) = Some t\<close> \<open>find_session d (rt_session_id t) = Some s\<close> t s a
    by (simp add: rotateRefreshToken_def transaction_def)
qed

lemma sessions_ok_rotate:
  assumes "sessions_ok d" and "rotateRefreshToken hash cfg raw nextId nextRaw now d = (d', r)"
  shows "sessions_ok d'"
proof (cases rule: rotate_cases [OF assms, case_names same reuse rotated])
  case same
  with assms(1) show ?thesis by simp
next
  case (reuse t)
  with assms(1) show ?thesis by (simp add: revokeSession_ids sessions_ok_revoke_ids)
next
  case (rotated t s a)
  then show ?thesis by (intro sessions_ok_rotated [OF assms(1)])
qed

subsection \<open>Revoked sessions\<close>

lemma rotate_revoked:
  "find_token d (hash raw) = Some t \<Longrightarrow> rt_revoked_at t \<noteq> None \<Longrightarrow>
   rotateRefreshToken hash cfg raw nextId nextRaw now d = (d, Inr RefreshInvalid)"
  by (simp add: rotateRefreshToken_def)

lemma revoke_ids_revoked:
  "t \<in> set (refresh_tokens (revoke_ids S reason now d)) \<Longrightarrow> rt_session_id t \<in> S \<Longrightarrow> rt_revoked_at t \<noteq> None"
  by (auto simp: revoke_ids_frame set_update_rows)

definition session_revoked :: "db \<Rightarrow> string \<Rightarrow> bool" where
  "session_revoked d i \<longleftrightarrow> (\<exists>s \<in> set (auth_sessions d). as_id s = i \<and> as_revoked_at s \<noteq> None)"

lemma session_revoked_tokens:
  assumes ok: "sessions_ok d" and dead: "session_revoked d (rt_session_id t)"
    and t: "t \<in> set (refresh_tokens d)"
  shows "rt_revoked_at t \<noteq> None"
proof -
  obtain s where s: "s \<in> set (auth_sessions d)" "as_id s = rt_session_id t"
    "as_revoked_at s = None \<longleftrightarrow> rt_revoked_at t = None"
    using ok t unfolding sessions_ok_def by metis
  obtain s' where s': "s' \<in> set (auth_sessions d)" "as_id s' = rt_session_id t" "as_revoked_at s' \<noteq> None"
    using dead by (auto simp: session_revoked_def)
  have "s = s'"
    using ok s(1,2) s'(1,2) inj_onD [of as_id "set (auth_sessions d)" s s']
    by (simp add: sessions_ok_def distinct_map)
  with s s' show ?thesis by simp
qed

lemma dead_token_refused:
  assumes ok: "sessions_ok d" and dead: "session_revoked d (rt_session_id t)"
    and t: "find_token d (hash raw) = Some t"
  shows "rotateRefreshToken hash cfg raw nextId nextRaw now d = (d, Inr RefreshInvalid)"
  using session_revoked_tokens [OF ok dead] t
  by (intro rotate_revoked [of _ hash raw, OF t]) (simp add: distinct_find_token [OF ok])

text \<open>
  One step of the service as the sessions see it: a session is opened, a token presented, sessions
  revoked, or something else happens that leaves the session tables alone.
\<close>

inductive auth_step :: "(string \<Rightarrow> string) \<Rightarrow> db \<Rightarrow> db \<Rightarrow> bool" for hash where
  Start: "startSession hash cfg a new now d = (d', r) \<Longrightarrow> auth_step hash d d'"
| Rotate: "rotateRefreshToken hash cfg raw nextId nextRaw now d = (d', r) \<Longrightarrow> auth_step hash d d'"
| Revoke: "auth_step hash d (revokeSession sid reason now d)"
| RevokeAll: "auth_step hash d (revokeAccountSessions a reason now d)"
| Elsewhere: "auth_sessions d' = auth_sessions d \<Longrightarrow> refresh_tokens d' = refresh_tokens d \<Longrightarrow>
    ac_id ` set (accounts d) \<subseteq> ac_id ` set (accounts d') \<Longrightarrow> auth_step hash d d'"

lemma session_revoked_revoke_ids:
  "session_revoked d i \<Longrightarrow> session_revoked (revoke_ids S reason now d) i"
  unfolding session_revoked_def revoke_ids_frame bex_update_rows by (elim bexE) (auto intro!: bexI)

lemma sessions_ok_distinct: "sessions_ok d \<Longrightarrow> distinct (map as_id (auth_sessions d))"
  by (simp add: sessions_ok_def)

lemma auth_step_keeps:
  assumes "auth_step hash d d'" and "sessions_ok d"
  shows "sessions_ok d' \<and> (\<forall>i. session_revoked d i \<longrightarrow> session_revoked d' i)"
  using assms
proof (cases rule: auth_step.cases)
  case (Start cfg a new now r)
  show ?thesis
  proof (cases r)
    case (Inl e)
    with Start assms(2) show ?thesis by (auto dest: startSession_Inl)
  next
    case (Inr x)
    with Start have run: "start_session_body hash cfg a new now d = Inr (d', ())"
      by (simp add: startSession_Inr)
    then have "auth_sessions d' = auth_sessions d @ [new_session cfg (st_sessionId new) a now]"
      by (simp add: start_session_body_Inr session_opened_def)
    with sessions_ok_opened [OF assms(2) run] show ?thesis by (auto simp: session_revoked_def)
  qed
next
  case (Rotate cfg raw nextId nextRaw now r)
  have "session_revoked d' i" if i: "session_revoked d i" for i
  proof (cases rule: rotate_cases [OF assms(2) Rotate, case_names same reuse rotated])
    case same
    with i show ?thesis by simp
  next
    case (reuse t)
    with i show ?thesis by (simp add: revokeSession_ids session_revoked_revoke_ids)
  next
    case (rotated t s a)
    then have "auth_sessions d' = update_rows (\<lambda>s. as_id s = rt_session_id t) (extend_session_row cfg now) (auth_sessions d)"
      by (simp add: rotate_body_Inr rotated_def)
    with i show ?thesis
      by (auto simp: session_revoked_def bex_update_rows if_distrib cong: if_cong)
  qed
  with sessions_ok_rotate [OF assms(2) Rotate] show ?thesis by blast
next
  case (Revoke sid reason now)
  with assms(2) show ?thesis
    by (simp add: revokeSession_ids sessions_ok_revoke_ids session_revoked_revoke_ids)
next
  case (RevokeAll a reason now)
  with assms(2) show ?thesis
    by (simp add: revokeAccountSessions_ids sessions_ok_distinct sessions_ok_revoke_ids
        session_revoked_revoke_ids)
next
  case Elsewhere
  with assms(2) show ?thesis by (auto simp: sessions_ok_def session_revoked_def)
qed

lemma auth_steps_keep:
  assumes "(auth_step hash)\<^sup>*\<^sup>* d d'" and "sessions_ok d"
  shows "sessions_ok d' \<and> (\<forall>i. session_revoked d i \<longrightarrow> session_revoked d' i)"
  using assms
proof (induction rule: rtranclp_induct)
  case base
  then show ?case by simp
next
  case (step d1 d2)
  with auth_step_keeps [OF step.hyps(2)] show ?case by blast
qed

section \<open>Properties of the sessions\<close>

text \<open>A session with one token, for the witnesses; the hash of a token is the token itself.\<close>

definition demo_session :: started_session where
  "demo_session = \<lparr>st_sessionId = ''s-1'', st_refreshTokenId = ''t-1'', st_refreshRaw = ''xr_first''\<rparr>"

definition demo_login :: db where
  "demo_login = session_opened id default_config ''acc-1'' demo_session 0 demo_db"

lemma demo_login_ok: "sessions_ok demo_login"
  by (rule sessions_ok_opened [of demo_db id default_config "''acc-1''" demo_session 0 _ "()"])
    (simp_all add: start_session_body_Inr demo_login_def demo_db_def demo_account_def empty_db_def
      sessions_ok_def)

text \<open>
  C23: a refresh token works once. After a token was rotated, presenting it again is answered as a
  reuse and revokes its whole session: from then on every token of that session, the one just
  issued included, is refused.
\<close>

theorem refresh_token_reuse:
  assumes ok: "sessions_ok d"
    and first: "rotateRefreshToken hash cfg raw nextId nextRaw now d = (d1, Inr (Rotated a sid w))"
  shows "rotateRefreshToken hash cfg raw nextId' nextRaw' now' d1 =
      (revokeSession sid ''refresh_reuse'' now' d1, Inr ReuseDetected) \<and>
    (\<forall>raw2 t. find_token (revokeSession sid ''refresh_reuse'' now' d1) (hash raw2) = Some t \<longrightarrow>
       rt_session_id t = sid \<longrightarrow>
       rotateRefreshToken hash cfg raw2 nextId' nextRaw' now' (revokeSession sid ''refresh_reuse'' now' d1) =
         (revokeSession sid ''refresh_reuse'' now' d1, Inr RefreshInvalid))"
proof (cases rule: rotate_cases [OF ok first, case_names same reuse rotated])
  case (rotated t s acc)
  have ok1: "sessions_ok d1" using ok first by (rule sessions_ok_rotate)
  have dist: "r \<in> set (refresh_tokens d) \<Longrightarrow> rt_id r = rt_id t \<Longrightarrow> r = t" for r
    using ok rotated(1) inj_onD [of rt_id "set (refresh_tokens d)" r t]
    by (simp add: sessions_ok_def distinct_map)
  have sid: "sid = rt_session_id t" using rotated by simp
  have "consume_token_row now nextId t \<in> set (refresh_tokens d1)"
    using rotated(1,3,12) by (force simp: rotate_body_Inr rotated_def set_update_rows)
  then have found: "find_token d1 (hash raw) = Some (consume_token_row now nextId t)"
    using rotated(2) by (simp add: distinct_find_token [OF ok1])
  have "rotateRefreshToken hash cfg raw nextId' nextRaw' now' d1 =
      (revokeSession sid ''refresh_reuse'' now' d1, Inr ReuseDetected)"
    using rotated(4) by (simp add: rotateRefreshToken_def found sid)
  moreover have "rotateRefreshToken hash cfg raw2 nextId' nextRaw' now' (revoke_ids {sid} ''refresh_reuse'' now' d1) =
      (revoke_ids {sid} ''refresh_reuse'' now' d1, Inr RefreshInvalid)"
    if t2: "find_token (revoke_ids {sid} ''refresh_reuse'' now' d1) (hash raw2) = Some t2" "rt_session_id t2 = sid"
    for raw2 t2
  proof (rule rotate_revoked [of _ hash raw2, OF t2(1)])
    show "rt_revoked_at t2 \<noteq> None"
      using t2 sessions_ok_revoke_ids [OF ok1]
      by (intro revoke_ids_revoked [of _ "{sid}"]) (auto simp: distinct_find_token)
  qed
  ultimately show ?thesis by (simp add: revokeSession_ids)
qed blast+

theorem refresh_token_reuse_witness:
  "\<exists>d1. rotateRefreshToken id default_config ''xr_first'' ''t-2'' ''xr_second'' 10 demo_login =
      (d1, Inr (Rotated ''acc-1'' ''s-1'' ''xr_second'')) \<and>
    snd (rotateRefreshToken id default_config ''xr_first'' ''t-3'' ''xr_third'' 20 d1) = Inr ReuseDetected"
proof -
  let ?run = "rotateRefreshToken id default_config ''xr_first'' ''t-2'' ''xr_second'' 10 demo_login"
  have run: "?run = (fst ?run, Inr (Rotated ''acc-1'' ''s-1'' ''xr_second''))"
    by (simp add: rotateRefreshToken_def demo_login_def session_opened_def demo_session_def find_token_def
        find_session_def demo_db_def demo_account_def empty_db_def default_config_def new_token_def
        new_session_def findAccountById_def transaction_def rotate_body_def consume_token_def
        insert_token_def insert_row_def)
  from refresh_token_reuse [OF demo_login_ok run, of "''t-3''" "''xr_third''" 20]
  have "snd (rotateRefreshToken id default_config ''xr_first'' ''t-3'' ''xr_third'' 20 (fst ?run)) = Inr ReuseDetected"
    by simp
  with run show ?thesis by blast
qed

text \<open>
  C24: a revoked session stays dead. Whatever the service does afterwards, in any order, every token
  that belongs to a session that was once revoked is refused, and presenting it changes nothing.
\<close>

theorem revoked_session_stays_dead:
  assumes "sessions_ok d" and "session_revoked d sid" and "(auth_step hash)\<^sup>*\<^sup>* d d'"
    and t: "find_token d' (hash raw) = Some t" "rt_session_id t = sid"
  shows "rotateRefreshToken hash cfg raw nextId nextRaw now d' = (d', Inr RefreshInvalid)"
proof (rule dead_token_refused)
  show "sessions_ok d'" "session_revoked d' (rt_session_id t)"
    using auth_steps_keep [OF assms(3,1)] assms(2) t(2) by simp_all
qed (rule t(1))

theorem revoked_session_stays_dead_witness:
  "snd (rotateRefreshToken id default_config ''xr_first'' ''t-2'' ''xr_second'' 10
     (revokeSession ''s-1'' ''logout'' 6 (revokeSession ''s-1'' ''logout'' 5 demo_login))) = Inr RefreshInvalid"
proof -
  let ?d = "revokeSession ''s-1'' ''logout'' 5 demo_login"
  let ?d' = "revokeSession ''s-1'' ''logout'' 6 ?d"
  have ok: "sessions_ok ?d" by (simp add: revokeSession_ids sessions_ok_revoke_ids demo_login_ok)
  have dead: "session_revoked ?d ''s-1''"
    by (simp add: session_revoked_def demo_login_def session_opened_def demo_session_def demo_db_def
        empty_db_def revokeSession_def new_session_def revoke_session_row_def)
  have steps: "(auth_step id)\<^sup>*\<^sup>* ?d ?d'" by (intro r_into_rtranclp auth_step.Revoke)
  obtain t where t: "find_token ?d' (id ''xr_first'') = Some t" "rt_session_id t = ''s-1''"
    by (simp add: find_token_def demo_login_def session_opened_def demo_session_def demo_db_def
        empty_db_def revokeSession_def new_token_def revoke_token_row_def)
  show ?thesis using revoked_session_stays_dead [OF ok dead steps, of "''xr_first''", OF t] by (simp only: snd_conv)
qed

end
