(* ===== verification/Accounts.thy ===== *)
theory Accounts
  imports OrderRoutes Sessions
begin

text \<open>
  Accounts and authentication: \<open>backend/src/domain/accounts.ts\<close>, the account middleware and the
  routes of \<open>backend/src/http/auth-routes.ts\<close>, the operator's routes of
  \<open>backend/src/http/admin-routes.ts\<close> and the login throttle of
  \<open>backend/src/auth/admin-login-throttle.ts\<close>. The cryptography of \<open>node:crypto\<close> and \<open>jose\<close> is a
  parameter: \<open>verify\<close> compares a password with a stored hash, \<open>pwHash\<close> is the salted hash that the
  code stores, and a bearer token arrives as the outcome of its signature check.
\<close>

section \<open>Account operations\<close>

definition findAccountByPhone :: "db \<Rightarrow> string \<Rightarrow> account_row option" where
  "findAccountByPhone d phone = find_row ac_phone phone (accounts d)"

record account_list_item =
  ai_id :: string
  ai_phone :: string
  ai_status :: account_status
  ai_balance :: int
  ai_mustChangePassword :: bool
  ai_createdAt :: instant
  ai_adminNote :: utext

definition account_list_item_of :: "account_row \<Rightarrow> account_list_item" where
  "account_list_item_of a =
     \<lparr>ai_id = ac_id a, ai_phone = ac_phone a, ai_status = ac_status a, ai_balance = ac_balance a,
      ai_mustChangePassword = ac_must_change_password a, ai_createdAt = ac_created_at a,
      ai_adminNote = ac_admin_note a\<rparr>"

definition listAccounts :: "db \<Rightarrow> nat \<Rightarrow> account_list_item list" where
  "listAccounts d limit =
     map account_list_item_of
       (take limit (sort_key (\<lambda>a. - ac_created_at a) (rev (sort_key ac_id (accounts d)))))"

definition update_account :: "string \<Rightarrow> (account_row \<Rightarrow> account_row) \<Rightarrow> db \<Rightarrow> db" where
  "update_account i u d = d\<lparr>accounts := update_rows (\<lambda>a. ac_id a = i) u (accounts d)\<rparr>"

definition set_status_row :: "account_status \<Rightarrow> instant \<Rightarrow> account_row \<Rightarrow> account_row" where
  "set_status_row status now a = a\<lparr>ac_status := status, ac_updated_at := now\<rparr>"

definition set_note_row :: "utext \<Rightarrow> instant \<Rightarrow> account_row \<Rightarrow> account_row" where
  "set_note_row note now a = a\<lparr>ac_admin_note := note, ac_updated_at := now\<rparr>"

definition set_password_row :: "string \<Rightarrow> bool \<Rightarrow> instant \<Rightarrow> account_row \<Rightarrow> account_row" where
  "set_password_row pwHash mustChange now a =
     a\<lparr>ac_password_hash := pwHash, ac_password_version := ac_password_version a + 1,
       ac_must_change_password := mustChange, ac_updated_at := now\<rparr>"

definition read_account_back :: "string \<Rightarrow> db \<Rightarrow> account_row result" where
  "read_account_back i d =
     (case findAccountById d i of None \<Rightarrow> fail ''internal_error'' 500 | Some a \<Rightarrow> Inr a)"

text \<open>The statements of the following transactions cannot fail, so they are plain sequences.\<close>

definition setAccountStatus :: "string \<Rightarrow> account_status \<Rightarrow> instant \<Rightarrow> account_row operation" where
  "setAccountStatus accountId status now d =
     (case findAccountById d accountId of
        None \<Rightarrow> (d, fail ''account_not_found'' 404)
      | Some _ \<Rightarrow>
          let d1 = update_account accountId (set_status_row status now) d;
              d2 = (if status = Disabled then revokeAccountSessions accountId ''admin_disabled'' now d1
                    else d1)
          in (d2, read_account_back accountId d2))"

definition setAccountNote :: "string \<Rightarrow> utext \<Rightarrow> instant \<Rightarrow> unit operation" where
  "setAccountNote accountId note now d =
     (case findAccountById d accountId of
        None \<Rightarrow> (d, fail ''account_not_found'' 404)
      | Some _ \<Rightarrow>
          let d1 = update_account accountId (set_note_row note now) d
          in (d1, bind_result (read_account_back accountId d1) (\<lambda>_. Inr ())))"

record account_projection =
  ap_id :: string
  ap_phone :: string
  ap_status :: account_status
  ap_mustChangePassword :: bool
  ap_points :: int

definition accountProjection :: "account_row \<Rightarrow> account_projection" where
  "accountProjection a =
     \<lparr>ap_id = ac_id a, ap_phone = ac_phone a, ap_status = ac_status a,
      ap_mustChangePassword = ac_must_change_password a, ap_points = ac_balance a\<rparr>"

text \<open>Opening an account: the row and its grant in one transaction; the note says so in Chinese.\<close>

definition grant_note :: utext where
  "grant_note = [24320, 36890, 36192, 36865]"

definition new_account :: "string \<Rightarrow> string \<Rightarrow> string \<Rightarrow> instant \<Rightarrow> account_row" where
  "new_account accountId phone pwHash now =
     \<lparr>ac_id = accountId, ac_phone = phone, ac_password_hash = pwHash, ac_password_version = 1,
      ac_status = Active, ac_must_change_password = True, ac_balance = 0, ac_created_at = now,
      ac_updated_at = now, ac_chat_quota_used_milli = 0, ac_admin_note = []\<rparr>"

definition insert_account :: "account_row \<Rightarrow> db \<Rightarrow> db result" where
  "insert_account a d =
     (if ac_phone a \<in> ac_phone ` set (accounts d) then Inl (SqlError UniqueConstraint)
      else bind_result (insert_row ac_id a (accounts d)) (\<lambda>rows. Inr (d\<lparr>accounts := rows\<rparr>)))"

definition create_account_body ::
  "backend_config \<Rightarrow> string \<Rightarrow> string \<Rightarrow> string \<Rightarrow> string \<Rightarrow> instant \<Rightarrow> account_row body" where
  "create_account_body cfg accountId phone pwHash uuid now d =
     bind_result (insert_account (new_account accountId phone pwHash now) d)
       (apply_delta_body accountId (signupGrantPoints cfg) Grant grant_note now uuid)"

definition createAccountWithGrant ::
  "backend_config \<Rightarrow> string \<Rightarrow> string \<Rightarrow> string \<Rightarrow> string \<Rightarrow> instant \<Rightarrow> account_row operation" where
  "createAccountWithGrant cfg accountId phone pwHash uuid now d =
     (case transaction (create_account_body cfg accountId phone pwHash uuid now) d of
        (d1, Inl e) \<Rightarrow>
          (d1, if e = SqlError UniqueConstraint then fail ''phone_taken'' 409 else Inl e)
      | (d1, Inr _) \<Rightarrow> (d1, read_account_back accountId d1))"

text \<open>
  A missing account is checked against a dummy hash and then refused, so that its answer is that of
  a wrong password; a disabled account is refused before its password is looked at.
\<close>

definition login ::
  "(utext \<Rightarrow> string \<Rightarrow> bool) \<Rightarrow> (string \<Rightarrow> string) \<Rightarrow> backend_config \<Rightarrow> string \<Rightarrow> utext \<Rightarrow> started_session \<Rightarrow> instant \<Rightarrow>
   (account_row \<times> started_session) operation" where
  "login verify hash cfg phone password new now d =
     (case findAccountByPhone d phone of
        None \<Rightarrow> (d, fail ''invalid_credentials'' 401)
      | Some a \<Rightarrow>
          if ac_status a \<noteq> Active then (d, fail ''account_disabled'' 403)
          else if \<not> verify password (ac_password_hash a) then (d, fail ''invalid_credentials'' 401)
          else case startSession hash cfg (ac_id a) new now d of
                 (d1, Inl e) \<Rightarrow> (d1, Inl e) | (d1, Inr s) \<Rightarrow> (d1, Inr (a, s)))"

definition changeAccountPassword ::
  "(utext \<Rightarrow> string \<Rightarrow> bool) \<Rightarrow> (string \<Rightarrow> string) \<Rightarrow> backend_config \<Rightarrow> string \<Rightarrow> utext \<Rightarrow> utext \<Rightarrow> string \<Rightarrow>
   started_session \<Rightarrow> instant \<Rightarrow> (account_row \<times> started_session) operation" where
  "changeAccountPassword verify hash cfg accountId currentPassword newPassword pwHash new now d =
     (case findAccountById d accountId of
        None \<Rightarrow> (d, fail ''invalid_token'' 401)
      | Some a \<Rightarrow>
          if \<not> verify currentPassword (ac_password_hash a) then (d, fail ''invalid_credentials'' 401)
          else if currentPassword = newPassword then (d, fail ''same_password'' 400)
          else
            let d1 = revokeAccountSessions accountId ''password_changed'' now
                       (update_account accountId (set_password_row pwHash False now) d)
            in case read_account_back accountId d1 of
                 Inl e \<Rightarrow> (d1, Inl e)
               | Inr updated \<Rightarrow>
                   (case startSession hash cfg accountId new now d1 of
                      (d2, Inl e) \<Rightarrow> (d2, Inl e) | (d2, Inr s) \<Rightarrow> (d2, Inr (updated, s))))"

definition adminResetAccountPassword :: "string \<Rightarrow> string \<Rightarrow> instant \<Rightarrow> unit operation" where
  "adminResetAccountPassword accountId pwHash now d =
     (case findAccountById d accountId of
        None \<Rightarrow> (d, fail ''account_not_found'' 404)
      | Some _ \<Rightarrow>
          let d1 = revokeAccountSessions accountId ''admin_password_reset'' now
                     (update_account accountId (set_password_row pwHash True now) d)
          in (d1, bind_result (read_account_back accountId d1) (\<lambda>_. Inr ())))"

section \<open>Request schemas and the account middleware\<close>

definition phoneSchema :: "string \<Rightarrow> bool" where
  "phoneSchema s \<longleftrightarrow>
     length s = 11 \<and> s ! 0 = CHR ''1'' \<and> s ! 1 \<in> set ''3456789'' \<and> list_all is_digit s"

definition refreshTokenSchema :: "string \<Rightarrow> bool" where
  "refreshTokenSchema s \<longleftrightarrow> 10 \<le> length s \<and> length s \<le> 200"

definition passwordSchema :: "utext \<Rightarrow> bool" where
  "passwordSchema t \<longleftrightarrow> 1 \<le> utf16_length t \<and> utf16_length t \<le> 128"

definition newPasswordSchema :: "utext \<Rightarrow> bool" where
  "newPasswordSchema t \<longleftrightarrow> 8 \<le> utf16_length t \<and> utf16_length t \<le> 128"

definition readBearerToken :: "utext option \<Rightarrow> utext" where
  "readBearerToken header =
     (case header of
        None \<Rightarrow> []
      | Some h \<Rightarrow> (case strip_prefix (ascii ''Bearer '') h of None \<Rightarrow> [] | Some t \<Rightarrow> js_trim t))"

text \<open>The outcome of \<open>jwtVerify\<close>: expired, invalid, or the payload of a token with a good signature.\<close>

datatype jwt_outcome = JwtExpired | JwtInvalid | JwtPayload json

record access_claims =
  cl_accountId :: utext
  cl_sessionId :: utext
  cl_passwordVersion :: rat

definition verifyAccessToken :: "jwt_outcome \<Rightarrow> access_claims result" where
  "verifyAccessToken j =
     (case j of
        JwtExpired \<Rightarrow> fail ''token_expired'' 401
      | JwtInvalid \<Rightarrow> fail ''invalid_token'' 401
      | JwtPayload p \<Rightarrow>
          (case (jget p ''sub'', jget p ''sid'', jget p ''pv'') of
             (Some (JStr sub), Some (JStr sid), Some (JNum pv)) \<Rightarrow>
               Inr \<lparr>cl_accountId = sub, cl_sessionId = sid, cl_passwordVersion = pv\<rparr>
           | _ \<Rightarrow> fail ''invalid_token'' 401))"

definition find_account_text :: "db \<Rightarrow> utext \<Rightarrow> account_row option" where
  "find_account_text d t = find_row (\<lambda>a. ascii (ac_id a)) t (accounts d)"

definition requireAccountAuth :: "(utext \<Rightarrow> jwt_outcome) \<Rightarrow> db \<Rightarrow> utext option \<Rightarrow> account_row result" where
  "requireAccountAuth jwtVerify d header =
     (let token = readBearerToken header in
      if token = [] then fail ''invalid_token'' 401
      else bind_result (verifyAccessToken (jwtVerify token)) (\<lambda>claims.
        case find_account_text d (cl_accountId claims) of
          None \<Rightarrow> fail ''invalid_token'' 401
        | Some a \<Rightarrow>
            if ac_status a \<noteq> Active then fail ''account_disabled'' 403
            else if cl_passwordVersion claims \<noteq> of_int (ac_password_version a)
            then fail ''stale_token'' 401
            else Inr a))"

section \<open>Routes\<close>

definition post_login ::
  "(utext \<Rightarrow> string \<Rightarrow> bool) \<Rightarrow> (string \<Rightarrow> string) \<Rightarrow> backend_config \<Rightarrow> string \<Rightarrow> utext \<Rightarrow> started_session \<Rightarrow> instant \<Rightarrow>
   (account_row \<times> started_session) operation" where
  "post_login verify hash cfg phone password new now d =
     (if phoneSchema phone \<and> passwordSchema password
      then login verify hash cfg phone password new now d
      else (d, fail ''validation_error'' 400))"

definition rotation_reply :: "db \<Rightarrow> refresh_rotation \<Rightarrow> (account_row \<times> string \<times> string) result" where
  "rotation_reply d r =
     (case r of
        Rotated a sid raw \<Rightarrow>
          (case findAccountById d a of None \<Rightarrow> fail ''invalid_refresh'' 401 | Some acc \<Rightarrow> Inr (acc, sid, raw))
      | ReuseDetected \<Rightarrow> fail ''refresh_reuse_detected'' 401
      | RefreshExpired \<Rightarrow> fail ''refresh_expired'' 401
      | RefreshDisabled \<Rightarrow> fail ''account_disabled'' 403
      | RefreshInvalid \<Rightarrow> fail ''invalid_refresh'' 401)"

definition post_refresh ::
  "(string \<Rightarrow> string) \<Rightarrow> backend_config \<Rightarrow> string \<Rightarrow> string \<Rightarrow> string \<Rightarrow> instant \<Rightarrow>
   (account_row \<times> string \<times> string) operation" where
  "post_refresh hash cfg raw nextId nextRaw now d =
     (if \<not> refreshTokenSchema raw then (d, fail ''validation_error'' 400)
      else case rotateRefreshToken hash cfg raw nextId nextRaw now d of
             (d1, Inl e) \<Rightarrow> (d1, Inl e) | (d1, Inr r) \<Rightarrow> (d1, rotation_reply d1 r))"

definition post_change_password ::
  "(utext \<Rightarrow> string \<Rightarrow> bool) \<Rightarrow> (string \<Rightarrow> string) \<Rightarrow> backend_config \<Rightarrow> account_row \<Rightarrow> utext \<Rightarrow> utext \<Rightarrow> string \<Rightarrow>
   started_session \<Rightarrow> instant \<Rightarrow> (account_row \<times> started_session) operation" where
  "post_change_password verify hash cfg account current newPw pwHash new now d =
     (if passwordSchema current \<and> newPasswordSchema newPw
      then changeAccountPassword verify hash cfg (ac_id account) current newPw pwHash new now d
      else (d, fail ''validation_error'' 400))"

definition post_logout :: "(string \<Rightarrow> string) \<Rightarrow> account_row \<Rightarrow> string \<Rightarrow> instant \<Rightarrow> unit operation" where
  "post_logout hash account raw now d =
     (if \<not> refreshTokenSchema raw then (d, fail ''validation_error'' 400)
      else case findRefreshTokenOwner hash d raw of
             Some (sid, owner) \<Rightarrow>
               if owner = ac_id account then (revokeSession sid ''logout'' now d, Inr ())
               else (d, Inr ())
           | None \<Rightarrow> (d, Inr ()))"

definition accountIdSchema :: "string \<Rightarrow> bool" where
  "accountIdSchema s \<longleftrightarrow> 1 \<le> length s \<and> length s \<le> 64"

definition post_accounts ::
  "backend_config \<Rightarrow> string \<Rightarrow> string \<Rightarrow> utext \<Rightarrow> string \<Rightarrow> string \<Rightarrow> instant \<Rightarrow> account_row operation" where
  "post_accounts cfg accountId phone initialPassword pwHash uuid now d =
     (if phoneSchema phone \<and> newPasswordSchema initialPassword
      then createAccountWithGrant cfg accountId phone pwHash uuid now d
      else (d, fail ''validation_error'' 400))"

definition post_topup ::
  "string \<Rightarrow> int \<Rightarrow> utext option \<Rightarrow> instant \<Rightarrow> string \<Rightarrow> account_row operation" where
  "post_topup accountId points note now uuid d =
     (if accountIdSchema accountId \<and> 1 \<le> points \<and> points \<le> 10000000 \<and>
         (case note of None \<Rightarrow> True | Some t \<Rightarrow> utf16_length t \<le> 500)
      then applyAccountLedgerDelta accountId points Topup (case_option [] id note) now uuid d
      else (d, fail ''validation_error'' 400))"

definition post_adjust :: "string \<Rightarrow> int \<Rightarrow> utext \<Rightarrow> instant \<Rightarrow> string \<Rightarrow> account_row operation" where
  "post_adjust accountId delta note now uuid d =
     (if accountIdSchema accountId \<and> - 10000000 \<le> delta \<and> delta \<le> 10000000 \<and> delta \<noteq> 0 \<and>
         1 \<le> utf16_length note \<and> utf16_length note \<le> 500
      then applyAccountLedgerDelta accountId delta Adjust note now uuid d
      else (d, fail ''validation_error'' 400))"

section \<open>The operator's login throttle\<close>

record login_throttle =
  th_consecutiveFailures :: int
  th_unitMs :: int
  th_maxMs :: int

definition new_throttle :: "int \<Rightarrow> login_throttle" where
  "new_throttle unitMs = \<lparr>th_consecutiveFailures = 0, th_unitMs = unitMs, th_maxMs = unitMs * 20\<rparr>"

definition penalize :: "login_throttle \<Rightarrow> login_throttle \<times> int" where
  "penalize th =
     (let n = th_consecutiveFailures th + 1
      in (th\<lparr>th_consecutiveFailures := n\<rparr>, min (n * th_unitMs th) (th_maxMs th)))"

definition reset_throttle :: "login_throttle \<Rightarrow> login_throttle" where
  "reset_throttle th = th\<lparr>th_consecutiveFailures := 0\<rparr>"

text \<open>An attempt: the delay before its answer and whether it is let in; \<open>ok\<close> is the password test.\<close>

definition admin_login :: "bool \<Rightarrow> login_throttle \<Rightarrow> login_throttle \<times> int \<times> unit result" where
  "admin_login ok th =
     (if ok then (reset_throttle th, 0, Inr ())
      else let (th1, delay) = penalize th in (th1, delay, fail ''invalid_credentials'' 401))"

fun admin_attempts :: "bool list \<Rightarrow> login_throttle \<Rightarrow> login_throttle \<times> int list" where
  "admin_attempts [] th = (th, [])"
| "admin_attempts (ok # rest) th =
     (let (th1, delay, _) = admin_login ok th; (th2, delays) = admin_attempts rest th1
      in (th2, delay # delays))"

section \<open>Invariants\<close>

text \<open>
  The operator and password statements write columns that the billing invariants do not read. The
  interface of such an update is that it keeps the id, the phone and the balance.
\<close>

locale account_update = key_update ac_id u for u :: "account_row \<Rightarrow> account_row" +
  assumes balance_stable: "ac_balance (u a) = ac_balance a"
    and phone_stable: "ac_phone (u a) = ac_phone a"
begin

lemma find_account_update:
  "findAccountById (update_account i u d) j =
     (if j = i then map_option u (findAccountById d j) else findAccountById d j)"
  by (simp add: findAccountById_def update_account_def find_row_update)

lemma gateway_inv_update: "gateway_inv (update_account i u d) = gateway_inv d"
proof -
  have ledger: "ledger_ok (update_account i u d) = ledger_ok d"
    by (simp add: ledger_ok_def update_account_def entries_of_def ball_update_rows if_distrib
        key_stable balance_stable cong: if_cong)
  have frozen: "frozenPointsFor (update_account i u d) j = frozenPointsFor d j" for j
    by (simp add: frozenPointsFor_def update_account_def)
  have "solvent (update_account i u d) j = solvent d j" for j
    by (auto simp: solvent_def find_account_update balance_stable frozen)
  moreover have "permits_ok (update_account i u d) = permits_ok d"
    and "orders_ok (update_account i u d) = orders_ok d"
    and "books_balanced (update_account i u d) j = books_balanced d j"
    and "cache_ok (update_account i u d) = cache_ok d" for j
    by (simp_all add: permits_ok_def orders_ok_def books_balanced_def spend_sum_def permit_spent_def
        order_spent_def cache_ok_def update_account_def)
  ultimately show ?thesis
    by (simp add: gateway_inv_def backend_inv_def billing_inv_def ledger)
qed

lemma sessions_ok_update: "sessions_ok (update_account i u d) = sessions_ok d"
  by (simp add: sessions_ok_def update_account_def)

lemma phones_update: "map ac_phone (accounts (update_account i u d)) = map ac_phone (accounts d)"
  by (simp add: update_account_def update_rows_def phone_stable)

end

lemmas account_row_defs = set_status_row_def set_note_row_def set_password_row_def

interpretation status_update: account_update "set_status_row status now" for status now
  by unfold_locales (simp_all add: account_row_defs)

interpretation note_update: account_update "set_note_row t now" for t now
  by unfold_locales (simp_all add: account_row_defs)

interpretation password_update: account_update "set_password_row pwHash mustChange now"
  for pwHash mustChange now
  by unfold_locales (simp_all add: account_row_defs)

text \<open>The session tables do not matter to the billing core, nor the other way round.\<close>

lemma gateway_inv_sessions:
  assumes "accounts d' = accounts d" "ledger_entries d' = ledger_entries d"
    "billing_permits d' = billing_permits d" "permit_unit_reports d' = permit_unit_reports d"
    "publish_orders d' = publish_orders d"
    "distribution_resource_cache d' = distribution_resource_cache d"
  shows "gateway_inv d' = gateway_inv d"
  using backend_inv_cong [OF assms(1-5)] assms(6) by (simp add: gateway_inv_def cache_ok_def)

lemma revoke_ids_gateway: "gateway_inv (revoke_ids S reason now d) = gateway_inv d"
  by (rule gateway_inv_sessions) (simp_all add: revoke_ids_def)

lemma session_opened_gateway: "gateway_inv (session_opened hash cfg a new now d) = gateway_inv d"
  by (rule gateway_inv_sessions) (simp_all add: session_opened_def)

lemma rotated_gateway: "gateway_inv (rotated hash cfg t s j w now d) = gateway_inv d"
  by (rule gateway_inv_sessions) (simp_all add: rotated_def)

definition phones_ok :: "db \<Rightarrow> bool" where
  "phones_ok d \<longleftrightarrow> distinct (map ac_phone (accounts d))"

definition service_inv :: "db \<Rightarrow> bool" where
  "service_inv d \<longleftrightarrow> gateway_inv d \<and> sessions_ok d \<and> phones_ok d"

lemma service_inv_revoke:
  "service_inv d \<Longrightarrow> service_inv (revoke_ids S reason now d)"
  by (simp add: service_inv_def revoke_ids_gateway sessions_ok_revoke_ids phones_ok_def revoke_ids_frame)

lemma service_inv_revoke_account:
  "service_inv d \<Longrightarrow> service_inv (revokeAccountSessions a reason now d)"
  using service_inv_revoke [of d] by (simp add: service_inv_def revokeAccountSessions_ids sessions_ok_def)

context account_update
begin

lemma service_inv_update: "service_inv d \<Longrightarrow> service_inv (update_account i u d)"
  by (simp add: service_inv_def gateway_inv_update sessions_ok_update phones_ok_def phones_update)

end

lemma service_inv_start:
  assumes "service_inv d" and "startSession hash cfg a new now d = (d', r)"
  shows "service_inv d'"
proof (cases r)
  case (Inl e)
  with assms show ?thesis by (auto dest: startSession_Inl)
next
  case (Inr x)
  with assms(2) have run: "start_session_body hash cfg a new now d = Inr (d', ())"
    by (simp add: startSession_Inr)
  then have d': "d' = session_opened hash cfg a new now d" by (simp add: start_session_body_Inr)
  have "accounts d' = accounts d" by (simp add: d' session_opened_def)
  with assms(1) sessions_ok_opened [OF _ run] show ?thesis
    by (simp add: service_inv_def session_opened_gateway d' phones_ok_def)
qed

lemma service_inv_rotate:
  assumes inv: "service_inv d" and run: "rotateRefreshToken hash cfg raw nextId nextRaw now d = (d', r)"
  shows "service_inv d'"
proof -
  have ok: "sessions_ok d" using inv by (simp add: service_inv_def)
  show ?thesis
  proof (cases rule: rotate_cases [OF ok run, case_names same reuse rotated])
    case same
    with inv show ?thesis by simp
  next
    case (reuse t)
    with inv show ?thesis by (simp add: revokeSession_ids service_inv_revoke)
  next
    case (rotated t s a)
    then have d': "d' = Sessions.rotated hash cfg (rt_id t) (rt_session_id t) nextId nextRaw now d"
      by (simp add: rotate_body_Inr)
    have "accounts d' = accounts d" by (simp add: d' rotated_def)
    with inv sessions_ok_rotate [OF ok run] show ?thesis
      by (simp add: service_inv_def phones_ok_def d' rotated_gateway)
  qed
qed

text \<open>Grants, top-ups and adjustments are not spending: they keep the books of permits and orders.\<close>

lemma gateway_inv_delta:
  assumes inv: "gateway_inv d" and kind: "\<not> is_spend kind"
    and run: "apply_delta_body i delta kind t now uuid d = Inr (d', updated)"
  shows "gateway_inv d'"
proof -
  obtain account where d': "d' = (if kind = Topup then clear_quota_of i (posted account delta kind t now uuid d)
      else posted account delta kind t now uuid d)"
    using run by (rule apply_delta_body_Inr)
  have ids: "ac_id ` set (accounts d') = ac_id ` set (accounts d)"
    by (simp add: d' ac_id_image_clear_quota_of)
  have L: "ledger_ok d" "\<forall>j. solvent d j"
    using inv by (simp_all add: gateway_inv_def backend_inv_def billing_inv_def)
  have "ledger_ok d'" "\<forall>j. solvent d' j"
    using ledger_ok_apply_delta [OF L(1) run] solvent_apply_delta [OF _ run] L(2) by simp_all
  moreover have "permits_ok d' = permits_ok d" "orders_ok d' = orders_ok d" "cache_ok d' = cache_ok d"
    using ids by (simp_all add: permits_ok_def orders_ok_def cache_ok_def d')
  moreover have "books_balanced d' j = books_balanced d j" for j
    using kind spend_sum_posted [of account delta kind t now uuid d j]
    by (cases "kind = Topup") (simp_all add: books_balanced_def d' permit_spent_def order_spent_def spend_sum_def)
  ultimately show ?thesis
    using inv by (simp add: gateway_inv_def backend_inv_def billing_inv_def)
qed

lemma gateway_inv_new_account:
  assumes inv: "gateway_inv d" and fresh: "ac_id a \<notin> ac_id ` set (accounts d)" and zero: "ac_balance a = 0"
  shows "gateway_inv (d\<lparr>accounts := accounts d @ [a]\<rparr>)"
proof -
  let ?d = "d\<lparr>accounts := accounts d @ [a]\<rparr>"
  have L: "ledger_ok d" "permits_ok d" "orders_ok d" "\<forall>i. solvent d i" "\<forall>i. books_balanced d i" "cache_ok d"
    using inv by (simp_all add: gateway_inv_def backend_inv_def billing_inv_def)
  have none: "entries_of d (ac_id a) = []"
    using L(1) fresh unfolding ledger_ok_def entries_of_def filter_empty_conv by (metis imageI subsetD)
  have "ledger_ok ?d"
    using L(1) fresh zero none by (auto simp: ledger_ok_def entries_of_def delta_sum_def)
  moreover have "permits_ok ?d" "orders_ok ?d" "cache_ok ?d" "\<forall>i. books_balanced ?d i"
    using L by (auto simp: permits_ok_def orders_ok_def cache_ok_def books_balanced_def spend_sum_def
        order_spent_def)
  moreover have "solvent ?d i" for i
  proof -
    have owners: "bp_account_id ` set (billing_permits d) \<subseteq> ac_id ` set (accounts d)"
      "po_account_id ` set (publish_orders d) \<subseteq> ac_id ` set (accounts d)"
      using L(2,3) by (simp_all add: permits_ok_def orders_ok_def)
    have "permit_frozen_of (ac_id a) (billing_permits d) = 0" "order_frozen_of (ac_id a) (publish_orders d) = 0"
      using fresh owners(1) [THEN subsetD, OF imageI] owners(2) [THEN subsetD, OF imageI]
      unfolding permit_frozen_of_def order_frozen_of_def
      by (intro sum_where_zero; metis)+
    with L(4) zero show ?thesis
      by (auto simp: solvent_def frozenPointsFor_def findAccountById_def find_row_append split: option.splits)
  qed
  ultimately show ?thesis by (simp add: gateway_inv_def backend_inv_def billing_inv_def)
qed

lemma create_account_body_Inr:
  assumes "create_account_body cfg i phone pwHash uuid now d = Inr (d', x)"
  shows "phone \<notin> ac_phone ` set (accounts d)" and "i \<notin> ac_id ` set (accounts d)"
    and "apply_delta_body i (signupGrantPoints cfg) Grant grant_note now uuid
      (d\<lparr>accounts := accounts d @ [new_account i phone pwHash now]\<rparr>) = Inr (d', x)"
  using assms
  by (auto simp: create_account_body_def insert_account_def bind_result_Inr_iff insert_row_Inr_iff
      new_account_def split: if_split_asm)

lemma apply_delta_frame:
  assumes "apply_delta_body i delta kind t now uuid d = Inr (d', updated)"
  shows "auth_sessions d' = auth_sessions d" and "refresh_tokens d' = refresh_tokens d"
    and "ac_id ` set (accounts d') = ac_id ` set (accounts d)"
    and "map ac_phone (accounts d') = map ac_phone (accounts d)"
proof -
  obtain account where d': "d' = (if kind = Topup then clear_quota_of i (posted account delta kind t now uuid d)
      else posted account delta kind t now uuid d)"
    using assms by (rule apply_delta_body_Inr)
  show "auth_sessions d' = auth_sessions d" "refresh_tokens d' = refresh_tokens d"
    "ac_id ` set (accounts d') = ac_id ` set (accounts d)"
    by (simp_all add: d' ac_id_image_clear_quota_of)
  show "map ac_phone (accounts d') = map ac_phone (accounts d)"
    by (simp add: d' clear_quota_of_def posted_def update_rows_def row_update_defs)
qed

lemma sessions_ok_frame:
  assumes "sessions_ok d" "auth_sessions d' = auth_sessions d" "refresh_tokens d' = refresh_tokens d"
    "ac_id ` set (accounts d) \<subseteq> ac_id ` set (accounts d')"
  shows "sessions_ok d'"
  using assms by (auto simp: sessions_ok_def)

lemma service_inv_delta:
  assumes "service_inv d" and "\<not> is_spend kind"
    and run: "apply_delta_body i delta kind t now uuid d = Inr (d', updated)"
  shows "service_inv d'"
  using assms gateway_inv_delta [OF _ assms(2) run] sessions_ok_frame [of d d'] apply_delta_frame [OF run]
  by (simp add: service_inv_def phones_ok_def)

lemma service_inv_create:
  assumes inv: "service_inv d" and run: "create_account_body cfg i phone pwHash uuid now d = Inr (d', x)"
  shows "service_inv d'"
proof -
  note R = create_account_body_Inr [OF run]
  let ?d = "d\<lparr>accounts := accounts d @ [new_account i phone pwHash now]\<rparr>"
  have "service_inv ?d"
    using inv R(1,2) gateway_inv_new_account [of d "new_account i phone pwHash now"]
    by (auto simp: service_inv_def phones_ok_def new_account_def intro: sessions_ok_frame)
  from service_inv_delta [OF this _ R(3)] show ?thesis by (simp add: is_spend_def)
qed

section \<open>Properties of the accounts\<close>

lemma sessions_of_update [simp]: "sessions_of (update_account i u d) j = sessions_of d j"
  by (simp add: sessions_of_def update_account_def)

lemma find_account_text_ascii: "find_account_text d (ascii i) = findAccountById d i"
  by (simp add: find_account_text_def findAccountById_def find_row_def ascii_eq_iff)

lemma find_account_text_Some:
  "find_account_text d t = Some a \<Longrightarrow> t = ascii (ac_id a) \<and> findAccountById d (ac_id a) = Some a"
  using find_row_SomeD [of "\<lambda>a. ascii (ac_id a)" t "accounts d" a] find_account_text_ascii [of d "ac_id a"]
  by (auto simp: find_account_text_def)

lemma auth_Inr:
  assumes "requireAccountAuth jwt d header = Inr a"
  obtains claims where "readBearerToken header \<noteq> []"
    and "verifyAccessToken (jwt (readBearerToken header)) = Inr claims"
    and "cl_accountId claims = ascii (ac_id a)" and "findAccountById d (ac_id a) = Some a"
    and "ac_status a = Active" and "cl_passwordVersion claims = of_int (ac_password_version a)"
  using assms
  by (auto simp: requireAccountAuth_def Let_def bind_result_Inr_iff split: if_split_asm option.split_asm
      dest: find_account_text_Some)

text \<open>Where the update and the revocation of an account meet, in one place for both password paths.\<close>

lemma revoked_account:
  assumes inv: "service_inv d" and keeps: "account_update u"
    and d1: "d1 = revokeAccountSessions i reason now (update_account i u d)"
  shows "service_inv d1" and "findAccountById d1 i = map_option u (findAccountById d i)"
    and "\<And>sid. sid \<in> set (sessions_of d i) \<Longrightarrow> session_revoked d1 sid"
    and "ac_id ` set (accounts d1) = ac_id ` set (accounts d)"
proof -
  let ?d = "update_account i u d"
  have ok: "sessions_ok ?d" using inv by (simp add: service_inv_def account_update.sessions_ok_update [OF keeps])
  have d1': "d1 = revoke_ids (set (sessions_of d i)) reason now ?d"
    using ok by (simp add: d1 revokeAccountSessions_ids sessions_ok_distinct)
  show "service_inv d1" using inv by (simp add: d1' service_inv_revoke account_update.service_inv_update [OF keeps])
  show "findAccountById d1 i = map_option u (findAccountById d i)"
    using account_update.find_account_update [OF keeps, of i d i]
    by (simp add: d1' findAccountById_def revoke_ids_frame)
  show "ac_id ` set (accounts d1) = ac_id ` set (accounts d)"
    using keeps by (simp add: d1' revoke_ids_frame update_account_def account_update_def key_update.key_image_update)
  show "session_revoked d1 sid" if sid: "sid \<in> set (sessions_of d i)" for sid
  proof -
    obtain s where s: "s \<in> set (auth_sessions d)" "as_id s = sid"
      using sid by (auto simp: sessions_of_def)
    then show ?thesis
      using sid unfolding session_revoked_def d1' revoke_ids_frame bex_update_rows
      by (intro bexI [of _ s]) (auto simp: update_account_def)
  qed
qed

text \<open>Old refresh tokens of an account die with its sessions, whatever session is opened next.\<close>

lemma revoked_account_tokens:
  assumes inv: "service_inv d" and keeps: "account_update u"
    and d1: "d1 = revokeAccountSessions i reason now (update_account i u d)"
    and later: "(auth_step hash)\<^sup>*\<^sup>* d1 d'"
    and grow: "\<exists>xs. refresh_tokens d' = refresh_tokens d1 @ xs"
    and t: "find_token d (hash raw) = Some t" "rt_session_id t \<in> set (sessions_of d i)"
  shows "rotateRefreshToken hash cfg raw nextId nextRaw now' d' = (d', Inr RefreshInvalid)"
proof -
  note R = revoked_account [OF inv keeps d1]
  have K: "sessions_ok d' \<and> (\<forall>i. session_revoked d1 i \<longrightarrow> session_revoked d' i)"
    using auth_steps_keep [OF later] R(1) by (simp add: service_inv_def)
  let ?t = "if rt_revoked_at t = None \<and> rt_session_id t \<in> set (sessions_of d i) then revoke_token_row now t else t"
  have "t \<in> set (refresh_tokens d)" "rt_token_hash t = hash raw"
    using t(1) inv by (simp_all add: service_inv_def distinct_find_token)
  then have "?t \<in> set (refresh_tokens d')" "rt_token_hash ?t = hash raw"
    using grow by (auto simp: d1 revokeAccountSessions_def set_update_rows update_account_def sessions_of_def)
  then have "find_token d' (hash raw) = Some ?t" using K by (simp add: distinct_find_token)
  moreover have "session_revoked d' (rt_session_id ?t)" using K R(3) t(2) by simp
  ultimately show ?thesis using K by (intro dead_token_refused) simp_all
qed

lemma startSession_steps:
  "startSession hash cfg a new now d = (d', r) \<Longrightarrow> (auth_step hash)\<^sup>*\<^sup>* d d'"
  by (intro r_into_rtranclp auth_step.Start)

lemma changeAccountPassword_Inr:
  assumes run: "changeAccountPassword verify hash cfg i cur newPw pwHash new now d = (d', Inr (acc, s))"
  obtains a d1 where "findAccountById d i = Some a"
    and "d1 = revokeAccountSessions i ''password_changed'' now (update_account i (set_password_row pwHash False now) d)"
    and "findAccountById d1 i = Some acc" and "startSession hash cfg i new now d1 = (d', Inr s)"
    and "verify cur (ac_password_hash a)" and "cur \<noteq> newPw"
  using run
  by (auto simp: changeAccountPassword_def Let_def read_account_back_def
      split: option.split_asm if_split_asm prod.split_asm sum.split_asm)

lemma demo_service_inv: "service_inv demo_login"
proof -
  have "service_inv demo_db"
    using demo_backend_inv
    by (simp add: service_inv_def gateway_inv_def cache_ok_def phones_ok_def sessions_ok_def)
      (simp add: demo_db_def empty_db_def)
  moreover have "startSession id default_config ''acc-1'' demo_session 0 demo_db = (demo_login, Inr demo_session)"
    by (simp add: startSession_Inr start_session_body_Inr demo_login_def demo_db_def demo_account_def
        empty_db_def)
  ultimately show ?thesis by (rule service_inv_start)
qed

definition demo_session2 :: started_session where
  "demo_session2 = \<lparr>st_sessionId = ''s-2'', st_refreshTokenId = ''t-2'', st_refreshRaw = ''xr_other''\<rparr>"

text \<open>
  C22: changing the password locks every old credential out and hands out a working new one. Every
  request that authenticated as the account before is answered with a stale token, every refresh
  token of an old session is refused, and the new refresh token can be rotated while the account is
  active and the token has not expired.
\<close>

theorem password_change_locks_out:
  assumes inv: "service_inv d"
    and run: "changeAccountPassword verify hash cfg i cur newPw pwHash new now d = (d', Inr (acc, s))"
  shows "(\<forall>jwt header a. requireAccountAuth jwt d header = Inr a \<longrightarrow> ac_id a = i \<longrightarrow>
       requireAccountAuth jwt d' header = fail ''stale_token'' 401) \<and>
    (\<forall>raw t. find_token d (hash raw) = Some t \<longrightarrow> rt_session_id t \<in> set (sessions_of d i) \<longrightarrow>
       rotateRefreshToken hash cfg raw nextId nextRaw later d' = (d', Inr RefreshInvalid)) \<and>
    (ac_status acc = Active \<longrightarrow> later < now + refreshTokenTtlSeconds cfg * 1000 \<longrightarrow>
       hash nextRaw \<notin> rt_token_hash ` set (refresh_tokens d') \<longrightarrow> nextId \<notin> rt_id ` set (refresh_tokens d') \<longrightarrow>
       snd (rotateRefreshToken hash cfg (st_refreshRaw s) nextId nextRaw later d') =
         Inr (Rotated i (st_sessionId s) nextRaw))"
proof -
  obtain a d1 where a: "findAccountById d i = Some a"
    and d1: "d1 = revokeAccountSessions i ''password_changed'' now (update_account i (set_password_row pwHash False now) d)"
    and acc: "findAccountById d1 i = Some acc" and start: "startSession hash cfg i new now d1 = (d', Inr s)"
    using run by (rule changeAccountPassword_Inr)
  have "account_update (set_password_row pwHash False now)" by unfold_locales
  note R = revoked_account [OF inv this d1] and tokens = revoked_account_tokens [OF inv this d1]
  have d': "d' = session_opened hash cfg i new now d1" and s: "s = new"
    using start by (simp_all add: startSession_Inr start_session_body_Inr)
  have acc': "acc = set_password_row pwHash False now a" using R(2) a acc by simp
  have found: "findAccountById d' j = findAccountById d1 j" for j
    by (simp add: d' session_opened_def findAccountById_def)
  have "requireAccountAuth jwt d' header = fail ''stale_token'' 401"
    if "requireAccountAuth jwt d header = Inr b" "ac_id b = i" for jwt header b
    using that(1)
  proof (rule auth_Inr)
    fix claims
    assume C: "readBearerToken header \<noteq> []" "verifyAccessToken (jwt (readBearerToken header)) = Inr claims"
      "cl_accountId claims = ascii (ac_id b)" "findAccountById d (ac_id b) = Some b" "ac_status b = Active"
      "cl_passwordVersion claims = of_int (ac_password_version b)"
    with a that(2) have "b = a" by simp
    with C that(2) show ?thesis
      by (simp add: requireAccountAuth_def find_account_text_ascii found acc acc' set_password_row_def)
  qed
  moreover have "rotateRefreshToken hash cfg raw nextId nextRaw later d' = (d', Inr RefreshInvalid)"
    if "find_token d (hash raw) = Some t" "rt_session_id t \<in> set (sessions_of d i)" for raw t
    using that startSession_steps [OF start] by (intro tokens) (auto simp: d' session_opened_def)
  moreover have "snd (rotateRefreshToken hash cfg (st_refreshRaw s) nextId nextRaw later d') =
      Inr (Rotated i (st_sessionId s) nextRaw)"
    if "ac_status acc = Active" "later < now + refreshTokenTtlSeconds cfg * 1000"
      "hash nextRaw \<notin> rt_token_hash ` set (refresh_tokens d')" "nextId \<notin> rt_id ` set (refresh_tokens d')"
  proof -
    have ok: "sessions_ok d'"
      using R(1) service_inv_start [OF R(1) start] by (simp add: service_inv_def)
    from that rotate_succeeds [OF ok, of "new_token cfg (st_refreshTokenId new) (st_sessionId new) (hash (st_refreshRaw new)) now"
        hash "st_refreshRaw new" later "new_session cfg (st_sessionId new) i now" acc nextRaw nextId cfg] acc
    show ?thesis by (simp add: s d' session_opened_def new_token_def new_session_def findAccountById_def)
  qed
  ultimately show ?thesis by blast
qed

lemma demo_token:
  "find_token demo_login ''xr_first'' = Some (new_token default_config ''t-1'' ''s-1'' ''xr_first'' 0)"
  "sessions_of demo_login ''acc-1'' = [''s-1'']"
  by (simp_all add: find_token_def sessions_of_def demo_login_def session_opened_def demo_session_def demo_db_def
      empty_db_def new_token_def new_session_def)

theorem password_change_locks_out_witness:
  "\<exists>d' acc s. changeAccountPassword (\<lambda>p h. h = ''h'') id default_config ''acc-1'' [1] [2] ''h2'' demo_session2 5 demo_login =
      (d', Inr (acc, s)) \<and>
    snd (rotateRefreshToken id default_config ''xr_first'' ''t-3'' ''xr_third'' 10 d') = Inr RefreshInvalid \<and>
    snd (rotateRefreshToken id default_config ''xr_other'' ''t-3'' ''xr_third'' 10 d') =
      Inr (Rotated ''acc-1'' ''s-2'' ''xr_third'')"
proof -
  let ?run = "changeAccountPassword (\<lambda>p h. h = ''h'') id default_config ''acc-1'' [1] [2] ''h2'' demo_session2 5 demo_login"
  let ?d = "fst ?run"
  have run: "?run = (?d, Inr (set_password_row ''h2'' False 5 demo_account, demo_session2))"
    and act: "ac_status (set_password_row ''h2'' False 5 demo_account) = Active"
    and fresh: "id ''xr_third'' \<notin> rt_token_hash ` set (refresh_tokens ?d)" "''t-3'' \<notin> rt_id ` set (refresh_tokens ?d)"
    by (simp_all add: changeAccountPassword_def demo_login_def session_opened_def demo_session_def demo_session2_def
        demo_db_def demo_account_def empty_db_def findAccountById_def update_account_def set_password_row_def
        revokeAccountSessions_def sessions_of_def read_account_back_def startSession_def transaction_def
        start_session_body_def insert_session_def insert_token_def insert_row_def new_session_def new_token_def
        revoke_session_row_def revoke_token_row_def)
  note P = password_change_locks_out [OF demo_service_inv run, of "''t-3''" "''xr_third''" 10]
  have "snd (rotateRefreshToken id default_config ''xr_first'' ''t-3'' ''xr_third'' 10 ?d) = Inr RefreshInvalid"
    using P [THEN conjunct2, THEN conjunct1] demo_token by (simp add: new_token_def)
  moreover have "snd (rotateRefreshToken id default_config ''xr_other'' ''t-3'' ''xr_third'' 10 ?d) =
      Inr (Rotated ''acc-1'' ''s-2'' ''xr_third'')"
    using P [THEN conjunct2, THEN conjunct2] act fresh by (simp add: demo_session2_def default_config_def)
  ultimately show ?thesis using run by blast
qed

text \<open>
  C25: disabling an account takes effect at once. Every request that authenticated as the account is
  refused, its refresh tokens are refused, a login is refused whatever the password, and neither the
  balance nor the ledger moves.
\<close>

theorem disabled_account_locked_out:
  assumes inv: "service_inv d" and run: "setAccountStatus i Disabled now d = (d', Inr acc)"
  shows "(\<forall>jwt header a. requireAccountAuth jwt d header = Inr a \<longrightarrow> ac_id a = i \<longrightarrow>
       requireAccountAuth jwt d' header = fail ''account_disabled'' 403) \<and>
    (\<forall>raw t. find_token d (hash raw) = Some t \<longrightarrow> rt_session_id t \<in> set (sessions_of d i) \<longrightarrow>
       rotateRefreshToken hash cfg raw nextId nextRaw later d' = (d', Inr RefreshInvalid)) \<and>
    login verify hash cfg (ac_phone acc) password new later d' = (d', fail ''account_disabled'' 403) \<and>
    (\<exists>a. findAccountById d i = Some a \<and> ac_balance acc = ac_balance a) \<and> ledger_entries d' = ledger_entries d"
proof -
  obtain a where a: "findAccountById d i = Some a"
    and d': "d' = revokeAccountSessions i ''admin_disabled'' now (update_account i (set_status_row Disabled now) d)"
    and acc: "findAccountById d' i = Some acc"
    using run by (auto simp: setAccountStatus_def Let_def read_account_back_def split: option.split_asm)
  have keeps: "account_update (set_status_row Disabled now)" by unfold_locales
  note R = revoked_account [OF inv keeps d'] and tokens = revoked_account_tokens [OF inv keeps d' rtranclp.rtrancl_refl]
  have acc': "acc = set_status_row Disabled now a" using R(2) a acc by simp
  have "requireAccountAuth jwt d' header = fail ''account_disabled'' 403"
    if "requireAccountAuth jwt d header = Inr b" "ac_id b = i" for jwt header b
    using that(1)
  proof (rule auth_Inr)
    fix claims
    assume "readBearerToken header \<noteq> []" "verifyAccessToken (jwt (readBearerToken header)) = Inr claims"
      "cl_accountId claims = ascii (ac_id b)"
    with that(2) show ?thesis
      by (simp add: requireAccountAuth_def find_account_text_ascii acc acc' set_status_row_def)
  qed
  moreover have "findAccountByPhone d' (ac_phone acc) = Some acc"
    using R(1) acc by (simp add: service_inv_def phones_ok_def findAccountByPhone_def find_row_Some_iff
        findAccountById_member)
  then have "login verify hash cfg (ac_phone acc) password new later d' = (d', fail ''account_disabled'' 403)"
    by (simp add: login_def acc' set_status_row_def)
  moreover have "ledger_entries d' = ledger_entries d"
    by (simp add: d' revokeAccountSessions_def update_account_def)
  moreover have "\<exists>a. findAccountById d i = Some a \<and> ac_balance acc = ac_balance a"
    using a acc' by (simp add: set_status_row_def)
  ultimately show ?thesis using tokens by blast
qed

theorem disabled_account_locked_out_witness:
  "\<exists>d' acc. setAccountStatus ''acc-1'' Disabled 5 demo_login = (d', Inr acc) \<and>
    snd (rotateRefreshToken id default_config ''xr_first'' ''t-3'' ''xr_third'' 10 d') = Inr RefreshInvalid \<and>
    snd (login (\<lambda>p h. True) id default_config ''13800000000'' [1] demo_session2 10 d') = fail ''account_disabled'' 403"
proof -
  let ?run = "setAccountStatus ''acc-1'' Disabled 5 demo_login"
  have run: "?run = (fst ?run, Inr (set_status_row Disabled 5 demo_account))"
    by (simp add: setAccountStatus_def demo_login_def session_opened_def demo_session_def demo_db_def
        demo_account_def findAccountById_def update_account_def set_status_row_def
        revokeAccountSessions_def read_account_back_def)
  note P = disabled_account_locked_out [OF demo_service_inv run, of id default_config "''t-3''" "''xr_third''" 10]
  have "snd (rotateRefreshToken id default_config ''xr_first'' ''t-3'' ''xr_third'' 10 (fst ?run)) = Inr RefreshInvalid"
    using P [THEN conjunct2, THEN conjunct1] demo_token by (simp add: new_token_def)
  moreover have "snd (login (\<lambda>p h. True) id default_config ''13800000000'' [1] demo_session2 10 (fst ?run)) =
      fail ''account_disabled'' 403"
    using P [THEN conjunct2, THEN conjunct2, THEN conjunct1]
    by (simp add: set_status_row_def demo_account_def)
  ultimately show ?thesis using run by blast
qed

text \<open>
  Opening an account. A phone that is already registered is refused and nothing changes; with a
  new phone and new identifiers the account exists afterwards with the granted points as its balance,
  must change its password, has exactly one ledger entry, and the service invariant is kept.
\<close>

theorem createAccountWithGrant_spec:
  assumes inv: "service_inv d" and fresh: "i \<notin> ac_id ` set (accounts d)"
    and uuid: "uuid \<notin> le_id ` set (ledger_entries d)" and grant: "0 \<le> signupGrantPoints cfg"
  shows "if phone \<in> ac_phone ` set (accounts d)
     then createAccountWithGrant cfg i phone pwHash uuid now d = (d, fail ''phone_taken'' 409)
     else \<exists>d' acc. createAccountWithGrant cfg i phone pwHash uuid now d = (d', Inr acc) \<and> service_inv d' \<and>
       findAccountById d' i = Some acc \<and> ac_phone acc = phone \<and> ac_balance acc = signupGrantPoints cfg \<and>
       ac_must_change_password acc \<and> map le_delta (entries_of d' i) = [signupGrantPoints cfg]"
proof (cases "phone \<in> ac_phone ` set (accounts d)")
  case True
  then show ?thesis
    by (simp add: createAccountWithGrant_def transaction_def create_account_body_def insert_account_def
        new_account_def)
next
  case False
  let ?a = "new_account i phone pwHash now"
  let ?d = "d\<lparr>accounts := accounts d @ [?a]\<rparr>"
  let ?p = "posted ?a (signupGrantPoints cfg) Grant grant_note now uuid ?d"
  let ?b = "set_balance (signupGrantPoints cfg) now ?a"
  have G: "gateway_inv d" using inv by (simp add: service_inv_def)
  have a: "ac_id ?a = i" "ac_balance ?a = 0" "ac_phone ?a = phone" by (simp_all add: new_account_def)
  have found: "findAccountById ?d i = Some ?a"
    using fresh by (simp add: findAccountById_def find_row_append a split: option.split)
      (auto dest: find_row_SomeD)
  have ok: "ledger_ok ?d"
    using gateway_inv_new_account [OF G, of ?a] fresh a
    by (simp add: gateway_inv_def backend_inv_def billing_inv_def)
  have step: "apply_delta_body i (signupGrantPoints cfg) Grant grant_note now uuid ?d = Inr (?p, ?b)"
    using applyBalanceChange_ok [OF ok found, of uuid "signupGrantPoints cfg" Grant grant_note now] uuid grant
    by (simp add: apply_delta_body_def found a)
  have body: "create_account_body cfg i phone pwHash uuid now d = Inr (?p, ?b)"
    using False fresh step by (simp add: create_account_body_def insert_account_def insert_row_def a)
  have acc: "findAccountById ?p i = Some ?b"
    by (simp add: findAccountById_posted found a)
  have "entries_of d i = []"
    using G fresh unfolding gateway_inv_def backend_inv_def billing_inv_def ledger_ok_def entries_of_def filter_empty_conv
    by (metis imageI subsetD)
  then have "map le_delta (entries_of ?p i) = [signupGrantPoints cfg]"
    by (simp add: entries_of_def posted_def a)
  moreover have "createAccountWithGrant cfg i phone pwHash uuid now d = (?p, Inr ?b)"
    by (simp add: createAccountWithGrant_def transaction_def body read_account_back_def acc)
  ultimately show ?thesis
    using False service_inv_create [OF inv body] acc
    by (simp add: set_balance_def new_account_def)
qed

theorem createAccountWithGrant_witness:
  "(\<exists>d' acc. createAccountWithGrant default_config ''acc-2'' ''13900000000'' ''h'' ''le-2'' 7 demo_login =
      (d', Inr acc) \<and> ac_balance acc = 500) \<and>
   createAccountWithGrant default_config ''acc-2'' ''13800000000'' ''h'' ''le-2'' 7 demo_login =
     (demo_login, fail ''phone_taken'' 409)"
proof -
  have H: "''acc-2'' \<notin> ac_id ` set (accounts demo_login)" "''le-2'' \<notin> le_id ` set (ledger_entries demo_login)"
    "0 \<le> signupGrantPoints default_config"
    and new: "''13900000000'' \<notin> ac_phone ` set (accounts demo_login)"
    and old: "''13800000000'' \<in> ac_phone ` set (accounts demo_login)"
    by (simp_all add: demo_login_def session_opened_def demo_db_def demo_account_def default_config_def)
  show ?thesis
    using createAccountWithGrant_spec [OF demo_service_inv H, of "''13900000000''" "''h''" 7]
      createAccountWithGrant_spec [OF demo_service_inv H, of "''13800000000''" "''h''" 7] new old
    by (auto simp: default_config_def)
qed

lemma admin_attempts_failures:
  "snd (admin_attempts (replicate n False) th) =
     map (\<lambda>k. min ((th_consecutiveFailures th + int k) * th_unitMs th) (th_maxMs th)) [1..<Suc n]"
proof (induction n arbitrary: th)
  case 0
  then show ?case by simp
next
  case (Suc n)
  have "[1..<Suc (Suc n)] = 1 # map Suc [1..<Suc n]" by (simp add: map_Suc_upt upt_conv_Cons)
  then show ?case
    by (simp add: admin_login_def penalize_def Let_def Suc.IH split_beta algebra_simps del: upt_Suc)
qed

lemma admin_attempts_append:
  "admin_attempts (xs @ ys) th =
     (let (th1, ds) = admin_attempts xs th; (th2, es) = admin_attempts ys th1 in (th2, ds @ es))"
  by (induction xs arbitrary: th) (simp_all add: split_beta Let_def)

lemma admin_attempts_length: "length (snd (admin_attempts xs th)) = length xs"
  by (induction xs arbitrary: th) (simp_all add: split_beta Let_def)

lemma admin_attempts_limits:
  "th_unitMs (fst (admin_attempts xs th)) = th_unitMs th \<and> th_maxMs (fst (admin_attempts xs th)) = th_maxMs th"
  by (induction xs arbitrary: th)
    (simp_all add: split_beta Let_def admin_login_def penalize_def reset_throttle_def)

text \<open>
  The throttle of the operator's login. From a fresh throttle the k-th failure in a row waits k
  units, at most twenty units however long the attack lasts; a success starts the count again.
\<close>

theorem admin_throttle_delays:
  "snd (admin_attempts (replicate n False) (new_throttle unitMs)) =
     map (\<lambda>k. min (int k * unitMs) (20 * unitMs)) [1..<Suc n] \<and>
   drop (Suc (length before)) (snd (admin_attempts (before @ True # replicate n False) (new_throttle unitMs))) =
     map (\<lambda>k. min (int k * unitMs) (20 * unitMs)) [1..<Suc n]"
proof -
  let ?th = "fst (admin_attempts (before @ [True]) (new_throttle unitMs))"
  have "snd (admin_attempts (before @ True # replicate n False) (new_throttle unitMs)) =
      snd (admin_attempts (before @ [True]) (new_throttle unitMs)) @ snd (admin_attempts (replicate n False) ?th)"
    using admin_attempts_append [of "before @ [True]" "replicate n False" "new_throttle unitMs"]
    by (simp add: split_beta Let_def)
  moreover have "th_consecutiveFailures ?th = 0" "th_unitMs ?th = unitMs" "th_maxMs ?th = 20 * unitMs"
    using admin_attempts_limits [of "before @ [True]" "new_throttle unitMs"]
    by (simp_all add: admin_attempts_append split_beta Let_def admin_login_def reset_throttle_def new_throttle_def)
  ultimately show ?thesis
    by (simp add: admin_attempts_failures admin_attempts_length new_throttle_def mult.commute del: upt_Suc)
qed

end
