(* ===== verification/Sanitize.thy ===== *)
theory Sanitize
  imports Json Industry
begin

text \<open>
  The scrubbing of upstream error bodies, \<open>backend/src/gateway/sanitize.ts\<close>. A JavaScript string is
  here the list of its UTF-16 code units, so that \<open>length\<close> and \<open>slice\<close> count as the code does.
  \<open>JSON.parse\<close> and \<open>JSON.stringify\<close> of the language are parameters.
\<close>

section \<open>Operations\<close>

definition MAX_ERROR_BODY_CHARS :: nat where
  "MAX_ERROR_BODY_CHARS = 64 * 1024"

definition redaction :: utext where
  "redaction = ascii ''[REDACTED]''"

text \<open>\<open>text.split(secret)\<close>: the pieces between the occurrences, found from the left without overlap.\<close>

function split_on :: "utext \<Rightarrow> utext \<Rightarrow> utext \<Rightarrow> utext list" where
  "split_on sep acc t =
     (case t of
        [] \<Rightarrow> [rev acc]
      | c # rest \<Rightarrow>
          if sep \<noteq> [] \<and> text_prefix sep t then rev acc # split_on sep [] (drop (length sep) t)
          else split_on sep (c # acc) rest)"
  by auto
termination by (relation "measure (\<lambda>(sep, acc, t). length t)") (auto simp: neq_Nil_conv)

declare split_on.simps [simp del]

fun join_with :: "utext \<Rightarrow> utext list \<Rightarrow> utext" where
  "join_with glue [] = []"
| "join_with glue [p] = p"
| "join_with glue (p # q # ps) = p @ glue @ join_with glue (q # ps)"

definition redact_one :: "utext \<Rightarrow> utext \<Rightarrow> utext" where
  "redact_one secret t = (if secret = [] then t else join_with redaction (split_on secret [] t))"

definition redactSecrets :: "utext \<Rightarrow> utext list \<Rightarrow> utext" where
  "redactSecrets t secrets =
     fold redact_one secrets
       (if length t > MAX_ERROR_BODY_CHARS then take MAX_ERROR_BODY_CHARS t else t)"

definition generic_error :: json where
  "generic_error =
     JObj [(''type'', JStr (ascii ''error'')),
           (''error'', JObj [(''type'', JStr (ascii ''upstream_error'')),
                             (''message'', JStr [19978, 28216, 26381, 21153, 36820, 22238, 38169, 35823,
                                65292, 35814, 24773, 24050, 30465, 30053, 12290])])]"

definition sanitizedUpstreamErrorBody ::
  "(utext \<Rightarrow> json option) \<Rightarrow> (json \<Rightarrow> utext) \<Rightarrow> utext \<Rightarrow> utext list \<Rightarrow> utext" where
  "sanitizedUpstreamErrorBody parse stringify raw secrets =
     (case parse (redactSecrets raw secrets) of
        Some j \<Rightarrow> if is_object j then stringify j else stringify generic_error
      | None \<Rightarrow> stringify generic_error)"

section \<open>No secret survives\<close>

text \<open>
  The pieces of a split do not contain the separator, and a text with no bracket that occurs in the
  joined pieces occurs in one piece or inside the word between the brackets.
\<close>

lemma split_on_not_Nil: "split_on sep acc t \<noteq> []"
  by (induction sep acc t rule: split_on.induct) (subst split_on.simps, auto split: list.split)

lemma split_on_cases:
  obtains (stop) "t = []" and "split_on sep acc t = [rev acc]"
  | (hit) u where "sep \<noteq> []" and "t = sep @ u" and "split_on sep acc t = rev acc # split_on sep [] u"
  | (step) c rest where "t = c # rest" and "sep \<noteq> [] \<longrightarrow> (\<nexists>u. t = sep @ u)"
      and "split_on sep acc t = split_on sep (c # acc) rest"
proof (cases t)
  case Nil
  then show thesis by (intro stop) (simp_all add: split_on.simps)
next
  case (Cons c rest)
  show thesis
  proof (cases "sep \<noteq> [] \<and> text_prefix sep t")
    case True
    have "split_on sep acc t = rev acc # split_on sep [] (drop (length sep) t)"
      using True unfolding Cons by (subst split_on.simps) simp
    moreover obtain u where u: "t = sep @ u" using True by (auto simp: text_prefix_iff)
    ultimately have "split_on sep acc t = rev acc # split_on sep [] u" by simp
    with True u show thesis by (intro hit) simp_all
  next
    case False
    then have "split_on sep acc t = split_on sep (c # acc) rest"
      using Cons split_on.simps [of sep acc t] by auto
    with False Cons show thesis by (intro step) (auto simp: text_prefix_iff)
  qed
qed

lemma join_Cons: "ps \<noteq> [] \<Longrightarrow> join_with glue (p # ps) = p @ glue @ join_with glue ps"
  by (cases ps) simp_all

lemma join_pieces: "join_with sep (split_on sep acc t) = rev acc @ t"
proof (induction t arbitrary: acc rule: length_induct)
  case (1 t)
  show ?case
  proof (cases rule: split_on_cases [of t sep acc, case_names stop hit step])
    case (hit u)
    with 1 have "join_with sep (split_on sep [] u) = u" by simp
    with hit show ?thesis by (simp add: join_Cons split_on_not_Nil)
  next
    case (step c rest)
    with 1 show ?thesis by simp
  qed simp
qed

lemma split_on_free:
  assumes "sep \<noteq> []" and "\<forall>p s. rev acc @ t = p @ sep @ s \<longrightarrow> length acc \<le> length p"
  shows "\<forall>x \<in> set (split_on sep acc t). \<not> text_includes x sep"
  using assms(2)
proof (induction t arbitrary: acc rule: length_induct)
  case (1 t)
  have head: "\<not> text_includes (rev acc) sep"
  proof
    assume "text_includes (rev acc) sep"
    then obtain p s where ps: "rev acc = p @ sep @ s" by (auto simp: text_includes_iff)
    then have "length acc \<le> length p" using 1(2) by simp
    moreover have "length acc = length p + length sep + length s" using arg_cong [OF ps, of length] by simp
    ultimately show False using assms(1) by simp
  qed
  show ?case
  proof (cases rule: split_on_cases [of t sep acc, case_names stop hit step])
    case stop
    with head show ?thesis by simp
  next
    case (hit u)
    then have "\<forall>x \<in> set (split_on sep [] u). \<not> text_includes x sep"
      using 1(1) [rule_format, of u "[]"] by simp
    with hit head show ?thesis by simp
  next
    case (step c rest)
    have "length (c # acc) \<le> length p" if eq: "rev (c # acc) @ rest = p @ sep @ s" for p s
    proof -
      have t: "rev acc @ t = p @ sep @ s" using eq step(1) by simp
      then have "length acc \<le> length p" using 1(2) by blast
      moreover have "length acc \<noteq> length p"
      proof
        assume "length acc = length p"
        with t have "t = sep @ s" by simp
        with step(2) assms(1) show False by blast
      qed
      ultimately show ?thesis by simp
    qed
    then have "\<forall>x \<in> set (split_on sep (c # acc) rest). \<not> text_includes x sep"
      using step(1) by (intro 1(1) [rule_format, of rest "c # acc"] ballI) auto
    with step show ?thesis by simp
  qed
qed

lemma piece_in_join: "x \<in> set ps \<Longrightarrow> text_includes (join_with glue ps) x"
proof (induction ps)
  case (Cons p ps)
  show ?case
  proof (cases "ps = []")
    case True
    with Cons.prems show ?thesis by (auto simp: text_includes_iff intro: exI [of _ "[]"])
  next
    case False
    show ?thesis
    proof (cases "x = p")
      case True
      with False show ?thesis unfolding text_includes_iff
        by (intro exI [of _ "[]"] exI [of _ "glue @ join_with glue ps"]) (simp add: join_Cons)
    next
      case x: False
      with Cons obtain a b where "join_with glue ps = a @ x @ b" by (auto simp: text_includes_iff)
      with False show ?thesis unfolding text_includes_iff
        by (intro exI [of _ "p @ glue @ a"] exI [of _ b]) (simp add: join_Cons)
    qed
  qed
qed simp

lemma includes_separated:
  assumes "text_includes (a @ c # b) w" and "c \<notin> set w"
  shows "text_includes a w \<or> text_includes b w"
proof -
  obtain p s where eq: "a @ c # b = p @ w @ s" using assms(1) by (auto simp: text_includes_iff)
  then consider u where "a = p @ u" "u @ c # b = w @ s" | u where "a @ u = p" "c # b = u @ w @ s"
    by (auto simp: append_eq_append_conv2)
  then show ?thesis
  proof cases
    case 1
    from 1(2) consider v where "u = w @ v" | v where "u @ v = w" "c # b = v @ s"
      by (auto simp: append_eq_append_conv2)
    then show ?thesis
    proof cases
      case (1 v)
      with \<open>a = p @ u\<close> show ?thesis by (auto simp: text_includes_iff)
    next
      case (2 v)
      with assms(2) have "v = []" by (cases v) auto
      with 2 \<open>a = p @ u\<close> show ?thesis unfolding text_includes_iff
        by (intro disjI1 exI [of _ p] exI [of _ "[]"]) simp
    qed
  next
    case 2
    show ?thesis
    proof (cases u)
      case Nil
      with 2 assms(2) have "w = []" by (cases w) auto
      then show ?thesis unfolding text_includes_iff by (intro disjI1 exI [of _ a] exI [of _ "[]"]) simp
    next
      case (Cons d v)
      with 2 show ?thesis by (auto simp: text_includes_iff)
    qed
  qed
qed

text \<open>A secret that the replacement cannot forge.\<close>

definition plain_secret :: "utext \<Rightarrow> bool" where
  "plain_secret w \<longleftrightarrow>
     w \<noteq> [] \<and> of_char (CHR ''['') \<notin> set w \<and> of_char (CHR '']'') \<notin> set w \<and>
     \<not> text_includes (ascii ''REDACTED'') w"

lemma plain_in_join:
  assumes "plain_secret w" and "text_includes (join_with redaction ps) w"
  shows "\<exists>p \<in> set ps. text_includes p w"
  using assms(2)
proof (induction ps)
  case Nil
  with assms(1) show ?case by (simp add: plain_secret_def)
next
  case (Cons p ps)
  show ?case
  proof (cases "ps = []")
    case True
    with Cons.prems show ?thesis by simp
  next
    case False
    have red: "redaction = of_char (CHR ''['') # ascii ''REDACTED'' @ of_char (CHR '']'') # []"
      by (simp add: redaction_def ascii_def)
    have "text_includes (p @ of_char (CHR ''['') # (ascii ''REDACTED'' @ of_char (CHR '']'') # join_with redaction ps)) w"
      using Cons.prems False by (simp add: join_Cons red)
    then have "text_includes p w \<or> text_includes (ascii ''REDACTED'') w \<or> text_includes (join_with redaction ps) w"
      using assms(1) includes_separated unfolding plain_secret_def by metis
    with assms(1) Cons.IH show ?thesis by (auto simp: plain_secret_def)
  qed
qed

lemma redact_one_keeps_out:
  assumes "plain_secret w" and "\<not> text_includes t w"
  shows "\<not> text_includes (redact_one s t) w"
proof (cases "s = []")
  case False
  show ?thesis
  proof
    assume "text_includes (redact_one s t) w"
    then obtain p where p: "p \<in> set (split_on s [] t)" "text_includes p w"
      using plain_in_join [OF assms(1)] False by (auto simp: redact_one_def)
    then have "text_includes t p" using piece_in_join [of p "split_on s [] t" s] by (simp add: join_pieces)
    then obtain a b where "t = a @ p @ b" by (auto simp: text_includes_iff)
    moreover obtain a' b' where "p = a' @ w @ b'" using p(2) by (auto simp: text_includes_iff)
    ultimately have "t = (a @ a') @ w @ (b' @ b)" by simp
    with assms(2) show False unfolding text_includes_iff by blast
  qed
qed (simp add: redact_one_def assms(2))

lemma redact_one_removes:
  assumes "plain_secret w"
  shows "\<not> text_includes (redact_one w t) w"
proof -
  have "w \<noteq> []" using assms by (simp add: plain_secret_def)
  then show ?thesis
    using split_on_free [of w "[]" t] plain_in_join [OF assms, of "split_on w [] t"]
    by (auto simp: redact_one_def)
qed

lemma redact_fold_keeps_out:
  "plain_secret w \<Longrightarrow> \<not> text_includes t w \<Longrightarrow> \<not> text_includes (fold redact_one secrets t) w"
  by (induction secrets arbitrary: t) (simp_all add: redact_one_keeps_out)

lemma redact_fold_removes:
  "plain_secret w \<Longrightarrow> w \<in> set secrets \<Longrightarrow> \<not> text_includes (fold redact_one secrets t) w"
proof (induction secrets arbitrary: t)
  case (Cons s secrets)
  then show ?case
    by (cases "w = s") (simp_all add: redact_fold_keeps_out redact_one_removes)
qed simp

text \<open>
  C26: no secret survives the scrubbing. Whatever the upstream sends and however the secrets overlap
  in it, the scrubbed text does not contain any of the configured secrets, as long as the secret is
  not empty, has no square bracket and is not part of the word REDACTED itself; and a text that
  contains no secret and is not too long is passed on unchanged.
\<close>

theorem redactSecrets_no_leak:
  "(\<forall>w \<in> set secrets. plain_secret w \<longrightarrow> \<not> text_includes (redactSecrets t secrets) w) \<and>
   (length t \<le> MAX_ERROR_BODY_CHARS \<longrightarrow> (\<forall>w \<in> set secrets. w \<noteq> [] \<longrightarrow> \<not> text_includes t w) \<longrightarrow>
      redactSecrets t secrets = t)"
proof -
  have same: "redact_one w t = t" if "w \<noteq> [] \<longrightarrow> \<not> text_includes t w" for w
  proof (cases "w = []")
    case False
    have "split_on w acc u = [rev acc @ u]" if "\<not> text_includes u w" for acc u
      using that
    proof (induction u arbitrary: acc rule: length_induct)
      case (1 u)
      show ?case
      proof (cases rule: split_on_cases [of u w acc, case_names stop hit step])
        case (hit v)
        with 1(2) show ?thesis by (metis append_Nil text_includes_iff)
      next
        case (step c rest)
        with 1 show ?thesis by simp
      qed simp
    qed
    with False that show ?thesis by (simp add: redact_one_def)
  qed (simp add: redact_one_def)
  have "fold redact_one ss t = t" if "\<forall>w \<in> set ss. w \<noteq> [] \<longrightarrow> \<not> text_includes t w" for ss
    using that by (induction ss) (simp_all add: same)
  then show ?thesis by (auto simp: redactSecrets_def redact_fold_removes)
qed

theorem redactSecrets_no_leak_witness:
  "\<not> text_includes (redactSecrets (ascii ''key sk-1 and sk-1sk-1'') [ascii ''sk-1'']) (ascii ''sk-1'') \<and>
   redactSecrets (ascii ''no key'') [ascii ''sk-1''] = ascii ''no key''"
proof -
  have "plain_secret (ascii ''sk-1'')" by (simp add: plain_secret_def ascii_def)
  moreover have "\<not> text_includes (ascii ''no key'') (ascii ''sk-1'')" by (simp add: ascii_def)
  ultimately show ?thesis
    using redactSecrets_no_leak [of "[ascii ''sk-1'']" "ascii ''key sk-1 and sk-1sk-1''"]
      redactSecrets_no_leak [of "[ascii ''sk-1'']" "ascii ''no key''"]
    by (simp add: MAX_ERROR_BODY_CHARS_def ascii_def)
qed

end
