(* ===== verification/ChatUsage.thy ===== *)
theory ChatUsage
  imports Accounts Sanitize
begin

text \<open>
  The free conversation channel: metering and hidden quota of \<open>backend/src/domain/chat-usage.ts\<close>, the
  usage readers of \<open>backend/src/gateway/anthropic-usage.ts\<close> and \<open>openai-usage.ts\<close>, and the message
  routes of \<open>backend/src/http/gateway-routes.ts\<close>. \<open>JSON.parse\<close> is the parameter \<open>parse\<close>. The stream
  decoder hands its text to \<open>feed\<close>, so chunks are decoded text here. Prices and amounts are exact
  rationals where the code computes with doubles.
\<close>

section \<open>Usage records and the hidden quota\<close>

record chat_token_usage =
  us_inputTokens :: int
  us_cacheReadTokens :: int
  us_cacheCreationTokens :: int
  us_outputTokens :: int

definition chatUsagePointsMilli :: "backend_config \<Rightarrow> chat_token_usage \<Rightarrow> int" where
  "chatUsagePointsMilli cfg u =
     (let missInput = us_inputTokens u + us_cacheCreationTokens u;
          cny = of_int missInput / 1000000 * chatInputCnyPerMtok cfg +
                of_int (us_cacheReadTokens u) / 1000000 * chatInputCacheHitCnyPerMtok cfg +
                of_int (us_outputTokens u) / 1000000 * chatOutputCnyPerMtok cfg
      in math_round (cny * 10 * 1000))"

definition chatQuotaUsedMilli :: "db \<Rightarrow> string \<Rightarrow> int" where
  "chatQuotaUsedMilli d accountId =
     (case findAccountById d accountId of None \<Rightarrow> 0 | Some a \<Rightarrow> ac_chat_quota_used_milli a)"

definition assertConversationAllowed :: "backend_config \<Rightarrow> db \<Rightarrow> account_row \<Rightarrow> unit result" where
  "assertConversationAllowed cfg d account =
     (if ac_balance account \<le> 0 then fail ''chat_balance_zero'' 402
      else if chatQuotaUsedMilli d (ac_id account) \<ge> chatHiddenQuotaPoints cfg * 1000
      then fail ''chat_quota_exhausted'' 402
      else Inr ())"

definition add_quota_row :: "int \<Rightarrow> instant \<Rightarrow> account_row \<Rightarrow> account_row" where
  "add_quota_row p now a =
     a\<lparr>ac_chat_quota_used_milli := ac_chat_quota_used_milli a + p, ac_updated_at := now\<rparr>"

definition chat_usage_row ::
  "backend_config \<Rightarrow> string \<Rightarrow> utext \<Rightarrow> chat_token_usage \<Rightarrow> string \<Rightarrow> instant \<Rightarrow> chat_usage_record_row" where
  "chat_usage_row cfg accountId model u uuid now =
     \<lparr>cu_id = uuid, cu_account_id = accountId, cu_model = model, cu_input_tokens = us_inputTokens u,
      cu_cache_read_tokens = us_cacheReadTokens u,
      cu_cache_creation_tokens = us_cacheCreationTokens u, cu_output_tokens = us_outputTokens u,
      cu_points_milli = chatUsagePointsMilli cfg u, cu_created_at = now\<rparr>"

definition record_chat_body ::
  "backend_config \<Rightarrow> string \<Rightarrow> utext \<Rightarrow> chat_token_usage \<Rightarrow> string \<Rightarrow> instant \<Rightarrow> chat_usage_record_row body" where
  "record_chat_body cfg accountId model u uuid now d =
     (let r = chat_usage_row cfg accountId model u uuid now in
      if findAccountById d accountId = None then Inl (SqlError ForeignKeyConstraint)
      else bind_result (insert_row cu_id r (chat_usage_records d)) (\<lambda>rows.
        Inr (update_account accountId (add_quota_row (cu_points_milli r) now)
               (d\<lparr>chat_usage_records := rows\<rparr>), r)))"

definition recordChatUsage ::
  "backend_config \<Rightarrow> string \<Rightarrow> utext \<Rightarrow> chat_token_usage \<Rightarrow> string \<Rightarrow> instant \<Rightarrow> chat_usage_record_row operation" where
  "recordChatUsage cfg accountId model u uuid now =
     transaction (record_chat_body cfg accountId model u uuid now)"

definition listChatUsageRecords :: "db \<Rightarrow> string \<Rightarrow> nat \<Rightarrow> chat_usage_record_row list" where
  "listChatUsageRecords d accountId limit =
     take limit
       (sort_key (\<lambda>r. - cu_created_at r)
          (rev (sort_key cu_id (filter (\<lambda>r. cu_account_id r = accountId) (chat_usage_records d)))))"

section \<open>Usage readers\<close>

text \<open>\<open>typeof x === 'object' && x !== null\<close> of an optional property, and its string value.\<close>

definition object_of :: "json option \<Rightarrow> json option" where
  "object_of v = (case v of Some j \<Rightarrow> if is_object j then Some j else None | None \<Rightarrow> None)"

definition usageFromShape :: "json option \<Rightarrow> chat_token_usage option" where
  "usageFromShape v =
     (case object_of v of
        None \<Rightarrow> None
      | Some shape \<Rightarrow>
          if jget shape ''input_tokens'' = None \<and> jget shape ''output_tokens'' = None then None
          else Some \<lparr>us_inputTokens = pickNonNegativeInt (jget shape ''input_tokens''),
                     us_cacheReadTokens = pickNonNegativeInt (jget shape ''cache_read_input_tokens''),
                     us_cacheCreationTokens = pickNonNegativeInt (jget shape ''cache_creation_input_tokens''),
                     us_outputTokens = pickNonNegativeInt (jget shape ''output_tokens'')\<rparr>)"

definition extractUsageFromMessageJson :: "json \<Rightarrow> (utext \<times> chat_token_usage) option" where
  "extractUsageFromMessageJson parsed =
     (case object_of (Some parsed) of
        None \<Rightarrow> None
      | Some message \<Rightarrow>
          (case usageFromShape (jget message ''usage'') of
             None \<Rightarrow> None
           | Some u \<Rightarrow> Some (case jget message ''model'' of Some (JStr t) \<Rightarrow> t | _ \<Rightarrow> [], u)))"

text \<open>The \<open>??\<close> operator skips \<open>undefined\<close> and \<open>null\<close>.\<close>

definition nullish :: "json option \<Rightarrow> json option \<Rightarrow> json option" where
  "nullish a b = (if a = None \<or> a = Some JNull then b else a)"

definition extractOpenAiUsage :: "json \<Rightarrow> (int \<times> int) option" where
  "extractOpenAiUsage parsed =
     (case object_of (Some parsed) of
        None \<Rightarrow> None
      | Some j \<Rightarrow>
          (case object_of (jget j ''usage'') of
             None \<Rightarrow> None
           | Some shape \<Rightarrow>
               let input = nullish (jget shape ''prompt_tokens'') (jget shape ''input_tokens'');
                   output = nullish (jget shape ''completion_tokens'') (jget shape ''output_tokens'')
               in if input = None \<and> output = None then None
                  else Some (pickNonNegativeInt input, pickNonNegativeInt output)))"

section \<open>The stream tap\<close>

record sse_tap =
  tp_buffer :: utext
  tp_dataLines :: "utext list"
  tp_model :: utext
  tp_usage :: chat_token_usage

definition new_tap :: sse_tap where
  "new_tap = \<lparr>tp_buffer = [], tp_dataLines = [], tp_model = [],
     tp_usage = \<lparr>us_inputTokens = 0, us_cacheReadTokens = 0, us_cacheCreationTokens = 0,
                 us_outputTokens = 0\<rparr>\<rparr>"

definition keep_positive :: "int \<Rightarrow> int \<Rightarrow> int" where
  "keep_positive new old = (if new > 0 then new else old)"

definition start_usage :: "chat_token_usage \<Rightarrow> chat_token_usage \<Rightarrow> chat_token_usage" where
  "start_usage u old = u\<lparr>us_outputTokens := keep_positive (us_outputTokens u) (us_outputTokens old)\<rparr>"

definition delta_usage :: "chat_token_usage \<Rightarrow> chat_token_usage \<Rightarrow> chat_token_usage" where
  "delta_usage u old =
     \<lparr>us_inputTokens = keep_positive (us_inputTokens u) (us_inputTokens old),
      us_cacheReadTokens = keep_positive (us_cacheReadTokens u) (us_cacheReadTokens old),
      us_cacheCreationTokens = keep_positive (us_cacheCreationTokens u) (us_cacheCreationTokens old),
      us_outputTokens = keep_positive (us_outputTokens u) (us_outputTokens old)\<rparr>"

definition apply_event :: "json \<Rightarrow> sse_tap \<Rightarrow> sse_tap" where
  "apply_event event tap =
     (case (jget event ''type'' = Some (JStr (ascii ''message_start'')), object_of (jget event ''message'')) of
        (True, Some message) \<Rightarrow>
          let tap1 = (case jget message ''model'' of Some (JStr t) \<Rightarrow> tap\<lparr>tp_model := t\<rparr> | _ \<Rightarrow> tap)
          in (case usageFromShape (jget message ''usage'') of
                Some u \<Rightarrow> tap1\<lparr>tp_usage := start_usage u (tp_usage tap1)\<rparr> | None \<Rightarrow> tap1)
      | _ \<Rightarrow>
          if jget event ''type'' = Some (JStr (ascii ''message_delta''))
          then (case usageFromShape (jget event ''usage'') of
                  Some u \<Rightarrow> tap\<lparr>tp_usage := delta_usage u (tp_usage tap)\<rparr> | None \<Rightarrow> tap)
          else tap)"

definition dispatchEvent :: "(utext \<Rightarrow> json option) \<Rightarrow> sse_tap \<Rightarrow> sse_tap" where
  "dispatchEvent parse tap =
     (if tp_dataLines tap = [] then tap
      else case parse (join_with [10] (tp_dataLines tap)) of
             None \<Rightarrow> tap
           | Some event \<Rightarrow> if is_object event then apply_event event tap else tap)"

definition strip_cr :: "utext \<Rightarrow> utext" where
  "strip_cr line = (if line \<noteq> [] \<and> last line = 13 then butlast line else line)"

definition strip_space :: "utext \<Rightarrow> utext" where
  "strip_space t = (case t of c # r \<Rightarrow> if c = 32 then r else t | [] \<Rightarrow> [])"

definition consumeLine :: "(utext \<Rightarrow> json option) \<Rightarrow> utext \<Rightarrow> sse_tap \<Rightarrow> sse_tap" where
  "consumeLine parse line tap =
     (if line = [] then (dispatchEvent parse tap)\<lparr>tp_dataLines := []\<rparr>
      else case strip_prefix (ascii ''data:'') line of
             Some payload \<Rightarrow> tap\<lparr>tp_dataLines := tp_dataLines tap @ [strip_space payload]\<rparr>
           | None \<Rightarrow> tap)"

function drain :: "(utext \<Rightarrow> json option) \<Rightarrow> sse_tap \<Rightarrow> sse_tap" where
  "drain parse tap =
     (if 10 \<in> set (tp_buffer tap)
      then drain parse
             ((consumeLine parse (strip_cr (takeWhile (\<lambda>c. c \<noteq> 10) (tp_buffer tap))) tap)
                \<lparr>tp_buffer := tl (dropWhile (\<lambda>c. c \<noteq> 10) (tp_buffer tap))\<rparr>)
      else tap)"
  by auto
termination
proof (relation "measure (\<lambda>(parse, tap). length (tp_buffer tap))")
  fix parse :: "utext \<Rightarrow> json option" and tap :: sse_tap
  assume "10 \<in> set (tp_buffer tap)"
  then have "dropWhile (\<lambda>c. c \<noteq> 10) (tp_buffer tap) \<noteq> []" by (auto simp: dropWhile_eq_Nil_conv)
  moreover have "length (dropWhile (\<lambda>c. c \<noteq> 10) (tp_buffer tap)) \<le> length (tp_buffer tap)"
    by (simp add: length_dropWhile_le)
  ultimately show "((parse, (consumeLine parse (strip_cr (takeWhile (\<lambda>c. c \<noteq> 10) (tp_buffer tap))) tap)
        \<lparr>tp_buffer := tl (dropWhile (\<lambda>c. c \<noteq> 10) (tp_buffer tap))\<rparr>), (parse, tap)) \<in>
      measure (\<lambda>(parse, tap). length (tp_buffer tap))"
    by (cases "dropWhile (\<lambda>c. c \<noteq> 10) (tp_buffer tap)") auto
qed simp

declare drain.simps [simp del]

definition feed :: "(utext \<Rightarrow> json option) \<Rightarrow> utext \<Rightarrow> sse_tap \<Rightarrow> sse_tap" where
  "feed parse chunk tap = drain parse (tap\<lparr>tp_buffer := tp_buffer tap @ chunk\<rparr>)"

definition finalize :: "(utext \<Rightarrow> json option) \<Rightarrow> sse_tap \<Rightarrow> (utext \<times> chat_token_usage) option" where
  "finalize parse tap =
     (let tap1 = dispatchEvent parse tap; u = tp_usage tap1 in
      if us_inputTokens u = 0 \<and> us_outputTokens u = 0 \<and> us_cacheReadTokens u = 0 \<and>
         us_cacheCreationTokens u = 0
      then None else Some (tp_model tap1, u))"

section \<open>The message routes\<close>

definition FORWARDED_REQUEST_HEADERS :: "string list" where
  "FORWARDED_REQUEST_HEADERS = [''anthropic-version'', ''anthropic-beta'']"

definition forward_headers :: "utext \<Rightarrow> (string \<Rightarrow> utext option) \<Rightarrow> (string \<times> utext) list" where
  "forward_headers apiKey clientHeaders =
     [(''content-type'', case clientHeaders ''content-type'' of None \<Rightarrow> ascii ''application/json'' | Some v \<Rightarrow> v),
      (''x-api-key'', apiKey)] @
     concat (map (\<lambda>n. case clientHeaders n of None \<Rightarrow> [] | Some v \<Rightarrow> [(n, v)]) FORWARDED_REQUEST_HEADERS)"

definition record_metered ::
  "backend_config \<Rightarrow> string \<Rightarrow> (utext \<times> chat_token_usage) option \<Rightarrow> string \<Rightarrow> instant \<Rightarrow> unit operation" where
  "record_metered cfg accountId metered uuid now d =
     (case metered of
        None \<Rightarrow> (d, Inr ())
      | Some (model, u) \<Rightarrow>
          (case recordChatUsage cfg accountId model u uuid now d of
             (d1, Inl e) \<Rightarrow> (d1, Inl e) | (d1, Inr _) \<Rightarrow> (d1, Inr ())))"

text \<open>
  A plain answer is metered if it parses; every error of the metering is swallowed and the text
  passed on. A stream is metered when the upstream closes it.
\<close>

definition messages_answered ::
  "(utext \<Rightarrow> json option) \<Rightarrow> backend_config \<Rightarrow> string \<Rightarrow> utext \<Rightarrow> string \<Rightarrow> instant \<Rightarrow> db \<Rightarrow> db \<times> utext" where
  "messages_answered parse cfg accountId body uuid now d =
     (case parse body of
        None \<Rightarrow> (d, body)
      | Some j \<Rightarrow>
          (fst (record_metered cfg accountId (extractUsageFromMessageJson j) uuid now d), body))"

definition stream_closed ::
  "(utext \<Rightarrow> json option) \<Rightarrow> backend_config \<Rightarrow> string \<Rightarrow> utext list \<Rightarrow> string \<Rightarrow> instant \<Rightarrow> unit operation" where
  "stream_closed parse cfg accountId parts uuid now d =
     record_metered cfg accountId (finalize parse (fold (feed parse) parts new_tap)) uuid now d"

section \<open>The tap does not depend on the chunks\<close>

lemma dispatchEvent_buffer [simp]:
  "dispatchEvent parse (tap\<lparr>tp_buffer := b\<rparr>) = (dispatchEvent parse tap)\<lparr>tp_buffer := b\<rparr>"
  by (simp add: dispatchEvent_def apply_event_def Let_def split: option.split json.split prod.split bool.split)

lemma consumeLine_buffer [simp]:
  "consumeLine parse line (tap\<lparr>tp_buffer := b\<rparr>) = (consumeLine parse line tap)\<lparr>tp_buffer := b\<rparr>"
  by (simp add: consumeLine_def split: option.split)

lemma drain_done: "10 \<notin> set (tp_buffer tap) \<Longrightarrow> drain parse tap = tap"
  by (simp add: drain.simps)

lemma drain_line:
  "10 \<notin> set line \<Longrightarrow>
   drain parse (tap\<lparr>tp_buffer := line @ 10 # rest\<rparr>) =
     drain parse ((consumeLine parse (strip_cr line) tap)\<lparr>tp_buffer := rest\<rparr>)"
proof -
  assume "10 \<notin> set line"
  then have "takeWhile (\<lambda>c. c \<noteq> 10) (line @ 10 # rest) = line"
    and "dropWhile (\<lambda>c. c \<noteq> 10) (line @ 10 # rest) = 10 # rest"
    by (induction line) auto
  then show ?thesis by (subst drain.simps) simp
qed

lemma drain_drained: "10 \<notin> set (tp_buffer (drain parse tap))"
  by (induction parse tap rule: drain.induct) (subst drain.simps, auto)

lemma first_line:
  assumes "10 \<in> set b"
  obtains line rest where "b = line @ 10 # rest" and "10 \<notin> set line"
  using split_list_first [OF assms] by blast

lemma drain_append:
  "drain parse (tap\<lparr>tp_buffer := b @ c\<rparr>) =
     feed parse c (drain parse (tap\<lparr>tp_buffer := b\<rparr>))"
proof (induction b arbitrary: tap rule: length_induct)
  case (1 b)
  show ?case
  proof (cases "10 \<in> set b")
    case True
    then obtain line rest where b: "b = line @ 10 # rest" and line: "10 \<notin> set line"
      by (rule first_line)
    have "drain parse (tap\<lparr>tp_buffer := b @ c\<rparr>) =
        drain parse ((consumeLine parse (strip_cr line) tap)\<lparr>tp_buffer := rest @ c\<rparr>)"
      using drain_line [OF line, of parse "rest @ c" tap] b by simp
    also have "\<dots> = feed parse c (drain parse ((consumeLine parse (strip_cr line) tap)\<lparr>tp_buffer := rest\<rparr>))"
      using 1 b by simp
    also have "\<dots> = feed parse c (drain parse (tap\<lparr>tp_buffer := b\<rparr>))"
      using drain_line [OF line, of parse rest tap] b by simp
    finally show ?thesis .
  next
    case False
    then show ?thesis by (simp add: feed_def drain_done)
  qed
qed

lemma feed_append: "feed parse (a @ b) tap = feed parse b (feed parse a tap)"
  using drain_append [of parse "tp_buffer tap @ a" b tap] by (simp add: feed_def)

lemma feed_Nil: "10 \<notin> set (tp_buffer tap) \<Longrightarrow> feed parse [] tap = tap"
  by (simp add: feed_def drain_done)

lemma fold_feed:
  "10 \<notin> set (tp_buffer tap) \<Longrightarrow> fold (feed parse) parts tap = feed parse (concat parts) tap"
proof (induction parts arbitrary: tap)
  case Nil
  then show ?case by (simp add: feed_Nil)
next
  case (Cons p parts)
  have "10 \<notin> set (tp_buffer (feed parse p tap))" by (simp add: feed_def drain_drained)
  with Cons.IH show ?case by (simp add: feed_append)
qed

lemma finalize_buffer: "finalize parse (tap\<lparr>tp_buffer := b\<rparr>) = finalize parse tap"
  by (simp add: finalize_def Let_def)

text \<open>
  C28: the metering of a stream does not depend on how the network cut it: any two sequences of chunks
  that carry the same text meter the same usage.
\<close>

theorem stream_chunking_irrelevant:
  "concat parts = concat parts' \<Longrightarrow>
   stream_closed parse cfg accountId parts uuid now d = stream_closed parse cfg accountId parts' uuid now d"
  by (simp add: stream_closed_def fold_feed new_tap_def)

theorem stream_chunking_irrelevant_witness:
  "stream_closed (\<lambda>_. None) default_config ''acc-1'' [ascii ''data: {}'', [10, 10]] ''u'' 1 demo_db =
   stream_closed (\<lambda>_. None) default_config ''acc-1'' [ascii ''data'', ascii '': {}'' @ [10], [10]] ''u'' 1 demo_db"
  by (rule stream_chunking_irrelevant) (simp add: ascii_def)

text \<open>
  The last event of a stream is metered only if its line was ended. The comment of \<open>finalize\<close>
  says that it handles a remaining last event without a trailing newline; in fact whatever follows the
  last newline never counts, while an event whose data line was ended, but not its blank line, does.
\<close>

theorem finalize_drops_unterminated_line:
  assumes "10 \<notin> set rest"
  shows "finalize parse (feed parse (stream @ rest) tap) = finalize parse (feed parse stream tap)"
proof -
  let ?tap = "feed parse stream tap"
  have "10 \<notin> set (tp_buffer ?tap)" by (simp add: feed_def drain_drained)
  with assms have "feed parse rest ?tap = ?tap\<lparr>tp_buffer := tp_buffer ?tap @ rest\<rparr>"
    by (simp add: feed_def drain_done)
  then show ?thesis by (simp add: feed_append finalize_buffer)
qed

theorem finalize_drops_unterminated_line_witness:
  "finalize (\<lambda>_. Some (JObj [(''type'', JStr (ascii ''message_delta'')), (''usage'', JObj [(''output_tokens'', JNum 7)])]))
     (feed (\<lambda>_. Some (JObj [(''type'', JStr (ascii ''message_delta'')), (''usage'', JObj [(''output_tokens'', JNum 7)])]))
        ([] @ ascii ''data: x'') new_tap) = None"
  apply (subst finalize_drops_unterminated_line)
  by (simp_all add: ascii_def feed_Nil new_tap_def finalize_def dispatchEvent_def)

section \<open>The hidden quota\<close>

interpretation quota_update: account_update "add_quota_row p now" for p now
  by unfold_locales (simp_all add: add_quota_row_def)

lemma chatUsagePointsMilli_nonneg:
  assumes "0 \<le> chatInputCnyPerMtok cfg" "0 \<le> chatInputCacheHitCnyPerMtok cfg" "0 \<le> chatOutputCnyPerMtok cfg"
    and "0 \<le> us_inputTokens u" "0 \<le> us_cacheReadTokens u" "0 \<le> us_cacheCreationTokens u" "0 \<le> us_outputTokens u"
  shows "0 \<le> chatUsagePointsMilli cfg u"
  using assms by (simp add: chatUsagePointsMilli_def Let_def math_round_nonneg)

lemma service_inv_chat_rows: "service_inv (d\<lparr>chat_usage_records := rows\<rparr>) = service_inv d"
proof -
  have "gateway_inv (d\<lparr>chat_usage_records := rows\<rparr>) = gateway_inv d"
    by (rule gateway_inv_sessions) simp_all
  then show ?thesis by (simp add: service_inv_def sessions_ok_def phones_ok_def)
qed

lemma record_chat_body_Inr:
  "record_chat_body cfg i model u uuid now d = Inr (d', r) \<longleftrightarrow>
     findAccountById d i \<noteq> None \<and> uuid \<notin> cu_id ` set (chat_usage_records d) \<and>
     r = chat_usage_row cfg i model u uuid now \<and>
     d' = update_account i (add_quota_row (chatUsagePointsMilli cfg u) now)
            (d\<lparr>chat_usage_records := chat_usage_records d @ [r]\<rparr>)"
  by (auto simp: record_chat_body_def Let_def bind_result_Inr_iff insert_row_Inr_iff chat_usage_row_def
      split: if_split_asm)

lemma service_inv_chat:
  assumes "service_inv d" and "recordChatUsage cfg i model u uuid now d = (d', r)"
  shows "service_inv d'"
  using assms(2) unfolding recordChatUsage_def
proof (rule transaction_inv [rotated 2])
  fix d1 x
  assume "record_chat_body cfg i model u uuid now d = Inr (d1, x)"
  with assms(1) show "service_inv d1"
    by (simp add: record_chat_body_Inr quota_update.service_inv_update service_inv_chat_rows)
qed (rule assms(1))

text \<open>
  Metering a conversation counts against the hidden quota and nothing else. With a new record
  identifier the record is stored, the quota of the account grows by exactly its points, and no
  balance, no other account's quota and no ledger entry moves.
\<close>

theorem recordChatUsage_meters:
  assumes inv: "service_inv d" and a: "findAccountById d i = Some a"
    and fresh: "uuid \<notin> cu_id ` set (chat_usage_records d)"
  shows "\<exists>d' r. recordChatUsage cfg i model u uuid now d = (d', Inr r) \<and> service_inv d' \<and>
    chat_usage_records d' = chat_usage_records d @ [r] \<and> cu_points_milli r = chatUsagePointsMilli cfg u \<and>
    (\<forall>j. chatQuotaUsedMilli d' j = chatQuotaUsedMilli d j + (if j = i then chatUsagePointsMilli cfg u else 0)) \<and>
    map ac_balance (accounts d') = map ac_balance (accounts d) \<and> ledger_entries d' = ledger_entries d"
proof -
  let ?r = "chat_usage_row cfg i model u uuid now"
  let ?d = "update_account i (add_quota_row (chatUsagePointsMilli cfg u) now)
    (d\<lparr>chat_usage_records := chat_usage_records d @ [?r]\<rparr>)"
  have run: "recordChatUsage cfg i model u uuid now d = (?d, Inr ?r)"
    using a fresh record_chat_body_Inr [of cfg i model u uuid now d ?d ?r]
    by (simp add: recordChatUsage_def transaction_def)
  have "findAccountById (d\<lparr>chat_usage_records := rows\<rparr>) j = findAccountById d j" for rows j
    by (simp add: findAccountById_def)
  then have "chatQuotaUsedMilli ?d j = chatQuotaUsedMilli d j + (if j = i then chatUsagePointsMilli cfg u else 0)" for j
    using a by (simp add: chatQuotaUsedMilli_def quota_update.find_account_update add_quota_row_def split: option.split)
  moreover have "map ac_balance (accounts ?d) = map ac_balance (accounts d)"
    "ledger_entries ?d = ledger_entries d" "chat_usage_records ?d = chat_usage_records d @ [?r]"
    by (simp_all add: update_account_def update_rows_def add_quota_row_def)
  ultimately show ?thesis
    using run service_inv_chat [OF inv run] by (auto simp: chat_usage_row_def)
qed

theorem recordChatUsage_meters_witness:
  "\<exists>d' r. recordChatUsage default_config ''acc-1'' (ascii ''m'')
      \<lparr>us_inputTokens = 1000000, us_cacheReadTokens = 0, us_cacheCreationTokens = 0, us_outputTokens = 1000000\<rparr>
      ''cu-1'' 5 demo_login = (d', Inr r) \<and> chatQuotaUsedMilli d' ''acc-1'' = 50000"
proof -
  let ?u = "\<lparr>us_inputTokens = 1000000, us_cacheReadTokens = 0, us_cacheCreationTokens = 0, us_outputTokens = 1000000\<rparr>"
  have "findAccountById demo_login ''acc-1'' = Some demo_account" "''cu-1'' \<notin> cu_id ` set (chat_usage_records demo_login)"
    by (simp_all add: demo_login_def session_opened_def demo_db_def demo_account_def empty_db_def findAccountById_def)
  note W = recordChatUsage_meters [OF demo_service_inv this, of default_config "ascii ''m''" ?u 5]
  have "chatUsagePointsMilli default_config ?u = 50000" "chatQuotaUsedMilli demo_login ''acc-1'' = 0"
    by (simp_all add: chatUsagePointsMilli_def default_config_def math_round_def floor_eq_iff chatQuotaUsedMilli_def
        demo_login_def session_opened_def demo_db_def demo_account_def findAccountById_def)
  with W show ?thesis by auto
qed

lemma frozen_nonneg:
  assumes "gateway_inv d"
  shows "0 \<le> frozenPointsFor d i"
proof -
  have "permits_ok d" "orders_ok d"
    using assms by (simp_all add: gateway_inv_def backend_inv_def billing_inv_def)
  then show ?thesis
    unfolding frozenPointsFor_def permit_frozen_of_def order_frozen_of_def
    by (intro add_nonneg_nonneg sum_where_nonneg)
      (auto simp: permits_ok_def orders_ok_def order_ok_def dest: permit_ok_frozen_nonneg)
qed

text \<open>
  C29: an exhausted quota pauses the conversation and any top-up resumes it at once. While the quota
  is used up the gate refuses; after a successful top-up request it lets the account through.
\<close>

theorem topup_resumes_chat:
  assumes inv: "service_inv d" and quota: "0 < chatHiddenQuotaPoints cfg"
    and run: "post_topup i points t now uuid d = (d', Inr acc)"
  shows "(\<forall>a. findAccountById d i = Some a \<longrightarrow> 0 < ac_balance a \<longrightarrow>
        chatHiddenQuotaPoints cfg * 1000 \<le> ac_chat_quota_used_milli a \<longrightarrow>
        assertConversationAllowed cfg d a = fail ''chat_quota_exhausted'' 402) \<and>
    (\<exists>a'. findAccountById d' i = Some a' \<and> assertConversationAllowed cfg d' a' = Inr ())"
proof -
  have points: "1 \<le> points" and body: "apply_delta_body i points Topup (case_option [] id t) now uuid d = Inr (d', acc)"
    using run by (auto simp: post_topup_def applyAccountLedgerDelta_def dest: transaction_InrD split: if_split_asm)
  obtain a where a: "findAccountById d i = Some a"
    and d': "d' = clear_quota_of i (posted a points Topup (case_option [] id t) now uuid d)"
    using body by (rule apply_delta_body_Inr) simp
  have i: "ac_id a = i" using a by (simp add: findAccountById_ac_id)
  let ?a = "clear_chat_quota (set_balance (ac_balance a + points) now a)"
  have a': "findAccountById d' i = Some ?a"
    using a i by (simp add: d' findAccountById_clear_quota_of findAccountById_posted)
  have "solvent d i" "gateway_inv d"
    using inv by (simp_all add: service_inv_def gateway_inv_def backend_inv_def billing_inv_def)
  then have "0 \<le> ac_balance a" using a frozen_nonneg [of d i] by (force simp: solvent_def)
  with points quota a' i have "assertConversationAllowed cfg d' ?a = Inr ()"
    by (simp add: assertConversationAllowed_def chatQuotaUsedMilli_def row_update_defs)
  moreover have "assertConversationAllowed cfg d b = fail ''chat_quota_exhausted'' 402"
    if "findAccountById d i = Some b" "0 < ac_balance b" "chatHiddenQuotaPoints cfg * 1000 \<le> ac_chat_quota_used_milli b" for b
    using that findAccountById_ac_id [OF that(1)] by (simp add: assertConversationAllowed_def chatQuotaUsedMilli_def)
  ultimately show ?thesis using a' by blast
qed

theorem topup_resumes_chat_witness:
  "\<exists>d' acc a'. post_topup ''acc-1'' 100 None 5 ''le-9'' demo_login = (d', Inr acc) \<and>
     findAccountById d' ''acc-1'' = Some a' \<and> assertConversationAllowed default_config d' a' = Inr ()"
proof -
  let ?run = "post_topup ''acc-1'' 100 None 5 ''le-9'' demo_login"
  have "ledger_ok demo_login"
    using demo_service_inv by (simp add: service_inv_def gateway_inv_def backend_inv_def billing_inv_def)
  moreover have found: "findAccountById demo_login ''acc-1'' = Some demo_account"
    and "''le-9'' \<notin> le_id ` set (ledger_entries demo_login)"
    by (simp_all add: demo_login_def session_opened_def demo_db_def demo_account_def findAccountById_def)
  ultimately have "?run = (fst ?run, Inr (set_balance 600 5 demo_account))"
    using applyBalanceChange_ok [of demo_login "''acc-1''" demo_account "''le-9''" 100 Topup "[]" 5]
    by (simp add: post_topup_def accountIdSchema_def applyAccountLedgerDelta_def transaction_def
        apply_delta_body_def demo_account_def)
  from topup_resumes_chat [OF demo_service_inv _ this, of default_config] this show ?thesis
    by (auto simp: default_config_def)
qed

section \<open>Metering of a stream\<close>

definition sse_event :: "utext \<Rightarrow> utext" where
  "sse_event payload = ascii ''data: '' @ payload @ [10, 10]"

definition one_line :: "utext \<Rightarrow> bool" where
  "one_line t \<longleftrightarrow> 10 \<notin> set t \<and> t \<noteq> [] \<and> last t \<noteq> 13"

lemma feed_event:
  assumes "one_line payload" and "parse payload = Some event" and "is_object event"
    and "tp_buffer tap = []" and "tp_dataLines tap = []"
  shows "feed parse (sse_event payload @ rest) tap =
    feed parse rest (apply_event event (tap\<lparr>tp_dataLines := [payload]\<rparr>)\<lparr>tp_dataLines := []\<rparr>)"
proof -
  let ?line = "ascii ''data: '' @ payload"
  let ?tap1 = "tap\<lparr>tp_dataLines := [payload]\<rparr>"
  let ?tap2 = "apply_event event ?tap1\<lparr>tp_dataLines := []\<rparr>"
  have line: "10 \<notin> set ?line" "strip_cr ?line = ?line"
    using assms(1) by (auto simp: one_line_def strip_cr_def ascii_def)
  have "strip_prefix (ascii ''data:'') ?line = Some (32 # payload)"
    by (simp add: ascii_def)
  then have c1: "consumeLine parse ?line tap = ?tap1"
    using assms(5) by (simp add: consumeLine_def strip_space_def ascii_def)
  have c2: "consumeLine parse (strip_cr []) ?tap1 = ?tap2"
    using assms(2,3) by (simp add: consumeLine_def strip_cr_def dispatchEvent_def)
  have "feed parse (sse_event payload @ rest) tap = drain parse (tap\<lparr>tp_buffer := ?line @ 10 # 10 # rest\<rparr>)"
    using assms(4) by (simp add: feed_def sse_event_def)
  also have "\<dots> = drain parse (?tap1\<lparr>tp_buffer := [] @ 10 # rest\<rparr>)"
    using drain_line [OF line(1), of parse "10 # rest" tap] line(2) c1 by simp
  also have "\<dots> = drain parse (?tap2\<lparr>tp_buffer := rest\<rparr>)"
    using drain_line [of "[]" parse rest ?tap1] c2 by simp
  also have "\<dots> = feed parse rest ?tap2"
    using assms(4) by (simp add: feed_def apply_event_def Let_def split: option.split json.split bool.split prod.split)
  finally show ?thesis .
qed

text \<open>The two events of the Anthropic protocol that carry usage; the output count is cumulative.\<close>

definition start_event :: "utext \<Rightarrow> chat_token_usage \<Rightarrow> json" where
  "start_event model u =
     JObj [(''type'', JStr (ascii ''message_start'')),
           (''message'', JObj [(''model'', JStr model),
              (''usage'', JObj [(''input_tokens'', JNum (of_int (us_inputTokens u))),
                 (''cache_read_input_tokens'', JNum (of_int (us_cacheReadTokens u))),
                 (''cache_creation_input_tokens'', JNum (of_int (us_cacheCreationTokens u))),
                 (''output_tokens'', JNum (of_int (us_outputTokens u)))])])]"

definition delta_event :: "int \<Rightarrow> json" where
  "delta_event n =
     JObj [(''type'', JStr (ascii ''message_delta'')), (''usage'', JObj [(''output_tokens'', JNum (of_int n))])]"

lemma pick_of_int [simp]: "0 \<le> n \<Longrightarrow> pickNonNegativeInt (Some (JNum (of_int n))) = n"
  by (simp add: pickNonNegativeInt_def math_round_of_int)

lemma pick_None [simp]: "pickNonNegativeInt None = 0"
  by (simp add: pickNonNegativeInt_def)

definition usage_nonneg :: "chat_token_usage \<Rightarrow> bool" where
  "usage_nonneg u \<longleftrightarrow>
     0 \<le> us_inputTokens u \<and> 0 \<le> us_cacheReadTokens u \<and> 0 \<le> us_cacheCreationTokens u \<and> 0 \<le> us_outputTokens u"

lemma apply_start_event:
  assumes "usage_nonneg u" and "us_outputTokens (tp_usage tap) = 0"
  shows "apply_event (start_event model u) tap = tap\<lparr>tp_model := model, tp_usage := u\<rparr>"
proof -
  have "usageFromShape (jget (JObj [(''model'', JStr model),
      (''usage'', JObj [(''input_tokens'', JNum (of_int (us_inputTokens u))),
         (''cache_read_input_tokens'', JNum (of_int (us_cacheReadTokens u))),
         (''cache_creation_input_tokens'', JNum (of_int (us_cacheCreationTokens u))),
         (''output_tokens'', JNum (of_int (us_outputTokens u)))])]) ''usage'') = Some u"
    using assms(1) by (simp add: usageFromShape_def object_of_def is_object_def jget_def usage_nonneg_def)
  then show ?thesis
    using assms
    by (simp add: apply_event_def start_event_def object_of_def is_object_def start_usage_def keep_positive_def
        usage_nonneg_def Let_def jget_def)
qed

lemma apply_delta_event:
  assumes "0 < n"
  shows "apply_event (delta_event n) tap = tap\<lparr>tp_usage := (tp_usage tap)\<lparr>us_outputTokens := n\<rparr>\<rparr>"
  using assms
  by (simp add: apply_event_def delta_event_def usageFromShape_def object_of_def is_object_def jget_def
      delta_usage_def keep_positive_def ascii_def split: option.split)

lemma no_data_lines:
  "tp_dataLines tap = [] \<Longrightarrow> tap\<lparr>tp_usage := u, tp_dataLines := []\<rparr> = tap\<lparr>tp_usage := u\<rparr>" for tap :: sse_tap
  by (cases tap) simp

lemma feed_deltas:
  assumes "\<forall>(p, n) \<in> set deltas. one_line p \<and> parse p = Some (delta_event n) \<and> 0 < n"
    and "tp_buffer tap = []" and "tp_dataLines tap = []"
  shows "feed parse (concat (map (\<lambda>(p, n). sse_event p) deltas)) tap =
    tap\<lparr>tp_usage := (tp_usage tap)\<lparr>us_outputTokens := last (us_outputTokens (tp_usage tap) # map snd deltas)\<rparr>\<rparr>"
  using assms
proof (induction deltas arbitrary: tap)
  case Nil
  then show ?case by (simp add: feed_Nil)
next
  case (Cons pn deltas)
  obtain p n where pn: "pn = (p, n)" by force
  let ?tap = "tap\<lparr>tp_usage := (tp_usage tap)\<lparr>us_outputTokens := n\<rparr>\<rparr>"
  have "feed parse (sse_event p @ concat (map (\<lambda>(p, n). sse_event p) deltas)) tap =
      feed parse (concat (map (\<lambda>(p, n). sse_event p) deltas)) ?tap"
    using Cons.prems feed_event [of p parse "delta_event n" tap] apply_delta_event [of n]
    by (simp add: pn is_object_def delta_event_def no_data_lines)
  also have "\<dots> = ?tap\<lparr>tp_usage := (tp_usage ?tap)\<lparr>us_outputTokens := last (n # map snd deltas)\<rparr>\<rparr>"
    using Cons.IH [of ?tap] Cons.prems by simp
  finally show ?case by (simp add: pn)
qed



end
