(* ===== verification/Preference.thy ===== *)
theory Preference
  imports PoolSnapshot "HOL-Library.List_Lexorder" "HOL-Library.Char_ord"
begin

text \<open>
  The list of preferred channels, \<open>backend/src/domain/preference-channels.ts\<close>, its delivery route of
  \<open>backend/src/http/config-routes.ts\<close> and the pick form of \<open>backend/src/http/admin-pages.ts\<close>. A row is
  either a name entry or bound to a resource of the pool. JavaScript's \<open>toLowerCase\<close> is the parameter
  \<open>lower\<close>; the identifiers that the code draws are arguments.
\<close>

section \<open>Name normalisation\<close>

text \<open>\<open>name.trim().replace(/\s+/g, ' ')\<close>\<close>

fun collapse_spaces :: "utext \<Rightarrow> utext" where
  "collapse_spaces [] = []"
| "collapse_spaces (c # t) =
     (if js_space c
      then (case t of [] \<Rightarrow> [32] | c' # _ \<Rightarrow> if js_space c' then collapse_spaces t else 32 # collapse_spaces t)
      else c # collapse_spaces t)"

definition clean_name :: "utext \<Rightarrow> utext" where
  "clean_name t = collapse_spaces (js_trim t)"

text \<open>
  \<open>/[open][^open close]*[close]\s*$/\<close>: the bracket block at the end of the text, if there is one. The
  body has no bracket, so the block is found backwards from the end.
\<close>

definition strip_block :: "nat set \<Rightarrow> nat set \<Rightarrow> utext \<Rightarrow> utext" where
  "strip_block opening closing t =
     (case dropWhile js_space (rev t) of
        [] \<Rightarrow> t
      | c # r \<Rightarrow>
          if c \<in> closing
          then (case dropWhile (\<lambda>x. x \<notin> opening \<union> closing) r of
                  [] \<Rightarrow> t | x # r' \<Rightarrow> if x \<in> opening then rev r' else t)
          else t)"

definition strip_blocks :: "utext \<Rightarrow> utext" where
  "strip_blocks t = js_trim (strip_block {12304} {12305} (strip_block {65288, 40} {65289, 41} t))"

lemma length_strip_block: "strip_block opening closing t = t \<or> length (strip_block opening closing t) < length t"
proof -
  have "length (dropWhile P r) \<le> length r" for P and r :: utext by (rule length_dropWhile_le)
  then have "dropWhile js_space (rev t) = c # r \<Longrightarrow> dropWhile P r = x # r' \<Longrightarrow> length r' < length t" for c r P x r'
    by (metis length_Cons length_rev less_eq_Suc_le less_SucI order_less_le_trans)
  then show ?thesis by (auto simp: strip_block_def split: list.split)
qed

lemma dropWhile_id_or_less: "dropWhile P t = t \<or> length (dropWhile P t) < length t"
  by (induction t) (auto simp: less_Suc_eq_le length_dropWhile_le)

lemma length_js_trim: "js_trim t = t \<or> length (js_trim t) < length t"
proof -
  let ?u = "dropWhile js_space t"
  have "?u = t \<or> length ?u < length t" by (rule dropWhile_id_or_less)
  moreover have "dropWhile js_space (rev ?u) = rev ?u \<or> length (dropWhile js_space (rev ?u)) < length (rev ?u)"
    by (rule dropWhile_id_or_less)
  ultimately show ?thesis by (auto simp: js_trim_def)
qed

lemma shrink_trans:
  "y = x \<or> length y < length x \<Longrightarrow> z = y \<or> length z < length y \<Longrightarrow> z = x \<or> length z < length x"
  by auto

lemma length_strip_blocks: "strip_blocks t = t \<or> length (strip_blocks t) < length t"
  unfolding strip_blocks_def
  by (rule shrink_trans [OF shrink_trans [OF length_strip_block length_strip_block] length_js_trim])

function strip_loop :: "utext \<Rightarrow> utext" where
  "strip_loop core =
     (let stripped = strip_blocks core
      in if stripped = core \<or> stripped = [] then core else strip_loop stripped)"
  by auto
termination
  by (relation "measure length") (use length_strip_blocks in auto)

declare strip_loop.simps [simp del]

definition preferenceNameCore :: "(utext \<Rightarrow> utext) \<Rightarrow> utext \<Rightarrow> utext" where
  "preferenceNameCore lower name = strip_loop (lower (js_trim name))"

section \<open>Operations\<close>

definition list_order :: "preference_channel_row list \<Rightarrow> preference_channel_row list" where
  "list_order rows = sort_key pr_category (sort_key pr_created_at (sort_key pr_id rows))"

definition listPreferenceChannels :: "db \<Rightarrow> preference_channel_row list" where
  "listPreferenceChannels d = list_order (preference_channels d)"

definition known_category :: "int \<Rightarrow> bool" where
  "known_category c \<longleftrightarrow> map_of PREFERENCE_CATEGORY_NAMES c \<noteq> None"

definition insert_preference :: "preference_channel_row \<Rightarrow> db \<Rightarrow> db result" where
  "insert_preference r d =
     bind_result (insert_row pr_id r (preference_channels d)) (\<lambda>rows. Inr (d\<lparr>preference_channels := rows\<rparr>))"

definition addPreferenceChannel ::
  "int \<Rightarrow> utext \<Rightarrow> utext \<Rightarrow> bool \<Rightarrow> string \<Rightarrow> instant \<Rightarrow> db \<Rightarrow> db \<times> preference_channel_row result" where
  "addPreferenceChannel category name domain exact uuid now d =
     (if clean_name name = [] \<or> length (clean_name name) > 200 then (d, fail ''validation_error'' 400)
      else if length (js_trim domain) > 200 then (d, fail ''validation_error'' 400)
      else if \<not> known_category category then (d, fail ''validation_error'' 400)
      else let r = \<lparr>pr_id = uuid, pr_category = category, pr_name = clean_name name,
                    pr_domain = js_trim domain, pr_exact = exact, pr_kind = None,
                    pr_resource_id = None, pr_created_at = now, pr_updated_at = now\<rparr>
           in case insert_preference r d of Inl e \<Rightarrow> (d, Inl e) | Inr d1 \<Rightarrow> (d1, Inr r))"

record binding_pick =
  bk_kind :: publish_order_kind
  bk_resourceId :: int
  bk_name :: utext
  bk_domain :: utext

definition pick_valid :: "binding_pick \<Rightarrow> bool" where
  "pick_valid p \<longleftrightarrow>
     clean_name (bk_name p) \<noteq> [] \<and> length (clean_name (bk_name p)) \<le> 200 \<and>
     length (js_trim (bk_domain p)) \<le> 200 \<and> 0 < bk_resourceId p"

definition binding_key :: "preference_channel_row \<Rightarrow> int \<times> publish_order_kind option \<times> int option" where
  "binding_key r = (pr_category r, pr_kind r, pr_resource_id r)"

definition binding_row :: "int \<Rightarrow> binding_pick \<Rightarrow> string \<Rightarrow> instant \<Rightarrow> preference_channel_row" where
  "binding_row category p uuid now =
     \<lparr>pr_id = uuid, pr_category = category, pr_name = clean_name (bk_name p),
      pr_domain = js_trim (bk_domain p), pr_exact = True, pr_kind = Some (bk_kind p),
      pr_resource_id = Some (bk_resourceId p), pr_created_at = now, pr_updated_at = now\<rparr>"

fun insert_bindings :: "int \<Rightarrow> (binding_pick \<times> string) list \<Rightarrow> instant \<Rightarrow> int body" where
  "insert_bindings category [] now d = Inr (d, 0)"
| "insert_bindings category ((p, uuid) # picks) now d =
     (if (category, Some (bk_kind p), Some (bk_resourceId p)) \<in> binding_key ` set (preference_channels d)
      then insert_bindings category picks now d
      else bind_result (insert_preference (binding_row category p uuid now) d) (\<lambda>d1.
             bind_result (insert_bindings category picks now d1) (\<lambda>(d2, n). Inr (d2, n + 1))))"

definition addPreferenceChannelBindings ::
  "int \<Rightarrow> (binding_pick \<times> string) list \<Rightarrow> instant \<Rightarrow> int operation" where
  "addPreferenceChannelBindings category picks now d =
     (if \<not> known_category category \<or> picks = [] \<or> \<not> list_all (\<lambda>(p, _). pick_valid p) picks
      then (d, fail ''validation_error'' 400)
      else transaction (insert_bindings category picks now) d)"

definition recategorise_row :: "int \<Rightarrow> instant \<Rightarrow> preference_channel_row \<Rightarrow> preference_channel_row" where
  "recategorise_row category now r = r\<lparr>pr_category := category, pr_updated_at := now\<rparr>"

definition updatePreferenceChannelCategory :: "string \<Rightarrow> int \<Rightarrow> instant \<Rightarrow> unit operation" where
  "updatePreferenceChannelCategory i category now d =
     (if \<not> known_category category then (d, fail ''validation_error'' 400)
      else if find_row pr_id i (preference_channels d) = None
      then (d, fail ''preference_channel_not_found'' 404)
      else (d\<lparr>preference_channels :=
               update_rows (\<lambda>r. pr_id r = i) (recategorise_row category now) (preference_channels d)\<rparr>, Inr ()))"

definition deletePreferenceChannel :: "string \<Rightarrow> unit operation" where
  "deletePreferenceChannel i d =
     (if find_row pr_id i (preference_channels d) = None
      then (d, fail ''preference_channel_not_found'' 404)
      else (d\<lparr>preference_channels := filter (\<lambda>r. pr_id r \<noteq> i) (preference_channels d)\<rparr>, Inr ()))"

section \<open>Delivery\<close>

record preference_entry =
  pe_name :: utext
  pe_domain :: "utext option"
  pe_exact :: bool
  pe_ref :: "(publish_order_kind \<times> int) option"

definition bound_ref :: "preference_channel_row \<Rightarrow> (publish_order_kind \<times> int) option" where
  "bound_ref r = (case (pr_kind r, pr_resource_id r) of (Some k, Some i) \<Rightarrow> Some (k, i) | _ \<Rightarrow> None)"

definition preferenceChannelEntryOf :: "preference_channel_row \<Rightarrow> preference_entry" where
  "preferenceChannelEntryOf r =
     \<lparr>pe_name = pr_name r, pe_domain = (if pr_domain r = [] then None else Some (pr_domain r)),
      pe_exact = pr_exact r, pe_ref = bound_ref r\<rparr>"

text \<open>The two passes; the accumulators are the sets that the code keeps.\<close>

fun keep_bound ::
  "preference_channel_row list \<Rightarrow> (publish_order_kind \<times> int) list \<Rightarrow> preference_channel_row list" where
  "keep_bound [] seen = []"
| "keep_bound (r # rows) seen =
     (case bound_ref r of
        None \<Rightarrow> keep_bound rows seen
      | Some ref \<Rightarrow> if ref \<in> set seen then keep_bound rows seen else r # keep_bound rows (ref # seen))"

fun keep_named ::
  "(utext \<Rightarrow> utext) \<Rightarrow> utext list \<Rightarrow> preference_channel_row list \<Rightarrow> utext list \<Rightarrow> preference_channel_row list" where
  "keep_named lower boundCores [] seen = []"
| "keep_named lower boundCores (r # rows) seen =
     (if bound_ref r \<noteq> None then keep_named lower boundCores rows seen
      else let core = preferenceNameCore lower (pr_name r)
           in if core \<noteq> [] \<and> (core \<in> set seen \<or> core \<in> set boundCores)
              then keep_named lower boundCores rows seen
              else r # keep_named lower boundCores rows (if core \<noteq> [] then core # seen else seen))"

definition bound_cores :: "(utext \<Rightarrow> utext) \<Rightarrow> preference_channel_row list \<Rightarrow> utext list" where
  "bound_cores lower rows =
     filter (\<lambda>c. c \<noteq> []) (map (\<lambda>r. preferenceNameCore lower (pr_name r)) rows)"

definition kept_rows :: "(utext \<Rightarrow> utext) \<Rightarrow> preference_channel_row list \<Rightarrow> preference_channel_row list" where
  "kept_rows lower rows =
     (let bound = keep_bound rows [] in bound @ keep_named lower (bound_cores lower bound) rows [])"

definition dedupePreferenceRows ::
  "(utext \<Rightarrow> utext) \<Rightarrow> preference_channel_row list \<Rightarrow> preference_entry list" where
  "dedupePreferenceRows lower rows = map preferenceChannelEntryOf (kept_rows lower rows)"

definition selected_rows :: "db \<Rightarrow> int list \<Rightarrow> preference_channel_row list" where
  "selected_rows d codes =
     (let unique = filter (\<lambda>c. 0 < c) codes;
          industry = list_order (filter (\<lambda>r. pr_category r \<in> set unique) (preference_channels d))
      in if industry \<noteq> [] then industry
         else list_order (filter (\<lambda>r. pr_category r = 0) (preference_channels d)))"

definition resolvePreferenceChannelsForCodes ::
  "(utext \<Rightarrow> utext) \<Rightarrow> db \<Rightarrow> int list \<Rightarrow> preference_entry list" where
  "resolvePreferenceChannelsForCodes lower d codes = dedupePreferenceRows lower (selected_rows d codes)"

definition MAX_PREFERENCE_CODES :: nat where
  "MAX_PREFERENCE_CODES = 32"

text \<open>\<open>raw.split(',')\<close> and the digits of one part.\<close>

fun split_commas :: "utext \<Rightarrow> utext list" where
  "split_commas [] = [[]]"
| "split_commas (c # t) =
     (if c = 44 then [] # split_commas t
      else case split_commas t of [] \<Rightarrow> [[c]] | p # ps \<Rightarrow> (c # p) # ps)"

definition parse_code :: "utext \<Rightarrow> int result" where
  "parse_code part =
     (let t = js_trim part
      in if 1 \<le> length t \<and> length t \<le> 4 \<and> list_all digit_char t then Inr (int (digits_value t))
         else fail ''validation_error'' 400)"

fun parse_codes :: "utext list \<Rightarrow> int list result" where
  "parse_codes [] = Inr []"
| "parse_codes (p # ps) =
     bind_result (parse_code p) (\<lambda>c. bind_result (parse_codes ps) (\<lambda>cs. Inr (c # cs)))"

definition get_preference_channels ::
  "(utext \<Rightarrow> utext) \<Rightarrow> db \<Rightarrow> utext option \<Rightarrow> preference_entry list result" where
  "get_preference_channels lower d codes =
     (let raw = js_trim (case_option [] id codes) in
      if raw = [] then Inr (resolvePreferenceChannelsForCodes lower d [])
      else if length (split_commas raw) > MAX_PREFERENCE_CODES then fail ''validation_error'' 400
      else bind_result (parse_codes (split_commas raw))
             (\<lambda>cs. Inr (resolvePreferenceChannelsForCodes lower d cs)))"

section \<open>The pick form\<close>

definition POOL_SEARCH_RESULT_LIMIT :: nat where
  "POOL_SEARCH_RESULT_LIMIT = 50"

definition poolSnapshotByRef :: "db \<Rightarrow> publish_order_kind \<times> int \<Rightarrow> pool_snapshot_row option" where
  "poolSnapshotByRef d ref = find_row snapshot_key ref (distribution_pool_snapshot d)"

fun resolve_picks ::
  "db \<Rightarrow> ((publish_order_kind \<times> int) \<times> string) list \<Rightarrow> (binding_pick \<times> string) list result" where
  "resolve_picks d [] = Inr []"
| "resolve_picks d ((ref, uuid) # refs) =
     (case poolSnapshotByRef d ref of
        None \<Rightarrow> fail ''validation_error'' 400
      | Some snapshot \<Rightarrow>
          bind_result (resolve_picks d refs) (\<lambda>ps.
            Inr ((\<lparr>bk_kind = fst ref, bk_resourceId = snd ref, bk_name = ps_name snapshot,
                   bk_domain = ps_domain snapshot\<rparr>, uuid) # ps)))"

text \<open>The form after its parsing: the picked references without repetition, one identifier for each.\<close>

definition post_pick ::
  "int \<Rightarrow> (publish_order_kind \<times> int) list \<Rightarrow> (nat \<Rightarrow> string) \<Rightarrow> instant \<Rightarrow> int operation" where
  "post_pick category refs uuids now d =
     (if refs = [] \<or> length refs > POOL_SEARCH_RESULT_LIMIT then (d, fail ''validation_error'' 400)
      else case resolve_picks d (zip refs (map uuids [0..<length refs])) of
             Inl e \<Rightarrow> (d, Inl e)
           | Inr picks \<Rightarrow> addPreferenceChannelBindings category picks now d)"

section \<open>Properties of the list\<close>

lemma set_list_order [simp]: "set (list_order rows) = set rows"
  by (simp add: list_order_def)

lemma list_order_empty: "list_order rows = [] \<longleftrightarrow> rows = []"
  by (metis set_empty set_list_order)

lemma keep_bound_spec:
  "set (keep_bound rows seen) \<subseteq> set rows \<and>
   (\<forall>r \<in> set (keep_bound rows seen). bound_ref r \<noteq> None \<and> the (bound_ref r) \<notin> set seen) \<and>
   distinct (map bound_ref (keep_bound rows seen)) \<and>
   (\<forall>r \<in> set rows. \<forall>ref. bound_ref r = Some ref \<longrightarrow> ref \<in> set seen \<or> Some ref \<in> bound_ref ` set (keep_bound rows seen))"
proof (induction rows arbitrary: seen)
  case (Cons r rows)
  show ?case
  proof (cases "bound_ref r")
    case None
    with Cons [of seen] show ?thesis by auto
  next
    case (Some ref)
    show ?thesis
    proof (cases "ref \<in> set seen")
      case True
      with Some Cons [of seen] show ?thesis by auto
    next
      case False
      have "Some ref \<notin> bound_ref ` set (keep_bound rows (ref # seen))"
        using Cons [of "ref # seen"] by (force simp: image_iff)
      with False Some Cons [of "ref # seen"] show ?thesis by auto
    qed
  qed
qed simp

lemma keep_named_spec:
  "set (keep_named lower cores rows seen) \<subseteq> {r \<in> set rows. bound_ref r = None} \<and>
   (\<forall>r \<in> set (keep_named lower cores rows seen).
      preferenceNameCore lower (pr_name r) \<notin> (set cores \<union> set seen) - {[]}) \<and>
   distinct (filter (\<lambda>c. c \<noteq> []) (map (\<lambda>r. preferenceNameCore lower (pr_name r)) (keep_named lower cores rows seen))) \<and>
   (\<forall>r \<in> set rows. bound_ref r = None \<longrightarrow>
      preferenceNameCore lower (pr_name r) \<in> set cores \<union> set seen \<union>
        (\<lambda>r. preferenceNameCore lower (pr_name r)) ` set (keep_named lower cores rows seen))"
proof (induction rows arbitrary: seen)
  case (Cons r rows)
  let ?core = "preferenceNameCore lower (pr_name r)"
  show ?case
  proof (cases "bound_ref r \<noteq> None \<or> ?core \<noteq> [] \<and> (?core \<in> set seen \<or> ?core \<in> set cores)")
    case True
    with Cons [of seen] show ?thesis by (auto simp: Let_def)
  next
    case False
    then have none: "bound_ref r = None" and new: "?core = [] \<or> ?core \<notin> set seen \<union> set cores"
      by (simp_all only: de_Morgan_disj de_Morgan_conj not_not Un_iff)
    let ?seen = "if ?core \<noteq> [] then ?core # seen else seen"
    have step: "keep_named lower cores (r # rows) seen = r # keep_named lower cores rows ?seen"
      using new none by (auto simp: Let_def)
    have IH: "set (keep_named lower cores rows ?seen) \<subseteq> {r \<in> set rows. bound_ref r = None}"
      "\<forall>q \<in> set (keep_named lower cores rows ?seen). preferenceNameCore lower (pr_name q) \<notin> (set cores \<union> set ?seen) - {[]}"
      "distinct (filter (\<lambda>c. c \<noteq> []) (map (\<lambda>r. preferenceNameCore lower (pr_name r)) (keep_named lower cores rows ?seen)))"
      "\<forall>q \<in> set rows. bound_ref q = None \<longrightarrow> preferenceNameCore lower (pr_name q) \<in> set cores \<union> set ?seen \<union>
        (\<lambda>r. preferenceNameCore lower (pr_name r)) ` set (keep_named lower cores rows ?seen)"
      using Cons [of ?seen] by blast+
    show ?thesis
      unfolding step using none new IH by (cases "?core = []") auto
  qed
qed simp


definition demo_preferences :: db where
  "demo_preferences = empty_db\<lparr>preference_channels :=
     [binding_row 13 \<lparr>bk_kind = Media, bk_resourceId = 7, bk_name = ascii ''A'', bk_domain = []\<rparr> ''p-1'' 0,
      binding_row 0 \<lparr>bk_kind = WeMedia, bk_resourceId = 8, bk_name = ascii ''B'', bk_domain = []\<rparr> ''p-2'' 0]\<rparr>"


subsection \<open>Bindings\<close>

definition bindings_ok :: "db \<Rightarrow> bool" where
  "bindings_ok d \<longleftrightarrow>
     distinct (map pr_id (preference_channels d)) \<and>
     distinct (map binding_key (filter (\<lambda>r. bound_ref r \<noteq> None) (preference_channels d)))"

lemma binding_row_key:
  "binding_key (binding_row c p u now) = (c, Some (bk_kind p), Some (bk_resourceId p))"
  "bound_ref (binding_row c p u now) = Some (bk_kind p, bk_resourceId p)" "pr_id (binding_row c p u now) = u"
  by (simp_all add: binding_row_def binding_key_def bound_ref_def)

lemma insert_preference_Inr:
  "insert_preference r d = Inr d' \<longleftrightarrow>
     pr_id r \<notin> pr_id ` set (preference_channels d) \<and> d' = d\<lparr>preference_channels := preference_channels d @ [r]\<rparr>"
  by (auto simp: insert_preference_def bind_result_Inr_iff insert_row_Inr_iff)

lemma insert_bindings_Inr:
  assumes "insert_bindings c picks now d = Inr (d', n)"
  shows "(\<exists>new. preference_channels d' = preference_channels d @ new \<and> int (length new) = n) \<and>
    (bindings_ok d \<longrightarrow> bindings_ok d') \<and>
    (\<forall>(p, u) \<in> set picks. (c, Some (bk_kind p), Some (bk_resourceId p)) \<in> binding_key ` set (preference_channels d'))"
  using assms
proof (induction picks arbitrary: d n)
  case Nil
  then show ?case by simp
next
  case (Cons pu picks)
  obtain p u where pu: "pu = (p, u)" by force
  let ?key = "(c, Some (bk_kind p), Some (bk_resourceId p))"
  show ?case
  proof (cases "?key \<in> binding_key ` set (preference_channels d)")
    case True
    with Cons.prems have "insert_bindings c picks now d = Inr (d', n)" by (simp add: pu)
    from Cons.IH [OF this] True show ?thesis by (auto simp: pu)
  next
    case False
    let ?r = "binding_row c p u now"
    let ?d = "d\<lparr>preference_channels := preference_channels d @ [?r]\<rparr>"
    from False Cons.prems obtain m where fresh: "u \<notin> pr_id ` set (preference_channels d)"
      and rest: "insert_bindings c picks now ?d = Inr (d', m)" and n: "n = m + 1"
      by (auto simp: pu bind_result_Inr_iff insert_preference_Inr binding_row_key)
    have "bindings_ok d \<Longrightarrow> bindings_ok ?d"
      using fresh False by (auto simp: bindings_ok_def binding_row_key)
    with Cons.IH [OF rest] n show ?thesis by (auto simp: pu binding_row_key)
  qed
qed

lemma insert_bindings_skip:
  "\<forall>(p, u) \<in> set picks. (c, Some (bk_kind p), Some (bk_resourceId p)) \<in> binding_key ` set (preference_channels d) \<Longrightarrow>
   insert_bindings c picks now d = Inr (d, 0)"
  by (induction picks) auto

text \<open>
  Binding picked resources is idempotent and keeps the bindings unique. After a submission was
  accepted every picked resource is bound in the industry, no resource is bound twice there, and the
  same submission, with whatever new identifiers, adds nothing.
\<close>

theorem addPreferenceChannelBindings_idempotent:
  assumes run: "addPreferenceChannelBindings c picks now d = (d', Inr n)"
    and same: "map fst picks' = map fst picks"
  shows "(bindings_ok d \<longrightarrow> bindings_ok d') \<and>
    (\<forall>(p, u) \<in> set picks. \<exists>r \<in> set (preference_channels d'). binding_key r = (c, Some (bk_kind p), Some (bk_resourceId p))) \<and>
    (\<exists>new. preference_channels d' = preference_channels d @ new \<and> int (length new) = n) \<and>
    addPreferenceChannelBindings c picks' later d' = (d', Inr 0)"
proof -
  have ok: "known_category c" "picks \<noteq> []" "list_all (\<lambda>(p, u). pick_valid p) picks"
    and body: "insert_bindings c picks now d = Inr (d', n)"
    using run by (auto simp: addPreferenceChannelBindings_def dest: transaction_InrD split: if_split_asm)
  note B = insert_bindings_Inr [OF body]
  have eq: "fst ` set picks' = fst ` set picks" using same by (metis list.set_map)
  have "\<forall>q \<in> fst ` set picks. (c, Some (bk_kind q), Some (bk_resourceId q)) \<in> binding_key ` set (preference_channels d')"
    using B by auto
  then have "\<forall>(p, u) \<in> set picks'. (c, Some (bk_kind p), Some (bk_resourceId p)) \<in> binding_key ` set (preference_channels d')"
    unfolding eq [symmetric] by auto
  then have "insert_bindings c picks' later d' = Inr (d', 0)" by (rule insert_bindings_skip)
  moreover have "picks' \<noteq> []" using same ok(2) by auto
  moreover have "\<forall>q \<in> fst ` set picks'. pick_valid q" unfolding eq using ok(3) by (auto simp: list_all_iff)
  then have "list_all (\<lambda>(p, u). pick_valid p) picks'" by (auto simp: list_all_iff)
  ultimately have "addPreferenceChannelBindings c picks' later d' = (d', Inr 0)"
    using ok(1) by (simp add: addPreferenceChannelBindings_def transaction_def)
  with B show ?thesis by (force simp: image_iff)
qed

theorem addPreferenceChannelBindings_witness:
  "let p = \<lparr>bk_kind = Media, bk_resourceId = 7, bk_name = ascii ''A'', bk_domain = []\<rparr>
   in \<exists>d'. addPreferenceChannelBindings 13 [(p, ''u-1''), (p, ''u-2'')] 5 empty_db = (d', Inr 1) \<and>
        addPreferenceChannelBindings 13 [(p, ''u-3''), (p, ''u-4'')] 6 d' = (d', Inr 0)"
proof -
  let ?p = "\<lparr>bk_kind = Media, bk_resourceId = 7, bk_name = ascii ''A'', bk_domain = []\<rparr>"
  let ?run = "addPreferenceChannelBindings 13 [(?p, ''u-1''), (?p, ''u-2'')] 5 empty_db"
  have "known_category 13" by (simp add: known_category_def PREFERENCE_CATEGORY_NAMES_def)
  moreover have "clean_name (ascii ''A'') = ascii ''A''" "js_trim [] = []"
    by (simp_all add: clean_name_def js_trim_def js_space_def ascii_def)
  ultimately have run: "?run = (fst ?run, Inr 1)"
    by (simp add: addPreferenceChannelBindings_def pick_valid_def transaction_def insert_preference_def
        insert_row_def empty_db_def binding_key_def binding_row_def ascii_def)
  have "addPreferenceChannelBindings 13 [(?p, ''u-3''), (?p, ''u-4'')] 6 (fst ?run) = (fst ?run, Inr 0)"
    using addPreferenceChannelBindings_idempotent [OF run, of "[(?p, ''u-3''), (?p, ''u-4'')]" 6] by simp
  with run show ?thesis unfolding Let_def by blast
qed

end
