(* ===== verification/Signing.thy ===== *)
theory Signing
  imports OrderRoutes "HOL-Library.List_Lexorder" "HOL-Library.Char_ord" "HOL-Library.Multiset"
begin

text \<open>
  The signatures of \<open>backend/src/gateway/provider-signing.ts\<close>, the entry of the signed callback of
  \<open>backend/src/http/distribution-callback-routes.ts\<close>, and the resource listing of
  \<open>backend/src/gateway/distribution-upstream.ts\<close>. JavaScript's \<open>sort\<close>
  compares UTF-16 code units; the order on code points used here agrees with it on the basic
  multilingual plane: what is sorted are keys and list elements, which are identifiers. The HMAC, the
  printing of numbers, \<open>Number\<close>, \<open>encodeURIComponent\<close> and the host name of a URL are parameters.
\<close>

section \<open>Object storage keys\<close>

fun split_char :: "nat \<Rightarrow> utext \<Rightarrow> utext list" where
  "split_char c [] = [[]]"
| "split_char c (x # t) =
     (if x = c then [] # split_char c t
      else case split_char c t of [] \<Rightarrow> [[x]] | p # ps \<Rightarrow> (x # p) # ps)"

fun join_char :: "nat \<Rightarrow> utext list \<Rightarrow> utext" where
  "join_char c [] = []"
| "join_char c [p] = p"
| "join_char c (p # q # ps) = p @ c # join_char c (q # ps)"

definition encodeOssObjectKey :: "(utext \<Rightarrow> utext) \<Rightarrow> utext \<Rightarrow> utext option" where
  "encodeOssObjectKey encode objectKey =
     (let cleaned = dropWhile (\<lambda>c. c = 47) objectKey in
      if cleaned = [] \<or> ascii ''..'' \<in> set (split_char 47 cleaned) then None
      else Some (join_char 47 (map encode (split_char 47 cleaned))))"

definition ossPutStringToSign ::
  "(utext \<Rightarrow> utext) \<Rightarrow> utext \<Rightarrow> utext \<Rightarrow> utext \<Rightarrow> utext \<Rightarrow> utext list \<Rightarrow> utext" where
  "ossPutStringToSign lower bucket objectKey contentType date headers =
     (let canonicalized = join_char 10 (sort (map (\<lambda>h. lower (js_trim h)) headers))
      in join_char 10
           ([ascii ''PUT'', [], contentType, date] @ (if canonicalized = [] then [] else [canonicalized]) @
            [ascii ''/'' @ bucket @ ascii ''/'' @ dropWhile (\<lambda>c. c = 47) objectKey]))"

definition signOssPutAuthorization :: "(utext \<Rightarrow> utext \<Rightarrow> utext) \<Rightarrow> utext \<Rightarrow> utext \<Rightarrow> utext \<Rightarrow> utext" where
  "signOssPutAuthorization hmac1 accessKeyId accessKeySecret toSign =
     ascii ''OSS '' @ accessKeyId @ ascii '':'' @ hmac1 accessKeySecret toSign"

section \<open>Flattened signatures\<close>

fun flattenSupermediaParamsDeep :: "(rat \<Rightarrow> utext) \<Rightarrow> json \<Rightarrow> utext" where
  "flattenSupermediaParamsDeep num (JArr xs) = concat (sort (map (flattenSupermediaParamsDeep num) xs))"
| "flattenSupermediaParamsDeep num (JObj fs) =
     concat (map snd (sort_key fst (filter (\<lambda>kv. fst kv \<noteq> ''signature'')
       (map (\<lambda>(k, v). (k, ascii k @ 61 # flattenSupermediaParamsDeep num v)) fs))))"
| "flattenSupermediaParamsDeep num (JStr t) = t"
| "flattenSupermediaParamsDeep num (JNum r) = num r"
| "flattenSupermediaParamsDeep num JNull = ascii ''null''"
| "flattenSupermediaParamsDeep num (JBool b) = (if b then ascii ''true'' else ascii ''false'')"

definition supermedia_params :: "utext \<Rightarrow> int \<Rightarrow> (string \<times> json) list \<Rightarrow> (string \<times> json) list" where
  "supermedia_params appid timestamp business =
     [(''appid'', JStr appid), (''timestamp'', JNum (of_int timestamp)), (''algorithm'', JStr (ascii ''sha256''))] @
     business"

definition signSupermediaQuery ::
  "(utext \<Rightarrow> utext \<Rightarrow> utext) \<Rightarrow> (rat \<Rightarrow> utext) \<Rightarrow> utext \<Rightarrow> utext \<Rightarrow> int \<Rightarrow> (string \<times> json) list \<Rightarrow>
   (string \<times> utext) list" where
  "signSupermediaQuery hmac num appid secret timestamp business =
     (let params = supermedia_params appid timestamp business in
      map (\<lambda>(k, v). (k, flattenSupermediaParamsDeep num v)) params @
      [(''signature'', hmac secret (flattenSupermediaParamsDeep num (JObj params)))])"

definition list_entries :: "(rat \<Rightarrow> utext) \<Rightarrow> string \<times> json \<Rightarrow> (string \<times> utext) list" where
  "list_entries num kv =
     (case snd kv of
        JArr xs \<Rightarrow> map (\<lambda>x. (fst kv @ ''[]'', flattenSupermediaParamsDeep num x)) xs
      | v \<Rightarrow> [(fst kv, flattenSupermediaParamsDeep num v)])"

definition signSupermediaQueryWithLists ::
  "(utext \<Rightarrow> utext \<Rightarrow> utext) \<Rightarrow> (rat \<Rightarrow> utext) \<Rightarrow> utext \<Rightarrow> utext \<Rightarrow> int \<Rightarrow> (string \<times> json) list \<Rightarrow>
   (string \<times> utext) list" where
  "signSupermediaQueryWithLists hmac num appid secret timestamp business =
     (let params = supermedia_params appid timestamp business in
      concat (map (list_entries num) params) @
      [(''signature'', hmac secret (flattenSupermediaParamsDeep num (JObj params)))])"

datatype verify_failure = BadAppid | BadAlgorithm | StaleTimestamp | BadSignature

text \<open>\<open>Number.parseInt(text, 10)\<close>\<close>

definition parse_int :: "utext \<Rightarrow> int option" where
  "parse_int t =
     (let (neg, r) = take_sign (dropWhile js_space t); ds = takeWhile digit_char r
      in if ds = [] then None else Some (if neg then - int (digits_value ds) else int (digits_value ds)))"

definition timestamp_of :: "json option \<Rightarrow> int option" where
  "timestamp_of f =
     (case f of
        Some (JNum r) \<Rightarrow> if of_int \<lfloor>r\<rfloor> = r then Some \<lfloor>r\<rfloor> else None
      | Some (JStr t) \<Rightarrow> parse_int t
      | _ \<Rightarrow> None)"

definition hex_digit :: "nat \<Rightarrow> bool" where
  "hex_digit c \<longleftrightarrow> digit_char c \<or> 97 \<le> c \<and> c \<le> 102 \<or> 65 \<le> c \<and> c \<le> 70"

definition hex_lower :: "nat \<Rightarrow> nat" where
  "hex_lower c = (if 65 \<le> c \<and> c \<le> 90 then c + 32 else c)"

definition verifySupermediaSignature ::
  "(utext \<Rightarrow> utext \<Rightarrow> utext) \<Rightarrow> (rat \<Rightarrow> utext) \<Rightarrow> utext \<Rightarrow> utext \<Rightarrow> int \<Rightarrow> int \<Rightarrow> json \<Rightarrow> verify_failure option" where
  "verifySupermediaSignature hmac num secret expectedAppId nowSeconds toleranceSeconds params =
     (if text_field (jget params ''appid'') \<noteq> expectedAppId then Some BadAppid
      else if jget params ''algorithm'' \<noteq> None \<and> jget params ''algorithm'' \<noteq> Some (JStr (ascii ''sha256''))
      then Some BadAlgorithm
      else case timestamp_of (jget params ''timestamp'') of
        None \<Rightarrow> Some StaleTimestamp
      | Some t \<Rightarrow>
          if \<bar>nowSeconds - t\<bar> > toleranceSeconds then Some StaleTimestamp
          else let signature = text_field (jget params ''signature'') in
            if length signature \<noteq> 64 \<or> \<not> list_all hex_digit signature then Some BadSignature
            else if hmac secret (flattenSupermediaParamsDeep num params) \<noteq> map hex_lower signature
            then Some BadSignature else None)"

section \<open>The callback\<close>

definition CALLBACK_TIMESTAMP_TOLERANCE_SECONDS :: int where
  "CALLBACK_TIMESTAMP_TOLERANCE_SECONDS = 300"

definition is_text :: "json option \<Rightarrow> bool" where
  "is_text f \<longleftrightarrow> (case f of Some (JStr _) \<Rightarrow> True | _ \<Rightarrow> False)"

definition is_number :: "json option \<Rightarrow> bool" where
  "is_number f \<longleftrightarrow> (case f of Some (JNum _) \<Rightarrow> True | _ \<Rightarrow> False)"

definition payload_ok :: "json option \<Rightarrow> bool" where
  "payload_ok f \<longleftrightarrow>
     (case f of Some (JObj fs) \<Rightarrow> list_all (\<lambda>(k, v). is_text (Some v) \<or> is_number (Some v)) fs | _ \<Rightarrow> False)"

definition callbackBodySchema :: "json \<Rightarrow> bool" where
  "callbackBodySchema j \<longleftrightarrow>
     is_text (jget j ''appid'') \<and> (is_number (jget j ''timestamp'') \<or> is_text (jget j ''timestamp'')) \<and>
     (jget j ''algorithm'' = None \<or> is_text (jget j ''algorithm'')) \<and> is_text (jget j ''signature'') \<and>
     jget j ''event'' \<in> {Some (JNum 1), Some (JNum 2)} \<and> payload_ok (jget j ''payload'')"

definition failure_code :: "verify_failure \<Rightarrow> string" where
  "failure_code f =
     (case f of BadAppid \<Rightarrow> ''callback_bad_appid'' | BadAlgorithm \<Rightarrow> ''callback_bad_algorithm''
      | StaleTimestamp \<Rightarrow> ''callback_stale_timestamp'' | BadSignature \<Rightarrow> ''callback_bad_signature'')"

text \<open>\<open>Number(payload.id)\<close>; a missing id is not a number.\<close>

definition number_of :: "(utext \<Rightarrow> rat option) \<Rightarrow> json option \<Rightarrow> rat option" where
  "number_of to_number f = (case f of Some (JNum r) \<Rightarrow> Some r | Some (JStr t) \<Rightarrow> to_number t | _ \<Rightarrow> None)"

definition callback_handler ::
  "(utext \<Rightarrow> utext \<Rightarrow> utext) \<Rightarrow> (rat \<Rightarrow> utext) \<Rightarrow> (utext \<Rightarrow> rat option) \<Rightarrow> utext \<Rightarrow> utext \<Rightarrow>
   json option \<Rightarrow> http_outcome \<Rightarrow> instant \<Rightarrow> (nat \<Rightarrow> string) \<Rightarrow> db \<Rightarrow> db \<times> bool result" where
  "callback_handler hmac num to_number appid secret raw h now uuids d =
     (case raw of
        None \<Rightarrow> (d, fail ''invalid_json'' 400)
      | Some params \<Rightarrow>
          if \<not> is_object params then (d, fail ''invalid_json'' 400)
          else if \<not> callbackBodySchema params then (d, fail ''validation_error'' 400)
          else case verifySupermediaSignature hmac num secret appid (now div 1000)
                      CALLBACK_TIMESTAMP_TOLERANCE_SECONDS params of
            Some f \<Rightarrow> (d, fail (failure_code f) 401)
          | None \<Rightarrow>
              let payload = (case jget params ''payload'' of Some p \<Rightarrow> p | None \<Rightarrow> JNull);
                  kind = (if jget payload ''type'' = Some (JNum 2) then WeMedia else Media)
              in if jget params ''event'' = Some (JNum 1)
                 then (case number_of to_number (jget payload ''id'') of
                         None \<Rightarrow> (d, fail ''validation_error'' 400)
                       | Some r \<Rightarrow>
                           if of_int \<lfloor>r\<rfloor> = r then callback_resource kind \<lfloor>r\<rfloor> h now d
                           else (d, fail ''validation_error'' 400))
                 else callback_order (ident (text_field (jget payload ''sn''))) h now uuids d)"

section \<open>The resource listing and the agent's balance\<close>

definition entranceHostname :: "(utext \<Rightarrow> utext option) \<Rightarrow> json option \<Rightarrow> utext" where
  "entranceHostname hostname link =
     (case link of
        Some (JStr t) \<Rightarrow>
          if js_trim t = [] then []
          else (case hostname t of None \<Rightarrow> [] | Some h \<Rightarrow> if length h > 200 then [] else h)
      | _ \<Rightarrow> [])"

definition int_field :: "json option \<Rightarrow> int option" where
  "int_field f = (case f of Some (JNum r) \<Rightarrow> if of_int \<lfloor>r\<rfloor> = r then Some \<lfloor>r\<rfloor> else None | _ \<Rightarrow> None)"

definition list_item ::
  "(utext \<Rightarrow> utext option) \<Rightarrow> publish_order_kind \<Rightarrow> int \<Rightarrow> json \<Rightarrow> pool_item" where
  "list_item hostname kind i item =
     \<lparr>it_resourceId = i, it_name = text_field (jget item ''name''),
      it_domain = entranceHostname hostname (jget item ''entrance_link''),
      it_priceCents = case_option 0 id (priceToCents (jget item ''price'')),
      it_status = num_option (jget item ''status''),
      it_geoCount = (case jget item ''geo_platforms'' of Some (JArr xs) \<Rightarrow> int (length xs) | _ \<Rightarrow> 0),
      it_categoryCode =
        int_field (if kind = Media then jget item ''channel_type'' else jget item ''industry_category''),
      it_platform = int_field (jget item ''platform''),
      it_fansNumber = int_field (jget item ''fans_number'')\<rparr>"

fun list_items ::
  "(utext \<Rightarrow> utext option) \<Rightarrow> publish_order_kind \<Rightarrow> json list \<Rightarrow> pool_item list result" where
  "list_items hostname kind [] = Inr []"
| "list_items hostname kind (item # items) =
     (if item = JNull then fail ''internal_error'' 500
      else bind_result (list_items hostname kind items) (\<lambda>rest.
        Inr (case positive_int (jget item ''id'') of
               None \<Rightarrow> rest | Some i \<Rightarrow> list_item hostname kind i item # rest)))"

definition listResources ::
  "(utext \<Rightarrow> utext option) \<Rightarrow> publish_order_kind \<Rightarrow> http_outcome \<Rightarrow> pool_page upstream" where
  "listResources hostname kind h =
     bind_result (upstream_data h) (\<lambda>r.
       case r of
         CallFail s \<Rightarrow> Inr (CallFail s)
       | CallOk data \<Rightarrow>
           (case (Option.bind data (\<lambda>j. int_field (jget j ''total'')), Option.bind data (\<lambda>j. jget j ''items'')) of
              (Some n, Some (JArr items)) \<Rightarrow>
                if n < 0 then Inr (CallFail 502)
                else bind_result (list_items hostname kind items)
                       (\<lambda>xs. Inr (CallOk \<lparr>pg_total = n, pg_items = xs\<rparr>))
            | _ \<Rightarrow> Inr (CallFail 502)))"

definition fetchProfile :: "(utext \<Rightarrow> rat option) \<Rightarrow> http_outcome \<Rightarrow> int upstream" where
  "fetchProfile to_number h =
     bind_result (upstream_data h) (\<lambda>r.
       case r of
         CallFail s \<Rightarrow> Inr (CallFail s)
       | CallOk data \<Rightarrow>
           let money = Option.bind data (\<lambda>j. jget j ''money'');
               raw = (if money = None \<or> money = Some JNull then Option.bind data (\<lambda>j. jget j ''balance'') else money);
               yuan = (case raw of Some (JNum x) \<Rightarrow> Some x
                       | Some (JStr t) \<Rightarrow> if js_trim t = [] then None else to_number t | _ \<Rightarrow> None)
           in case yuan of None \<Rightarrow> Inr (CallFail 502) | Some y \<Rightarrow> Inr (CallOk (math_round (y * 100))))"

section \<open>Properties of the signatures\<close>

lemma filter_same_key:
  "distinct (map fst zs) \<Longrightarrow> z \<in> set zs \<Longrightarrow> filter (\<lambda>x. fst z = fst x) zs = [z]"
proof (induction zs)
  case (Cons y zs)
  show ?case
  proof (cases "y = z")
    case True
    with Cons.prems(1) have "filter (\<lambda>x. fst z = fst x) zs = []"
      by (auto simp: filter_empty_conv image_iff)
    with True show ?thesis by simp
  next
    case False
    with Cons show ?thesis by (auto simp: image_iff)
  qed
qed simp

lemma sort_by_key_mset:
  assumes "mset xs = mset ys" and "distinct (map fst xs)"
  shows "sort_key fst xs = sort_key fst (ys :: ('k :: linorder \<times> 'v) list)"
proof (rule properties_for_sort_key)
  have ys: "distinct (map fst ys)" using assms by (metis mset_eq_imp_distinct_iff mset_map)
  then have sorted: "distinct (map fst (sort_key fst ys))"
    by (metis mset_eq_imp_distinct_iff mset_map mset_sort)
  show "mset (sort_key fst ys) = mset xs" using assms(1) by simp
  show "sorted (map fst (sort_key fst ys))" by simp
  fix z
  assume "z \<in> set (sort_key fst ys)"
  then have "z \<in> set ys" by simp
  with mset_eq_setD [OF assms(1)] have z: "z \<in> set xs" by simp
  from \<open>z \<in> set (sort_key fst ys)\<close> show
    "filter (\<lambda>x. fst z = fst x) (sort_key fst ys) = filter (\<lambda>x. fst z = fst x) xs"
    unfolding filter_same_key [OF assms(2) z] by (rule filter_same_key [OF sorted])
qed

text \<open>The flattened text does not depend on the order of the fields, nor on the signature.\<close>

lemma flatten_perm:
  assumes "mset fs = mset (gs :: (string \<times> json) list)" and "distinct (map fst fs)"
  shows "flattenSupermediaParamsDeep num (JObj fs) = flattenSupermediaParamsDeep num (JObj gs)"
proof -
  let ?row = "\<lambda>(k, v). (k, ascii k @ 61 # flattenSupermediaParamsDeep num v)"
  let ?part = "\<lambda>xs. filter (\<lambda>kv. fst kv \<noteq> ''signature'') (map ?row xs)"
  have "mset (?part fs) = mset (?part gs)" using assms(1) by (simp add: mset_filter)
  moreover have "map fst (map ?row fs) = map fst fs" by (simp add: comp_def split_beta)
  then have "distinct (map fst (map ?row fs))" using assms(2) by (simp only:)
  then have "distinct (map fst (?part fs))" by (rule distinct_map_filter)
  ultimately have "sort_key fst (?part fs) = sort_key fst (?part gs)" by (rule sort_by_key_mset)
  then show ?thesis by simp
qed

lemma flatten_signature:
  "flattenSupermediaParamsDeep num (JObj (fs @ [(''signature'', v)])) = flattenSupermediaParamsDeep num (JObj fs)"
  by simp

lemma jget_perm:
  assumes "mset body = mset fs" and "distinct (map fst fs)"
  shows "jget (JObj body) k = map_of fs k"
proof -
  have "mset (rev body) = mset fs" using assms(1) by simp
  then have "set (rev body) = set fs" "distinct (map fst (rev body))"
    using assms by (metis mset_eq_setD, metis mset_eq_imp_distinct_iff mset_map)
  then have "map_of (rev body) k = Some v \<longleftrightarrow> map_of fs k = Some v" for v
    using assms(2) by (metis map_of_eq_Some_iff)
  then have "map_of (rev body) k = map_of fs k" by (metis not_None_eq)
  then show ?thesis by (simp add: jget_def)
qed

text \<open>What is documented of the digest: 64 lower case hexadecimal digits.\<close>

definition hex_digest :: "utext \<Rightarrow> bool" where
  "hex_digest t \<longleftrightarrow> length t = 64 \<and> list_all (\<lambda>c. digit_char c \<or> 97 \<le> c \<and> c \<le> 102) t"

lemma hex_digest_text:
  "hex_digest t \<Longrightarrow> length t = 64 \<and> list_all hex_digit t \<and> map hex_lower t = t"
  by (auto simp: hex_digest_def hex_digit_def hex_lower_def digit_char_def list_all_iff intro!: map_idI)

text \<open>
  C31: a callback that was signed as documented is accepted, whatever the order of its fields on the
  wire, as long as the clock is within the tolerance of its time stamp; outside of it the same
  callback is refused as stale.
\<close>

theorem signature_roundtrip:
  assumes keys: "distinct (map fst fs)" "''signature'' \<notin> fst ` set fs"
    and app: "map_of fs ''appid'' = Some (JStr appid)"
    and alg: "map_of fs ''algorithm'' = None \<or> map_of fs ''algorithm'' = Some (JStr (ascii ''sha256''))"
    and time: "map_of fs ''timestamp'' = Some (JNum (of_int t))"
    and digest: "\<And>m. hex_digest (hmac secret m)"
    and wire: "mset body = mset (fs @ [(''signature'', JStr (hmac secret (flattenSupermediaParamsDeep num (JObj fs))))])"
  shows "verifySupermediaSignature hmac num secret appid now tolerance (JObj body) =
    (if \<bar>now - t\<bar> \<le> tolerance then None else Some StaleTimestamp)"
proof -
  let ?sig = "hmac secret (flattenSupermediaParamsDeep num (JObj fs))"
  let ?all = "fs @ [(''signature'', JStr ?sig)]"
  have dist: "distinct (map fst ?all)" using keys by auto
  note get = jget_perm [OF wire dist]
  have "map_of fs ''signature'' = None" using keys(2) by (simp add: map_of_eq_None_iff)
  then have fields: "jget (JObj body) ''appid'' = Some (JStr appid)"
    "jget (JObj body) ''timestamp'' = Some (JNum (of_int t))"
    "jget (JObj body) ''signature'' = Some (JStr ?sig)"
    "jget (JObj body) ''algorithm'' = None \<or> jget (JObj body) ''algorithm'' = Some (JStr (ascii ''sha256''))"
    using app time alg unfolding get by (auto simp: map_add_def)
  have "distinct (map fst body)" using wire dist by (metis mset_eq_imp_distinct_iff mset_map)
  then have flat: "flattenSupermediaParamsDeep num (JObj body) = flattenSupermediaParamsDeep num (JObj fs)"
    using flatten_perm [OF wire] flatten_signature [of num fs "JStr ?sig"] by simp
  from fields flat hex_digest_text [OF digest, of "flattenSupermediaParamsDeep num (JObj fs)"] show ?thesis
    unfolding verifySupermediaSignature_def by (auto simp: text_field_def timestamp_of_def Let_def)
qed

theorem signature_roundtrip_witness:
  "verifySupermediaSignature (\<lambda>s m. replicate 64 97) (\<lambda>r. []) [1] (ascii ''app'') 1100 300
     (JObj [(''signature'', JStr (replicate 64 97)), (''timestamp'', JNum 1000), (''appid'', JStr (ascii ''app''))]) = None"
proof -
  let ?fs = "[(''appid'', JStr (ascii ''app'')), (''timestamp'', JNum (of_int 1000))]"
  have "hex_digest (replicate 64 97)" by (simp add: hex_digest_def list_all_iff)
  then show ?thesis
    using signature_roundtrip [of ?fs "ascii ''app''" 1000 "\<lambda>s m. replicate 64 97" "[1]"
        "[(''signature'', JStr (replicate 64 97)), (''timestamp'', JNum 1000), (''appid'', JStr (ascii ''app''))]"
        "\<lambda>r. []" 1100 300]
    by simp
qed

end
