(* ===== verification/System.thy ===== *)
theory System
  imports ChatUsage Preference Signing
begin

text \<open>
  The running gateway. The service is one JavaScript process: a handler runs without interruption
  from one \<open>await\<close> to the next, so the requests interleave at the granularity of the segments of the
  other theories. The state is the database and the handlers of order requests that wait for the
  upstream. A crash loses every waiting handler and keeps the database.
\<close>

section \<open>Invariants of transition systems\<close>

locale invariant_system =
  fixes step :: "'s \<Rightarrow> 's \<Rightarrow> bool" and inv :: "'s \<Rightarrow> bool"
  assumes step_inv: "inv s \<Longrightarrow> step s t \<Longrightarrow> inv t"
begin

lemma always: "step\<^sup>*\<^sup>* s t \<Longrightarrow> inv s \<Longrightarrow> inv t"
  by (induction rule: rtranclp_induct) (auto intro: step_inv)

end

section \<open>The system\<close>

type_synonym order_task = "string \<times> place_order_input \<times> order_wait"

record gateway =
  gw_db :: db
  gw_tasks :: "order_task list"

text \<open>What the process is started with: the configuration and the functions of other packages.\<close>

record gateway_env =
  env_cfg :: backend_config
  env_url :: "string \<Rightarrow> bool"
  env_verify :: "utext \<Rightarrow> string \<Rightarrow> bool"
  env_hash :: "string \<Rightarrow> string"
  env_parse :: "utext \<Rightarrow> json option"
  env_hmac :: "utext \<Rightarrow> utext \<Rightarrow> utext"
  env_print :: "rat \<Rightarrow> utext"
  env_number :: "utext \<Rightarrow> rat option"
  env_appid :: utext
  env_secret :: utext

text \<open>Requests whose only segment that touches the database is the last one.\<close>

inductive request_step :: "gateway_env \<Rightarrow> db \<Rightarrow> db \<Rightarrow> bool" for e where
  permits: "post_permits (env_cfg e) a b now d = (d', r) \<Longrightarrow> request_step e d d'"
| report: "post_report a pid unit outcome now uuid d = (d', r) \<Longrightarrow> request_step e d d'"
| close: "closePermit a pid now d = (d', r) \<Longrightarrow> request_step e d d'"
| query: "query_answered a kind h now uuids uuid d = (d', rq) \<Longrightarrow> request_step e d d'"
| action: "action_answered action a kind h now uuid d = (d', rq) \<Longrightarrow> request_step e d d'"
| callback: "callback_handler (env_hmac e) (env_print e) (env_number e) (env_appid e) (env_secret e)
    raw h now uuids d = (d', rc) \<Longrightarrow> request_step e d d'"
| login: "post_login (env_verify e) (env_hash e) (env_cfg e) phone pw new now d = (d', rl) \<Longrightarrow> request_step e d d'"
| refresh: "post_refresh (env_hash e) (env_cfg e) raw_token j w now d = (d', rr) \<Longrightarrow> request_step e d d'"
| password: "post_change_password (env_verify e) (env_hash e) (env_cfg e) account pw pw' pwHash new now d = (d', rl) \<Longrightarrow>
    request_step e d d'"
| logout: "post_logout (env_hash e) account raw_token now d = (d', ru) \<Longrightarrow> request_step e d d'"
| create: "post_accounts (env_cfg e) i phone pw pwHash uuid now d = (d', ra) \<Longrightarrow> request_step e d d'"
| topup: "post_topup a points note_text now uuid d = (d', ra) \<Longrightarrow> request_step e d d'"
| adjust: "post_adjust a delta note_adjust now uuid d = (d', ra) \<Longrightarrow> request_step e d d'"
| status: "setAccountStatus a st now d = (d', ra) \<Longrightarrow> request_step e d d'"
| admin_note: "setAccountNote a note_adjust now d = (d', ru) \<Longrightarrow> request_step e d d'"
| reset: "adminResetAccountPassword a pwHash now d = (d', ru) \<Longrightarrow> request_step e d d'"
| messages: "messages_answered (env_parse e) (env_cfg e) a body uuid now d = (d', t) \<Longrightarrow> request_step e d d'"
| stream: "stream_closed (env_parse e) (env_cfg e) a parts uuid now d = (d', ru) \<Longrightarrow> request_step e d d'"
| pool: "refreshDistributionPoolSnapshot fetchPage maxPages fetchedAt d = (d', rp) \<Longrightarrow> request_step e d d'"
| add_preference: "addPreferenceChannel c name domain exact uuid now d = (d', rpc) \<Longrightarrow> request_step e d d'"
| pick: "post_pick c refs uuids now d = (d', ri) \<Longrightarrow> request_step e d d'"
| recategorise: "updatePreferenceChannelCategory uuid c now d = (d', ru) \<Longrightarrow> request_step e d d'"
| drop_preference: "deletePreferenceChannel uuid d = (d', ru) \<Longrightarrow> request_step e d d'"

text \<open>The next segment of a waiting order handler, with the answer it waited for.\<close>

definition order_resume ::
  "order_task \<Rightarrow> http_outcome \<Rightarrow> instant \<Rightarrow> string \<Rightarrow> string \<Rightarrow> db \<Rightarrow> db \<times> order_next" where
  "order_resume task h now uuid uuid' d =
     (case task of (a, b, w) \<Rightarrow>
        (case w of
           WaitResource \<Rightarrow> order_resource a b h now d
         | WaitPlace created \<Rightarrow> order_placed a b created h now uuid d
         | WaitReconcile created s \<Rightarrow> order_reconciled a b created s h now uuid uuid' d))"

definition next_tasks :: "string \<Rightarrow> place_order_input \<Rightarrow> order_next \<Rightarrow> order_task list" where
  "next_tasks a b n = (case n of Done r \<Rightarrow> [] | Await w \<Rightarrow> [(a, b, w)])"

inductive gateway_step :: "gateway_env \<Rightarrow> gateway \<Rightarrow> gateway \<Rightarrow> bool" for e where
  request: "request_step e (gw_db g) d' \<Longrightarrow> gateway_step e g (g\<lparr>gw_db := d'\<rparr>)"
| order: "order_start (env_url e) a b now (gw_db g) = (d', n) \<Longrightarrow>
    gateway_step e g \<lparr>gw_db = d', gw_tasks = gw_tasks g @ next_tasks a b n\<rparr>"
| resume: "gw_tasks g = us @ (a, b, w) # vs \<Longrightarrow> order_resume (a, b, w) h now uuid uuid' (gw_db g) = (d', n) \<Longrightarrow>
    gateway_step e g \<lparr>gw_db = d', gw_tasks = us @ next_tasks a b n @ vs\<rparr>"
| crash: "gateway_step e g (g\<lparr>gw_tasks := []\<rparr>)"

inductive_cases request_stepE: "request_step e d d'"
inductive_cases gateway_stepE: "gateway_step e g g'"

definition gateway_started :: gateway where
  "gateway_started = \<lparr>gw_db = empty_db, gw_tasks = []\<rparr>"

section \<open>What the requests leave alone\<close>

definition same_login :: "db \<Rightarrow> db \<Rightarrow> bool" where
  "same_login d d' \<longleftrightarrow>
     auth_sessions d' = auth_sessions d \<and> refresh_tokens d' = refresh_tokens d \<and>
     map ac_id (accounts d') = map ac_id (accounts d) \<and> map ac_phone (accounts d') = map ac_phone (accounts d)"

lemma same_login_refl [simp, intro]: "same_login d d"
  by (simp add: same_login_def)

lemma same_login_trans: "same_login d d1 \<Longrightarrow> same_login d1 d2 \<Longrightarrow> same_login d d2"
  by (simp add: same_login_def)

lemma same_login_posted [simp]: "same_login d (posted a delta k n now u d')  = same_login d d'"
proof -
  have "map ac_id (accounts (posted a delta k n now u d')) = map ac_id (accounts d')"
    "map ac_phone (accounts (posted a delta k n now u d')) = map ac_phone (accounts d')"
    by (simp_all add: posted_def update_rows_def row_update_defs)
  then show ?thesis by (simp add: same_login_def)
qed

lemma same_login_tables [simp]:
  "same_login d (update_order sn u d') = same_login d d'"
  "same_login d (d'\<lparr>publish_orders := os\<rparr>) = same_login d d'"
  "same_login d (d'\<lparr>billing_permits := ps\<rparr>) = same_login d d'"
  "same_login d (d'\<lparr>permit_unit_reports := rs\<rparr>) = same_login d d'"
  "same_login d (d'\<lparr>distribution_resource_cache := cs\<rparr>) = same_login d d'"
  "same_login d (d'\<lparr>distribution_pool_snapshot := ss\<rparr>) = same_login d d'"
  "same_login d (d'\<lparr>provider_usage_records := us\<rparr>) = same_login d d'"
  by (simp_all add: same_login_def update_order_def)

lemma same_login_service:
  assumes "service_inv d" "gateway_inv d'" "same_login d d'"
  shows "service_inv d'"
proof -
  have "ac_id ` set (accounts d') = ac_id ` set (accounts d)"
    using assms(3) by (metis same_login_def list.set_map)
  with assms show ?thesis
    by (auto simp: service_inv_def phones_ok_def same_login_def intro: sessions_ok_frame)
qed

text \<open>The billing operations touch neither orders nor cached prices.\<close>

definition billing_frame :: "db \<Rightarrow> db \<Rightarrow> bool" where
  "billing_frame d d' \<longleftrightarrow>
     same_login d d' \<and> publish_orders d' = publish_orders d \<and>
     distribution_resource_cache d' = distribution_resource_cache d"

lemma billing_frame_gateway:
  assumes "gateway_inv d" "billing_inv d'" "billing_frame d d'"
  shows "gateway_inv d'" and "placements d' = placements d"
proof -
  have "ac_id ` set (accounts d') = ac_id ` set (accounts d)"
    using assms(3) by (metis billing_frame_def same_login_def list.set_map)
  then show "gateway_inv d'"
    using assms by (simp add: gateway_inv_def backend_inv_def billing_frame_def orders_ok_def cache_ok_def)
  show "placements d' = placements d"
    using assms(3) by (intro placements_cong) (simp add: billing_frame_def)
qed

lemma apply_permit_frame:
  assumes "apply_permit_body cfg a input now d = Inr (d', res)"
  shows "billing_frame d d'"
  using assms
  by (cases rule: apply_permit_body_Inr) (simp_all add: billing_frame_def reclaimStaleOpenPermits_def)

lemma report_unit_frame:
  assumes "report_unit_body a pid unit outcome now uuid d = Inr (d', proj)"
  shows "billing_frame d d'"
  using assms
  by (cases rule: report_unit_body_Inr)
    (simp_all add: billing_frame_def touch_open_permit_def fresh_report_def report_base_def)

lemma close_permit_frame:
  assumes "close_permit_body a pid now d = Inr (d', proj)"
  shows "billing_frame d d'"
proof -
  from assms have "d' = d \<or> d' = markPermitSettled pid now d"
    by (auto simp: close_permit_body_def bind_result_Inr_iff Let_def split: option.split_asm if_split_asm)
  then show ?thesis by (auto simp: billing_frame_def markPermitSettled_def)
qed

text \<open>The segments of the orders touch no account but its balance.\<close>

lemma begin_order_login:
  assumes "beginPublishOrder a input now d = (d', r)"
  shows "same_login d d'"
proof (rule transaction_inv [OF _ _ assms [unfolded beginPublishOrder_def]])
  fix d1 x
  assume run: "begin_order_body a input now d = Inr (d1, x)"
  obtain q phase where x: "x = (q, phase)" by fastforce
  from run [unfolded x] show "same_login d d1"
    by (cases rule: begin_order_body_Inr) simp_all
qed simp

lemma complete_order_login:
  assumes "completePublishOrder sn p now d = (d', r)"
  shows "same_login d d'"
  by (rule transaction_inv [OF _ _ assms [unfolded completePublishOrder_def]])
    (auto simp: complete_order_body_def bind_result_Inr_iff read_order_back_Inr)

lemma fail_order_login:
  assumes "failPublishOrder sn now d = (d', r)"
  shows "same_login d d'"
  by (rule transaction_inv [OF _ _ assms [unfolded failPublishOrder_def]])
    (auto simp: fail_order_body_def bind_result_Inr_iff read_order_back_Inr split: option.split_asm if_split_asm)

lemma status_login:
  assumes "applyPublishOrderStatus s now uuid d = (d', r)"
  shows "same_login d d'"
proof (rule transaction_inv [OF _ _ assms [unfolded applyPublishOrderStatus_def]])
  fix d1 x
  assume "apply_status_body s now uuid d = Inr (d1, x)"
  then show "same_login d d1"
  proof (cases rule: apply_status_body_Inr)
    case (known q d2 ledger)
    from known(2) have "same_login d d2" by (cases rule: order_ledger_step_Inr) simp_all
    then show ?thesis by (simp add: known(3))
  qed simp
qed simp

lemma statuses_login: "apply_statuses xs now d = (d', r) \<Longrightarrow> same_login d d'"
proof (induction xs now d arbitrary: d' r rule: apply_statuses.induct)
  case (2 s uuid rest now d)
  obtain d1 r1 where one: "applyPublishOrderStatus s now uuid d = (d1, r1)" by fastforce
  note login = status_login [OF one]
  show ?case
  proof (cases r1)
    case (Inl e)
    with "2.prems" one login show ?thesis by simp
  next
    case (Inr x)
    obtain d2 r2 where two: "apply_statuses rest now d1 = (d2, r2)" by fastforce
    have "d' = d2" using "2.prems" one Inr two by (cases r2) auto
    with same_login_trans [OF login "2.IH" [OF one [symmetric] Inr two]] show ?thesis by simp
  qed
qed simp

lemma usage_login: "recordProviderUsage a p r it ot now uuid d = Inr d' \<Longrightarrow> same_login d d'"
  by (auto simp: recordProviderUsage_def bind_result_Inr_iff split: if_split_asm)

section \<open>Single segment requests keep the books\<close>

text \<open>A quiet segment keeps the invariant and the placement of every order.\<close>

definition quiet :: "db \<Rightarrow> db \<Rightarrow> bool" where
  "quiet d d' \<longleftrightarrow> (service_inv d \<longrightarrow> service_inv d' \<and> placements d' = placements d)"

lemma quiet_refl [simp, intro]: "quiet d d"
  by (simp add: quiet_def)

lemma quiet_trans: "quiet d d1 \<Longrightarrow> quiet d1 d2 \<Longrightarrow> quiet d d2"
  by (auto simp: quiet_def)

lemma quiet_transaction:
  assumes "transaction body d = (d', r)" and "\<And>d1 x. body d = Inr (d1, x) \<Longrightarrow> quiet d d1"
  shows "quiet d d'"
  by (rule transaction_inv [OF _ _ assms(1)]) (auto intro: assms(2))

lemma quiet_billing:
  assumes "billing_inv d \<Longrightarrow> billing_inv d'" "billing_frame d d'"
  shows "quiet d d'"
proof -
  have "service_inv d' \<and> placements d' = placements d" if inv: "service_inv d"
  proof -
    have g: "gateway_inv d" using inv by (simp add: service_inv_def)
    then have "billing_inv d'" using assms(1) by (simp add: gateway_inv_def backend_inv_def)
    from billing_frame_gateway [OF g this assms(2)] show ?thesis
      using assms(2) same_login_service [OF inv] by (simp add: billing_frame_def)
  qed
  then show ?thesis by (simp add: quiet_def)
qed

lemma quiet_login:
  assumes "gateway_inv d \<Longrightarrow> gateway_inv d' \<and> placements d' = placements d" "same_login d d'"
  shows "quiet d d'"
  using assms same_login_service [of d d'] by (auto simp: quiet_def service_inv_def)

lemma quiet_permits: "post_permits cfg a b now d = (d', r) \<Longrightarrow> quiet d d'"
  by (auto simp: post_permits_def applyForPermit_def applyPermitSchema_def split: if_split_asm
      intro!: quiet_billing elim!: quiet_transaction dest: apply_permit_frame billing_inv_apply)

lemma quiet_report: "post_report a pid unit outcome now uuid d = (d', r) \<Longrightarrow> quiet d d'"
  by (auto simp: post_report_def reportPermitUnit_def split: if_split_asm
      intro!: quiet_billing elim!: quiet_transaction dest: report_unit_frame billing_inv_report)

lemma quiet_close: "closePermit a pid now d = (d', r) \<Longrightarrow> quiet d d'"
  unfolding closePermit_def
  by (auto intro!: quiet_billing elim!: quiet_transaction dest: close_permit_frame billing_inv_close)

lemma quiet_query:
  assumes "query_answered a kind h now uuids uuid d = (d', r)"
  shows "quiet d d'"
proof (rule quiet_login)
  show "gateway_inv d \<Longrightarrow> gateway_inv d' \<and> placements d' = placements d"
    using query_answered_segment [OF _ assms] by simp
  show "same_login d d'"
    using assms
    by (auto simp: query_answered_def split: sum.split_asm call_result.split_asm prod.split_asm
        dest!: statuses_login usage_login intro: same_login_trans)
qed

lemma quiet_action:
  assumes "action_answered action a kind h now uuid d = (d', r)"
  shows "quiet d d'"
proof (rule quiet_login)
  show "gateway_inv d \<Longrightarrow> gateway_inv d' \<and> placements d' = placements d"
    using action_answered_segment [OF _ assms] by simp
  show "same_login d d'"
    using assms
    by (auto simp: action_answered_def split: sum.split_asm call_result.split_asm dest!: usage_login)
qed

lemma quiet_callback_order:
  assumes "callback_order sn h now uuids d = (d', r)"
  shows "quiet d d'"
proof (rule quiet_login)
  show "gateway_inv d \<Longrightarrow> gateway_inv d' \<and> placements d' = placements d"
    using callback_order_segment [OF _ assms] by simp
  show "same_login d d'"
    using assms
    by (auto simp: callback_order_def split: if_split_asm sum.split_asm call_result.split_asm prod.split_asm
        dest!: statuses_login)
qed

lemma quiet_callback_resource:
  assumes "callback_resource kind i h now d = (d', r)"
  shows "quiet d d'"
proof (rule quiet_login)
  show "gateway_inv d \<Longrightarrow> gateway_inv d' \<and> placements d' = placements d"
    using callback_resource_segment [OF _ assms] by simp
  have "same_login d (fst (invalidateDistributionResourceCache kind i d))"
    "same_login d (upsertDistributionResourceCache row d)" for row
    by (simp_all add: invalidateDistributionResourceCache_def upsertDistributionResourceCache_def)
  moreover have "same_login d (applyPoolSnapshotRefUpdate kind j u d1) = same_login d d1" for j u d1
    by (simp add: applyPoolSnapshotRefUpdate_def split: option.split)
  ultimately show "same_login d d'"
    using assms
    by (auto simp: callback_resource_def split: if_split_asm sum.split_asm call_result.split_asm option.split_asm)
qed

lemma quiet_callback: "callback_handler hmac num to_number appid secret raw h now uuids d = (d', r) \<Longrightarrow> quiet d d'"
  by (auto simp: callback_handler_def Let_def split: option.split_asm if_split_asm
      dest: quiet_callback_order quiet_callback_resource)

text \<open>Accounts, sessions and metering never touch an order.\<close>

lemma quiet_orders:
  assumes "service_inv d \<Longrightarrow> service_inv d' \<and> publish_orders d' = publish_orders d"
  shows "quiet d d'"
  using assms placements_cong [of d' d] by (auto simp: quiet_def)

lemma quiet_start:
  assumes run: "startSession hash cfg a new now d = (d', r)"
  shows "quiet d d'"
proof (rule quiet_orders)
  have "publish_orders d' = publish_orders d"
    using run
    by (cases r) (auto simp: startSession_Inr start_session_body_Inr session_opened_def dest: startSession_Inl)
  with service_inv_start [OF _ run] show "service_inv d \<Longrightarrow> service_inv d' \<and> publish_orders d' = publish_orders d"
    by simp
qed

lemma quiet_rotate:
  assumes run: "rotateRefreshToken hash cfg raw j w now d = (d', r)"
  shows "quiet d d'"
proof (rule quiet_orders)
  assume inv: "service_inv d"
  then have ok: "sessions_ok d" by (simp add: service_inv_def)
  have "publish_orders d' = publish_orders d"
    by (cases rule: rotate_cases [OF ok run, case_names same reuse rotated])
      (simp_all add: revokeSession_ids revoke_ids_def rotate_body_Inr rotated_def)
  with service_inv_rotate [OF inv run] show "service_inv d' \<and> publish_orders d' = publish_orders d" by simp
qed

lemma revoke_account_orders [simp]: "publish_orders (revokeAccountSessions a reason now d) = publish_orders d"
  by (simp add: revokeAccountSessions_def)

lemma update_account_orders [simp]: "publish_orders (update_account i u d) = publish_orders d"
  by (simp add: update_account_def)

lemmas account_updates =
  status_update.service_inv_update note_update.service_inv_update password_update.service_inv_update
  service_inv_revoke_account

lemma quiet_login_route: "post_login verify hash cfg phone pw new now d = (d', r) \<Longrightarrow> quiet d d'"
  by (auto simp: post_login_def login_def split: if_split_asm option.split_asm prod.split_asm sum.split_asm
      dest: quiet_start)

lemma quiet_refresh: "post_refresh hash cfg raw j w now d = (d', r) \<Longrightarrow> quiet d d'"
  by (auto simp: post_refresh_def split: if_split_asm prod.split_asm sum.split_asm dest: quiet_rotate)

lemma quiet_logout: "post_logout hash account raw now d = (d', r) \<Longrightarrow> quiet d d'"
proof -
  have "quiet d (revokeSession sid ''logout'' now d)" for sid
    by (rule quiet_orders) (simp add: service_inv_revoke revokeSession_ids, simp add: revoke_ids_def)
  then show "post_logout hash account raw now d = (d', r) \<Longrightarrow> quiet d d'"
    by (auto simp: post_logout_def split: if_split_asm option.split_asm)
qed

lemma quiet_change_password:
  assumes "post_change_password verify hash cfg account pw pw' pwHash new now d = (d', r)"
  shows "quiet d d'"
proof -
  let ?d = "revokeAccountSessions (ac_id account) ''password_changed'' now
    (update_account (ac_id account) (set_password_row pwHash False now) d)"
  have first: "quiet d ?d" by (rule quiet_orders) (simp add: account_updates)
  have "d' = d \<or> d' = ?d \<or> (\<exists>r'. startSession hash cfg (ac_id account) new now ?d = (d', r'))"
    using assms
    by (auto simp: post_change_password_def changeAccountPassword_def Let_def
        split: if_split_asm option.split_asm prod.split_asm sum.split_asm)
  with first quiet_start show ?thesis by (blast intro: quiet_trans)
qed

lemma quiet_status: "setAccountStatus a st now d = (d', r) \<Longrightarrow> quiet d d'"
  by (auto simp: setAccountStatus_def Let_def account_updates split: option.split_asm if_split_asm
      intro!: quiet_orders)

lemma quiet_note: "setAccountNote a t now d = (d', r) \<Longrightarrow> quiet d d'"
  by (auto simp: setAccountNote_def Let_def account_updates split: option.split_asm intro!: quiet_orders)

lemma quiet_reset: "adminResetAccountPassword a pwHash now d = (d', r) \<Longrightarrow> quiet d d'"
  by (auto simp: adminResetAccountPassword_def Let_def account_updates split: option.split_asm
      intro!: quiet_orders)

lemma delta_orders:
  assumes "apply_delta_body i delta kind t now uuid d = Inr (d', x)"
  shows "publish_orders d' = publish_orders d"
  using assms by (elim apply_delta_body_Inr) (simp add: clear_quota_of_def)

lemma quiet_delta:
  assumes "\<not> is_spend kind" "applyAccountLedgerDelta i delta kind t now uuid d = (d', r)"
  shows "quiet d d'"
  using assms(2) unfolding applyAccountLedgerDelta_def
  by (rule quiet_transaction) (auto intro!: quiet_orders dest: delta_orders service_inv_delta [OF _ assms(1)])

lemma quiet_create: "post_accounts cfg i phone pw pwHash uuid now d = (d', r) \<Longrightarrow> quiet d d'"
proof -
  assume run: "post_accounts cfg i phone pw pwHash uuid now d = (d', r)"
  have body: "quiet d d1" if "create_account_body cfg i phone pwHash uuid now d = Inr (d1, x)" for d1 x
    using service_inv_create [OF _ that] delta_orders [OF create_account_body_Inr(3) [OF that]]
    by (intro quiet_orders) simp
  from run have "d' = d \<or> (\<exists>r'. transaction (create_account_body cfg i phone pwHash uuid now) d = (d', r'))"
    by (auto simp: post_accounts_def createAccountWithGrant_def split: if_split_asm prod.split_asm sum.split_asm)
  then show "quiet d d'" by (auto elim!: quiet_transaction intro: body)
qed

lemma quiet_topup: "post_topup a points t now uuid d = (d', r) \<Longrightarrow> quiet d d'"
  by (auto simp: post_topup_def is_spend_def split: if_split_asm intro: quiet_delta)

lemma quiet_adjust: "post_adjust a delta t now uuid d = (d', r) \<Longrightarrow> quiet d d'"
  by (auto simp: post_adjust_def is_spend_def split: if_split_asm intro: quiet_delta)

lemma quiet_chat:
  assumes "recordChatUsage cfg i model u uuid now d = (d', r)"
  shows "quiet d d'"
proof (rule quiet_orders)
  have "publish_orders d' = publish_orders d"
    by (rule transaction_inv [OF _ _ assms [unfolded recordChatUsage_def]]) (auto simp: record_chat_body_Inr)
  with service_inv_chat [OF _ assms] show "service_inv d \<Longrightarrow> service_inv d' \<and> publish_orders d' = publish_orders d"
    by simp
qed

lemma quiet_metered: "record_metered cfg a metered uuid now d = (d', r) \<Longrightarrow> quiet d d'"
  by (auto simp: record_metered_def split: option.split_asm prod.split_asm sum.split_asm dest: quiet_chat)

lemma quiet_messages: "messages_answered parse cfg a body uuid now d = (d', t) \<Longrightarrow> quiet d d'"
  by (auto simp: messages_answered_def split: option.split_asm intro: quiet_metered [OF prod.collapse [symmetric]])

lemma quiet_stream: "stream_closed parse cfg a parts uuid now d = (d', r) \<Longrightarrow> quiet d d'"
  unfolding stream_closed_def by (rule quiet_metered)

text \<open>The pool and the preference list are tables of their own.\<close>

lemma quiet_side_tables:
  assumes "accounts d' = accounts d" "ledger_entries d' = ledger_entries d" "billing_permits d' = billing_permits d"
    "permit_unit_reports d' = permit_unit_reports d" "publish_orders d' = publish_orders d"
    "distribution_resource_cache d' = distribution_resource_cache d" "auth_sessions d' = auth_sessions d"
    "refresh_tokens d' = refresh_tokens d"
  shows "quiet d d'"
proof (rule quiet_orders)
  have "gateway_inv d' = gateway_inv d"
    using backend_inv_cong [OF assms(1-5)] assms(6) by (simp add: gateway_inv_def cache_ok_def)
  then show "service_inv d \<Longrightarrow> service_inv d' \<and> publish_orders d' = publish_orders d"
    using assms by (auto simp: service_inv_def phones_ok_def sessions_ok_def)
qed

lemma quiet_replace: "transaction (replacePoolSnapshot kind items t) d = (d', r) \<Longrightarrow> quiet d d'"
  by (auto simp: replacePoolSnapshot_def bind_result_Inr_iff elim!: quiet_transaction intro!: quiet_side_tables)

lemma quiet_pool: "refreshDistributionPoolSnapshot fetchPage maxPages t d = (d', r) \<Longrightarrow> quiet d d'"
  by (auto simp: refreshDistributionPoolSnapshot_def split: sum.split_asm prod.split_asm
      dest!: quiet_replace intro: quiet_trans)

lemma quiet_preference: "quiet d (d\<lparr>preference_channels := rows\<rparr>)"
  by (rule quiet_side_tables) simp_all

lemma quiet_add_preference: "addPreferenceChannel c name domain exact uuid now d = (d', r) \<Longrightarrow> quiet d d'"
  by (auto simp: addPreferenceChannel_def Let_def insert_preference_Inr quiet_preference
      split: if_split_asm sum.split_asm)

lemma insert_bindings_quiet: "insert_bindings c picks now d = Inr (d', n) \<Longrightarrow> quiet d d'"
proof (induction picks arbitrary: d n)
  case (Cons pu picks)
  then show ?case
    by (cases pu) (auto simp: bind_result_Inr_iff insert_preference_Inr split: if_split_asm
        intro: quiet_trans [OF quiet_preference])
qed simp

lemma quiet_pick: "post_pick c refs uuids now d = (d', r) \<Longrightarrow> quiet d d'"
  by (auto simp: post_pick_def addPreferenceChannelBindings_def split: if_split_asm sum.split_asm
      elim!: quiet_transaction intro: insert_bindings_quiet)

lemma quiet_recategorise: "updatePreferenceChannelCategory i c now d = (d', r) \<Longrightarrow> quiet d d'"
  by (auto simp: updatePreferenceChannelCategory_def quiet_preference split: if_split_asm)

lemma quiet_delete: "deletePreferenceChannel i d = (d', r) \<Longrightarrow> quiet d d'"
  by (auto simp: deletePreferenceChannel_def quiet_preference split: if_split_asm)

lemma request_step_quiet: "request_step e d d' \<Longrightarrow> quiet d d'"
  by (induction rule: request_step.induct)
    (auto dest: quiet_permits quiet_report quiet_close quiet_query quiet_action quiet_callback
      quiet_login_route quiet_refresh quiet_change_password quiet_logout quiet_create quiet_topup
      quiet_adjust quiet_status quiet_note quiet_reset quiet_messages quiet_stream
      quiet_pool quiet_add_preference quiet_pick quiet_recategorise quiet_delete)

section \<open>Order handlers keep the books and submit once\<close>

lemma reply_login:
  assumes "reply_with_usage a route now uuid reply d = (d', n)"
  shows "same_login d d'"
  using assms by (auto simp: reply_with_usage_def split: sum.split_asm dest: usage_login)

lemma order_priced_login: "order_priced a b cents now d = (d', n) \<Longrightarrow> same_login d d'"
  by (auto simp: order_priced_def split: prod.split_asm sum.split_asm if_split_asm dest: begin_order_login)

lemma order_start_login: "order_start valid_url a b now d = (d', n) \<Longrightarrow> same_login d d'"
  by (auto simp: order_start_def split: if_split_asm option.split_asm dest: order_priced_login)

lemma order_resource_login:
  assumes "order_resource a b h now d = (d', n)"
  shows "same_login d d'"
proof -
  have "same_login d (upsertDistributionResourceCache row d)" for row
    by (simp add: upsertDistributionResourceCache_def)
  then show ?thesis
    using assms
    by (auto simp: order_resource_def Let_def split: sum.split_asm call_result.split_asm option.split_asm
        dest!: order_priced_login intro: same_login_trans)
qed

lemma order_placed_login: "order_placed a b c h now uuid d = (d', n) \<Longrightarrow> same_login d d'"
  by (auto simp: order_placed_def split: sum.split_asm call_result.split_asm prod.split_asm
      dest!: complete_order_login reply_login intro: same_login_trans)

lemma order_reconciled_login: "order_reconciled a b c s h now uuid uuid' d = (d', n) \<Longrightarrow> same_login d d'"
  by (auto simp: order_reconciled_def
      split: sum.split_asm call_result.split_asm option.split_asm prod.split_asm
      dest!: complete_order_login fail_order_login status_login reply_login intro: same_login_trans)

text \<open>
  The handlers that have sent their order upstream, or are about to ask what became of it, and the
  invariant: no two of them work on the same order, and their orders are pending.
\<close>

definition submitting :: "order_task list \<Rightarrow> string list" where
  "submitting tasks = map (\<lambda>(a, b, w). oi_sn b) (filter (\<lambda>(a, b, w). w \<noteq> WaitResource) tasks)"

lemma submitting_simps [simp]:
  "submitting [] = []" "submitting (xs @ ys) = submitting xs @ submitting ys"
  "submitting ((a, b, w) # ts) = (if w = WaitResource then submitting ts else oi_sn b # submitting ts)"
  by (simp_all add: submitting_def)

definition gateway_ok :: "gateway \<Rightarrow> bool" where
  "gateway_ok g \<longleftrightarrow>
     service_inv (gw_db g) \<and> distinct (submitting (gw_tasks g)) \<and>
     set (submitting (gw_tasks g)) \<subseteq> {sn. placements (gw_db g) sn = Some Pending}"

text \<open>A pending order whose handler is gone.\<close>

definition order_stuck :: "string \<Rightarrow> gateway \<Rightarrow> bool" where
  "order_stuck sn g \<longleftrightarrow>
     gateway_ok g \<and> placements (gw_db g) sn = Some Pending \<and> sn \<notin> set (submitting (gw_tasks g))"

text \<open>
  What a segment of an order handler may do: start to submit an order that is not pending, go on
  with it, or end, and then only the placement of its own order may have changed.
\<close>

definition handler_effect :: "string \<Rightarrow> bool \<Rightarrow> db \<Rightarrow> db \<Rightarrow> order_next \<Rightarrow> bool" where
  "handler_effect sn busy d d' n \<longleftrightarrow>
     (case n of
        Done r \<Rightarrow> placements d' = placements d \<or> busy \<and> (\<exists>p. placements d' = (placements d)(sn \<mapsto> p))
      | Await WaitResource \<Rightarrow> \<not> busy \<and> placements d' = placements d
      | Await w \<Rightarrow>
          (if busy then placements d' = placements d
           else placements d' = (placements d)(sn \<mapsto> Pending) \<and> placements d sn \<noteq> Some Pending))"

lemma order_start_effect:
  assumes inv: "service_inv d" and run: "order_start valid_url a b now d = (d', n)"
  shows "service_inv d'" and "handler_effect (oi_sn b) False d d' n"
proof -
  have g: "gateway_inv d" using inv by (simp add: service_inv_def)
  show "service_inv d'"
    by (rule same_login_service [OF inv order_start_segment(1) [OF g run] order_start_login [OF run]])
  show "handler_effect (oi_sn b) False d d' n"
    using order_start_segment(2) [OF g run] by (auto simp: handler_effect_def)
qed

lemma order_resume_effect:
  assumes inv: "service_inv d" and run: "order_resume (a, b, w) h now uuid uuid' d = (d', n)"
  shows "service_inv d'" and "handler_effect (oi_sn b) (w \<noteq> WaitResource) d d' n"
proof -
  have g: "gateway_inv d" using inv by (simp add: service_inv_def)
  have "gateway_inv d' \<and> same_login d d' \<and> handler_effect (oi_sn b) (w \<noteq> WaitResource) d d' n"
  proof (cases w)
    case WaitResource
    with run have "order_resource a b h now d = (d', n)" by (simp add: order_resume_def)
    with order_resource_segment [OF g this] order_resource_login [OF this] WaitResource show ?thesis
      by (auto simp: handler_effect_def)
  next
    case (WaitPlace c)
    with run have "order_placed a b c h now uuid d = (d', n)" by (simp add: order_resume_def)
    with order_placed_segment [OF g this] order_placed_login [OF this] WaitPlace show ?thesis
      by (auto simp: handler_effect_def)
  next
    case (WaitReconcile c s)
    with run have "order_reconciled a b c s h now uuid uuid' d = (d', n)" by (simp add: order_resume_def)
    with order_reconciled_segment [OF g this] order_reconciled_login [OF this] WaitReconcile show ?thesis
      by (auto simp: handler_effect_def)
  qed
  then show "service_inv d'" "handler_effect (oi_sn b) (w \<noteq> WaitResource) d d' n"
    using same_login_service [OF inv] by auto
qed

lemma handler_keeps:
  assumes "service_inv d'" and eff: "handler_effect (oi_sn b) (w \<noteq> WaitResource) d d' n"
    and "distinct (submitting (us @ (a, b, w) # vs))"
    and "set (submitting (us @ (a, b, w) # vs)) \<subseteq> {sn. placements d sn = Some Pending}"
  shows "gateway_ok \<lparr>gw_db = d', gw_tasks = us @ next_tasks a b n @ vs\<rparr>"
    and "placements d sn = Some Pending \<Longrightarrow> sn \<notin> set (submitting (us @ (a, b, w) # vs)) \<Longrightarrow>
      order_stuck sn \<lparr>gw_db = d', gw_tasks = us @ next_tasks a b n @ vs\<rparr>"
proof -
  show ok: "gateway_ok \<lparr>gw_db = d', gw_tasks = us @ next_tasks a b n @ vs\<rparr>"
    using assms
    by (auto simp: gateway_ok_def next_tasks_def handler_effect_def split: order_next.splits order_wait.splits
        if_split_asm)
  show "order_stuck sn \<lparr>gw_db = d', gw_tasks = us @ next_tasks a b n @ vs\<rparr>"
    if "placements d sn = Some Pending" "sn \<notin> set (submitting (us @ (a, b, w) # vs))"
    using ok that eff
    by (auto simp: order_stuck_def next_tasks_def handler_effect_def split: order_next.splits order_wait.splits
        if_split_asm)
qed

lemma gateway_step_keeps:
  assumes ok: "gateway_ok g" and step: "gateway_step e g g'"
  shows "gateway_ok g'" and "order_stuck sn g \<Longrightarrow> order_stuck sn g'"
proof -
  have inv: "service_inv (gw_db g)" and tasks: "distinct (submitting (gw_tasks g))"
    "set (submitting (gw_tasks g)) \<subseteq> {sn. placements (gw_db g) sn = Some Pending}"
    using ok by (simp_all add: gateway_ok_def)
  have "gateway_ok g' \<and> (order_stuck sn g \<longrightarrow> order_stuck sn g')"
    using step
  proof cases
    case (request d')
    from request_step_quiet [OF request(2)] inv have "service_inv d'" "placements d' = placements (gw_db g)"
      by (simp_all add: quiet_def)
    with ok request(1) show ?thesis by (simp add: gateway_ok_def order_stuck_def)
  next
    case (order a b now d' n)
    note eff = order_start_effect [OF inv order(2)]
    have keep: "handler_effect (oi_sn b) (WaitResource \<noteq> WaitResource) (gw_db g) d' n" using eff(2) by simp
    show ?thesis
      using handler_keeps(1) [OF eff(1) keep, of "gw_tasks g" a "[]"]
        handler_keeps(2) [OF eff(1) keep, of "gw_tasks g" a "[]" sn] tasks order(1)
      by (simp add: order_stuck_def)
  next
    case (resume us a b w vs h now uuid uuid' d' n)
    note eff = order_resume_effect [OF inv resume(3)]
    show ?thesis
      using handler_keeps(1) [OF eff, of us a vs] handler_keeps(2) [OF eff, of us a vs sn] tasks resume(1,2)
      by (simp add: order_stuck_def)
  next
    case crash
    with ok show ?thesis by (simp add: gateway_ok_def order_stuck_def)
  qed
  then show "gateway_ok g'" "order_stuck sn g \<Longrightarrow> order_stuck sn g'" by simp_all
qed

interpretation books: invariant_system "gateway_step e" gateway_ok for e
  by unfold_locales (rule gateway_step_keeps(1))

interpretation stuck: invariant_system "gateway_step e" "order_stuck sn" for e sn
  by unfold_locales (metis gateway_step_keeps(2) order_stuck_def)

lemma gateway_started_ok: "gateway_ok gateway_started"
proof -
  have "service_inv empty_db"
    by (auto simp: service_inv_def gateway_inv_def backend_inv_def billing_inv_def ledger_ok_def permits_ok_def
        solvent_def books_balanced_def orders_ok_def cache_ok_def sessions_ok_def phones_ok_def empty_db_def
        entries_of_def spend_sum_def permit_spent_def order_spent_def findAccountById_def)
  then show ?thesis by (simp add: gateway_ok_def gateway_started_def)
qed

section \<open>Properties of the running gateway\<close>

text \<open>
  C1: the books of the running gateway always balance. Whatever requests, upstream answers, callbacks
  and crashes happen, in whatever order, the balance of every account is the sum of its ledger
  entries, the points held by open permits and orders are not negative and never exceed the
  balance, and what the ledger says was spent is exactly what the settled units and orders cost.
\<close>

theorem gateway_books_balance:
  assumes "(gateway_step e)\<^sup>*\<^sup>* gateway_started g" and "a \<in> set (accounts (gw_db g))"
  shows "ac_balance a = delta_sum (entries_of (gw_db g) (ac_id a)) \<and>
    0 \<le> frozenPointsFor (gw_db g) (ac_id a) \<and> frozenPointsFor (gw_db g) (ac_id a) \<le> ac_balance a \<and>
    spend_sum (gw_db g) (ac_id a) = - permit_spent (gw_db g) (ac_id a) - order_spent (gw_db g) (ac_id a)"
proof -
  let ?d = "gw_db g"
  have "gateway_ok g" using books.always [OF assms(1) gateway_started_ok] .
  then have g: "gateway_inv ?d" by (simp add: gateway_ok_def service_inv_def)
  then have L: "ledger_ok ?d" "solvent ?d (ac_id a)" "books_balanced ?d (ac_id a)"
    by (simp_all add: gateway_inv_def backend_inv_def billing_inv_def)
  from L(1) assms(2) have "findAccountById ?d (ac_id a) = Some a"
    by (simp add: findAccountById_def find_row_Some_iff ledger_ok_def)
  with L assms(2) frozen_nonneg [OF g] show ?thesis
    by (simp add: ledger_ok_def solvent_def books_balanced_def)
qed

definition demo_env :: gateway_env where
  "demo_env = \<lparr>env_cfg = default_config, env_url = \<lambda>_. True, env_verify = \<lambda>_ _. True, env_hash = id,
     env_parse = \<lambda>_. None, env_hmac = \<lambda>_ _. [], env_print = \<lambda>_. [], env_number = \<lambda>_. None,
     env_appid = [], env_secret = []\<rparr>"

definition demo_created :: gateway where
  "demo_created = \<lparr>gw_db = fst (post_accounts default_config ''acc-1'' ''13800000000'' (replicate 8 97) ''h'' ''le-1'' 7 empty_db),
     gw_tasks = []\<rparr>"

lemma demo_created_reached: "(gateway_step demo_env)\<^sup>*\<^sup>* gateway_started demo_created"
proof -
  let ?run = "post_accounts default_config ''acc-1'' ''13800000000'' (replicate 8 97) ''h'' ''le-1'' 7 empty_db"
  have "post_accounts (env_cfg demo_env) ''acc-1'' ''13800000000'' (replicate 8 97) ''h'' ''le-1'' 7 empty_db = (fst ?run, snd ?run)"
    by (simp add: demo_env_def)
  from request_step.create [OF this]
  have "request_step demo_env (gw_db gateway_started) (gw_db demo_created)"
    by (simp add: gateway_started_def demo_created_def)
  then have "gateway_step demo_env gateway_started (gateway_started\<lparr>gw_db := gw_db demo_created\<rparr>)"
    by (rule gateway_step.request)
  then show ?thesis by (simp add: gateway_started_def demo_created_def r_into_rtranclp)
qed

theorem gateway_books_balance_witness:
  "\<exists>a. accounts (gw_db demo_created) = [a] \<and> ac_balance a = 500 \<and>
     frozenPointsFor (gw_db demo_created) ''acc-1'' \<le> 500"
proof -
  have "phoneSchema ''13800000000''" by (simp add: phoneSchema_def is_digit_def numeral_nat)
  moreover have "newPasswordSchema (replicate 8 97)"
    by (simp add: newPasswordSchema_def utf16_length_def sum_list_replicate)
  ultimately have "\<exists>a. accounts (gw_db demo_created) = [a] \<and> ac_balance a = 500 \<and> ac_id a = ''acc-1''"
    by (simp add: demo_created_def post_accounts_def createAccountWithGrant_def transaction_def
        create_account_body_def insert_account_def insert_row_def new_account_def empty_db_def
        apply_delta_body_def findAccountById_def Let_def default_config_def balanceSnapshot_def
        frozenPointsFor_def permit_frozen_of_def order_frozen_of_def applyBalanceChange_def
        insert_ledger_entry_def next_ledger_seq_def set_balance_def)
  then show ?thesis
    using gateway_books_balance [OF demo_created_reached] by force
qed

text \<open>A gateway with one order on its way.\<close>

definition demo_running :: gateway where
  "demo_running = \<lparr>gw_db = demo_cached\<lparr>publish_orders := [demo_order]\<rparr>,
     gw_tasks = [(''acc-1'', demo_request, WaitPlace True)]\<rparr>"

lemma demo_running_ok: "gateway_ok demo_running"
proof -
  have "service_inv demo_cached"
    using demo_backend_inv backend_inv_cong [of demo_cached demo_db]
    by (simp add: service_inv_def gateway_inv_def cache_ok_def phones_ok_def sessions_ok_def demo_cached_def)
      (simp add: demo_db_def empty_db_def)
  then have "gateway_ok \<lparr>gw_db = demo_cached, gw_tasks = []\<rparr>" by (simp add: gateway_ok_def)
  moreover have "gateway_step demo_env \<lparr>gw_db = demo_cached, gw_tasks = []\<rparr> demo_running"
    using gateway_step.order [of demo_env "''acc-1''" demo_request 10 "\<lparr>gw_db = demo_cached, gw_tasks = []\<rparr>"] demo_start
    by (simp add: demo_env_def demo_running_def next_tasks_def)
  ultimately show ?thesis by (rule books.step_inv)
qed

text \<open>
  C2: an order is submitted to the upstream by one handler at a time. After any steps from a
  consistent state, while a handler submits an order or asks what became of it, no other handler
  works on that order, the order is pending, and a request with the same number, from any account
  and with any contents, is answered without a second submission.
\<close>

theorem order_submitted_once:
  assumes "gateway_ok start" and "(gateway_step e)\<^sup>*\<^sup>* start g"
    and task: "(a, b, w) \<in> set (gw_tasks g)" "w \<noteq> WaitResource"
    and again: "oi_sn b' = oi_sn b" "order_start (env_url e) a' b' now (gw_db g) = (d', n)"
  shows "distinct (submitting (gw_tasks g)) \<and> placements (gw_db g) (oi_sn b) = Some Pending \<and>
    n \<noteq> Await (WaitPlace created)"
proof -
  have ok: "gateway_ok g" using books.always [OF assms(2,1)] .
  have "oi_sn b \<in> set (submitting (gw_tasks g))" using task by (force simp: submitting_def)
  with ok have "placements (gw_db g) (oi_sn b) = Some Pending" by (auto simp: gateway_ok_def)
  moreover have "service_inv (gw_db g)" using ok by (simp add: gateway_ok_def)
  from order_start_effect(2) [OF this again(2)] have "n = Await (WaitPlace created) \<longrightarrow>
      placements (gw_db g) (oi_sn b) \<noteq> Some Pending"
    using again(1) by (auto simp: handler_effect_def)
  ultimately show ?thesis using ok by (simp add: gateway_ok_def)
qed

theorem order_submitted_once_witness:
  "snd (order_start (\<lambda>_. True) ''acc-1'' demo_request 20 (gw_db demo_running)) \<noteq> Await (WaitPlace True)"
proof -
  let ?run = "order_start (env_url demo_env) ''acc-1'' demo_request 20 (gw_db demo_running)"
  have "?run = (fst ?run, snd ?run)" by simp
  from order_submitted_once [OF demo_running_ok rtranclp.rtrancl_refl _ _ refl this, of "''acc-1''" "WaitPlace True" True]
  show ?thesis by (simp add: demo_running_def demo_env_def)
qed

text \<open>
  C3: a placement whose answer is lost blocks its points for good. When the upstream cannot be
  reached, the handler ends with an error and the order stays pending; from then on no request, no
  query of the order, no callback, no retry of the request and no restart ever places, settles or
  releases it: it is pending and frozen in every later state.
\<close>

theorem lost_placement_stays_frozen:
  assumes ok: "gateway_ok g" and task: "gw_tasks g = us @ (a, b, WaitPlace created) # vs"
    and lost: "placeOrder h = Inl err"
    and later: "(gateway_step e)\<^sup>*\<^sup>*
      \<lparr>gw_db = fst (order_resume (a, b, WaitPlace created) h now uuid uuid' (gw_db g)), gw_tasks = us @ vs\<rparr> g'"
  shows "\<exists>q. findPublishOrderBySn (gw_db g') (oi_sn b) = Some q \<and>
    po_placement_status q = Pending \<and> po_ledger_status q = OFrozen"
proof -
  let ?g = "\<lparr>gw_db = fst (order_resume (a, b, WaitPlace created) h now uuid uuid' (gw_db g)), gw_tasks = us @ vs\<rparr>"
  have "order_resume (a, b, WaitPlace created) h now uuid uuid' (gw_db g) = (gw_db g, Done (ReplyError err))"
    by (simp add: order_resume_def order_placed_def lost)
  with ok task have "order_stuck (oi_sn b) ?g" by (auto simp: order_stuck_def gateway_ok_def)
  then have stuck: "order_stuck (oi_sn b) g'" by (rule stuck.always [OF later])
  then obtain q where q: "findPublishOrderBySn (gw_db g') (oi_sn b) = Some q" "po_placement_status q = Pending"
    by (auto simp: order_stuck_def placements_def)
  have "orders_ok (gw_db g')"
    using stuck by (simp add: order_stuck_def gateway_ok_def service_inv_def gateway_inv_def backend_inv_def)
  from orders_ok_order [OF this q(1)] q show ?thesis by (simp add: order_ok_def)
qed

theorem lost_placement_stays_frozen_witness:
  "\<exists>q. findPublishOrderBySn (gw_db \<lparr>gw_db = gw_db demo_running, gw_tasks = []\<rparr>) ''sn-00001'' = Some q \<and>
     po_placement_status q = Pending \<and> po_ledger_status q = OFrozen"
proof -
  let ?resumed = "\<lparr>gw_db = fst (order_resume (''acc-1'', demo_request, WaitPlace True) NetworkError 20 ''u'' ''v''
    (gw_db demo_running)), gw_tasks = [] @ []\<rparr>"
  have lost: "placeOrder NetworkError = fail ''upstream_unavailable'' 502"
    by (simp add: placeOrder_def upstream_data_def)
  then have "?resumed = \<lparr>gw_db = gw_db demo_running, gw_tasks = []\<rparr>"
    by (simp add: order_resume_def order_placed_def)
  then have "(gateway_step demo_env)\<^sup>*\<^sup>* ?resumed \<lparr>gw_db = gw_db demo_running, gw_tasks = []\<rparr>" by simp
  from lost_placement_stays_frozen [OF demo_running_ok _ lost this] show ?thesis
    by (simp add: demo_running_def demo_request_def demo_order_input_def)
qed

end
