(* ===== verification/UnionFind.thy ===== *)
theory UnionFind
  imports Prelude
begin

text \<open>
  The union-find forests with path compression that \<open>buildUnambiguousDomains\<close>
  (\<open>src/shared/geo/channelRecall.ts\<close>) and \<open>assignTrunkFamilies\<close> (\<open>src/shared/geo/distributionPlan.ts\<close>) build over
  channel names. The parents are a function that is the identity at a root. The search follows the
  parents and need not end on a forest with a cycle, so it is a partial function; the lemmas show
  that it ends on every forest that the code builds, and the interface at the end is what the two
  clients rely on: the root is the same exactly for joined elements.
\<close>

section \<open>The code\<close>

partial_function (option) uf_find :: "('a \<Rightarrow> 'a) \<Rightarrow> 'a \<Rightarrow> ('a \<times> ('a \<Rightarrow> 'a)) option" where
  "uf_find p x =
     (if p x = x then Some (x, p)
      else Option.bind (uf_find p (p x)) (\<lambda>(r, q). Some (r, q(x := r))))"

declare uf_find.simps [code]

text \<open>\<open>parent.set(find(a), find(b))\<close>\<close>

definition uf_union :: "('a \<Rightarrow> 'a) \<Rightarrow> 'a \<Rightarrow> 'a \<Rightarrow> ('a \<Rightarrow> 'a) option" where
  "uf_union p a b =
     Option.bind (uf_find p a) (\<lambda>(ra, p1).
       Option.bind (uf_find p1 b) (\<lambda>(rb, p2). Some (p2(ra := rb))))"

fun uf_unions :: "('a \<times> 'a) list \<Rightarrow> ('a \<Rightarrow> 'a) \<Rightarrow> ('a \<Rightarrow> 'a) option" where
  "uf_unions [] p = Some p"
| "uf_unions ((a, b) # es) p = Option.bind (uf_union p a b) (uf_unions es)"

fun uf_roots :: "('a \<Rightarrow> 'a) \<Rightarrow> 'a list \<Rightarrow> 'a list option" where
  "uf_roots p [] = Some []"
| "uf_roots p (x # xs) =
     Option.bind (uf_find p x) (\<lambda>(r, q). map_option (\<lambda>rs. r # rs) (uf_roots q xs))"

text \<open>All pairs of the nested loops over \<open>i < j\<close>, and the pairs that are joined.\<close>

fun later_pairs :: "'a list \<Rightarrow> ('a \<times> 'a) list" where
  "later_pairs [] = []"
| "later_pairs (x # xs) = map (Pair x) xs @ later_pairs xs"

definition cluster_roots :: "('a \<times> 'a) list \<Rightarrow> 'a list \<Rightarrow> 'a list option" where
  "cluster_roots es xs = Option.bind (uf_unions es (\<lambda>x. x)) (\<lambda>p. uf_roots p xs)"

lemma later_pairs_set:
  "(a, b) \<in> set (later_pairs xs) \<longleftrightarrow> (\<exists>i j. i < j \<and> j < length xs \<and> a = xs ! i \<and> b = xs ! j)"
proof (induction xs)
  case (Cons x xs)
  have "(\<exists>i j. i < j \<and> j < length (x # xs) \<and> a = (x # xs) ! i \<and> b = (x # xs) ! j) \<longleftrightarrow>
        (a = x \<and> b \<in> set xs) \<or> (\<exists>i j. i < j \<and> j < length xs \<and> a = xs ! i \<and> b = xs ! j)"
    (is "?L \<longleftrightarrow> ?R")
  proof
    assume ?L
    then obtain i j where ij: "i < j" "j < Suc (length xs)" "a = (x # xs) ! i" "b = (x # xs) ! j" by auto
    then obtain j' where j: "j = Suc j'" by (cases j) auto
    show ?R
    proof (cases i)
      case 0
      with ij j show ?thesis by auto
    next
      case (Suc i')
      with ij j show ?thesis by auto
    qed
  next
    assume ?R
    then show ?L
    proof
      assume "a = x \<and> b \<in> set xs"
      then obtain k where "a = x" "k < length xs" "b = xs ! k" by (auto simp: in_set_conv_nth)
      then show ?L by (intro exI [of _ 0] exI [of _ "Suc k"]) auto
    next
      assume "\<exists>i j. i < j \<and> j < length xs \<and> a = xs ! i \<and> b = xs ! j"
      then obtain i j where "i < j" "j < length xs" "a = xs ! i" "b = xs ! j" by blast
      then show ?L by (intro exI [of _ "Suc i"] exI [of _ "Suc j"]) auto
    qed
  qed
  with Cons show ?case by auto
qed simp

section \<open>Roots\<close>

inductive uf_root :: "('a \<Rightarrow> 'a) \<Rightarrow> 'a \<Rightarrow> 'a \<Rightarrow> bool" for p where
  here: "p x = x \<Longrightarrow> uf_root p x x"
| step: "p x \<noteq> x \<Longrightarrow> uf_root p (p x) r \<Longrightarrow> uf_root p x r"

inductive_cases uf_root_elim: "uf_root p x r"

definition uf_ok :: "('a \<Rightarrow> 'a) \<Rightarrow> bool" where
  "uf_ok p \<longleftrightarrow> (\<forall>x. \<exists>r. uf_root p x r)"

lemma uf_root_fun: "uf_root p x r \<Longrightarrow> uf_root p x s \<Longrightarrow> r = s"
proof (induction arbitrary: s rule: uf_root.induct)
  case (here x)
  from here.prems here.hyps show ?case by (cases rule: uf_root.cases) auto
next
  case (step x r)
  from step.prems step.hyps have "uf_root p (p x) s" by (cases rule: uf_root.cases) auto
  then show ?case by (rule step.IH)
qed

lemma uf_root_fixed: "uf_root p x r \<Longrightarrow> p r = r"
  by (induction rule: uf_root.induct) auto

lemma uf_root_self: "p r = r \<Longrightarrow> uf_root p r s \<longleftrightarrow> s = r"
  by (metis uf_root.here uf_root_fun)

lemma uf_root_compress_forward:
  assumes "uf_root p x r" and "uf_root p y s"
  shows "uf_root (p(x := r)) y s"
  using assms(2)
proof (induction rule: uf_root.induct)
  case (here y)
  show ?case
  proof (cases "y = x")
    case True
    with here assms(1) have "r = y" by (metis uf_root_self)
    with here True show ?thesis by (auto intro: uf_root.here)
  next
    case False
    with here show ?thesis by (auto intro: uf_root.here)
  qed
next
  case (step y s)
  show ?case
  proof (cases "y = x")
    case True
    have "r = s" using assms(1) step.hyps True by (metis uf_root.step uf_root_fun)
    moreover have "p r = r" by (rule uf_root_fixed [OF assms(1)])
    moreover have "r \<noteq> x" using step.hyps True \<open>p r = r\<close> by auto
    ultimately show ?thesis using True
      by (metis fun_upd_other fun_upd_same uf_root.here uf_root.step)
  next
    case False
    with step show ?thesis by (auto intro: uf_root.step)
  qed
qed

lemma uf_root_compress:
  assumes "uf_ok p" and "uf_root p x r"
  shows "uf_root (p(x := r)) y s \<longleftrightarrow> uf_root p y s"
  using assms uf_root_compress_forward uf_root_fun unfolding uf_ok_def by metis

lemma uf_find_correct:
  assumes "uf_root p x r"
  shows "\<exists>q. uf_find p x = Some (r, q) \<and> (uf_ok p \<longrightarrow> uf_ok q \<and> (\<forall>y s. uf_root q y s \<longleftrightarrow> uf_root p y s))"
  using assms
proof (induction rule: uf_root.induct)
  case (here x)
  then show ?case by (simp add: uf_find.simps)
next
  case (step x r)
  then obtain q where q: "uf_find p (p x) = Some (r, q)"
    and ok: "uf_ok p \<Longrightarrow> uf_ok q \<and> (\<forall>y s. uf_root q y s \<longleftrightarrow> uf_root p y s)" by auto
  have "uf_find p x = Some (r, q(x := r))" using step.hyps q by (simp add: uf_find.simps [of p x])
  moreover have "uf_ok (q(x := r)) \<and> (\<forall>y s. uf_root (q(x := r)) y s \<longleftrightarrow> uf_root p y s)" if "uf_ok p"
  proof -
    have root: "uf_root p x r" using step.hyps by (auto intro: uf_root.step)
    with ok [OF that] have "uf_root q x r" by simp
    with ok [OF that] have "uf_root (q(x := r)) y s \<longleftrightarrow> uf_root p y s" for y s
      using uf_root_compress by metis
    with that show ?thesis by (simp add: uf_ok_def)
  qed
  ultimately show ?case by blast
qed

text \<open>Joining two roots.\<close>

lemma uf_root_join:
  assumes ok: "uf_ok p" and a: "p ra = ra" and b: "p rb = rb" and root: "uf_root p y s"
  shows "uf_root (p(ra := rb)) y (if s = ra then rb else s)"
  using root
proof (induction rule: uf_root.induct)
  case (here x)
  show ?case
  proof (cases "x = ra \<and> ra \<noteq> rb")
    case True
    with b have "uf_root (p(ra := rb)) rb rb" by (auto intro: uf_root.here)
    with True show ?thesis by (metis fun_upd_same uf_root.step)
  next
    case False
    with here show ?thesis by (auto intro: uf_root.here)
  qed
next
  case (step x s)
  with a have "x \<noteq> ra" by auto
  with step show ?case by (auto intro: uf_root.step)
qed

lemma uf_union_correct:
  assumes ok: "uf_ok p" and a: "uf_root p a ra" and b: "uf_root p b rb"
  shows "\<exists>q. uf_union p a b = Some q \<and> uf_ok q \<and>
             (\<forall>y s. uf_root p y s \<longrightarrow> uf_root q y (if s = ra then rb else s))"
proof -
  from uf_find_correct [OF a] ok obtain p1 where p1: "uf_find p a = Some (ra, p1)" "uf_ok p1"
    "\<And>y s. uf_root p1 y s \<longleftrightarrow> uf_root p y s" by auto
  from b p1(3) have "uf_root p1 b rb" by simp
  from uf_find_correct [OF this] p1 obtain p2 where p2: "uf_find p1 b = Some (rb, p2)" "uf_ok p2"
    "\<And>y s. uf_root p2 y s \<longleftrightarrow> uf_root p y s" by auto
  have fixed: "p2 ra = ra" "p2 rb = rb" using a b p2(3) uf_root_fixed by metis+
  have "uf_root (p2(ra := rb)) y (if s = ra then rb else s)" if "uf_root p y s" for y s
    using uf_root_join [OF p2(2) fixed] that p2(3) by simp
  moreover from this have "uf_ok (p2(ra := rb))" using ok unfolding uf_ok_def by blast
  ultimately show ?thesis using p1(1) p2(1) by (auto simp: uf_union_def)
qed

section \<open>Connected components\<close>

definition edge_set :: "('a \<times> 'a) list \<Rightarrow> ('a \<times> 'a) set" where
  "edge_set es = set es \<union> (set es)\<inverse>"

definition joined :: "('a \<times> 'a) list \<Rightarrow> 'a \<Rightarrow> 'a \<Rightarrow> bool" where
  "joined es x y \<longleftrightarrow> (x, y) \<in> (edge_set es)\<^sup>*"

lemma joined_refl [simp]: "joined es x x"
  by (simp add: joined_def)

lemma joined_edge: "(x, y) \<in> set es \<Longrightarrow> joined es x y"
  by (auto simp: joined_def edge_set_def)

lemma joined_trans: "joined es x y \<Longrightarrow> joined es y z \<Longrightarrow> joined es x z"
  by (auto simp: joined_def)

lemma joined_sym: "joined es x y \<Longrightarrow> joined es y x"
  unfolding joined_def edge_set_def
  by (metis converse_Un converse_converse rtrancl_converseI sup_commute)

lemma joined_mono: "set es \<subseteq> set fs \<Longrightarrow> joined es x y \<Longrightarrow> joined fs x y"
  unfolding joined_def edge_set_def
  by (rule subsetD [OF rtrancl_mono]) auto

lemma joined_Nil [simp]: "joined [] x y \<longleftrightarrow> x = y"
  by (simp add: joined_def edge_set_def)

text \<open>The forest of a list of joined pairs.\<close>

definition forest_of :: "('a \<times> 'a) list \<Rightarrow> ('a \<Rightarrow> 'a) \<Rightarrow> bool" where
  "forest_of es p \<longleftrightarrow>
     uf_ok p \<and> (\<forall>x y r s. uf_root p x r \<longrightarrow> uf_root p y s \<longrightarrow> (r = s \<longleftrightarrow> joined es x y))"

lemma forest_of_Nil: "forest_of [] (\<lambda>x. x)"
  by (auto simp: forest_of_def uf_ok_def uf_root_self intro: uf_root.here)

lemma joined_snoc_cases:
  assumes "joined (es @ [(a, b)]) x y"
  shows "joined es x y \<or> joined es x a \<and> joined es b y \<or> joined es x b \<and> joined es a y"
  using assms unfolding joined_def [of "es @ [(a, b)]"]
proof (induction rule: rtrancl_induct)
  case base
  then show ?case by simp
next
  case (step y z)
  consider "(y, z) \<in> edge_set es" | "y = a" "z = b" | "y = b" "z = a"
    using step.hyps by (auto simp: edge_set_def)
  then show ?case
  proof cases
    case 1
    then have "joined es y z" by (auto simp: joined_def)
    with step.IH show ?thesis by (blast intro: joined_trans)
  next
    case 2
    with step.IH show ?thesis by (auto intro: joined_trans joined_sym)
  next
    case 3
    with step.IH show ?thesis by (auto intro: joined_trans joined_sym)
  qed
qed

lemma joined_snoc:
  "joined (es @ [(a, b)]) x y \<longleftrightarrow>
   joined es x y \<or> joined es x a \<and> joined es b y \<or> joined es x b \<and> joined es a y"
proof
  assume "joined es x y \<or> joined es x a \<and> joined es b y \<or> joined es x b \<and> joined es a y"
  moreover have "joined es u v \<Longrightarrow> joined (es @ [(a, b)]) u v" for u v
    by (rule joined_mono) auto
  moreover have "joined (es @ [(a, b)]) a b" "joined (es @ [(a, b)]) b a"
    by (rule joined_edge, simp, rule joined_sym, rule joined_edge, simp)
  ultimately show "joined (es @ [(a, b)]) x y" by (blast intro: joined_trans)
qed (rule joined_snoc_cases)

lemma forest_of_union:
  assumes forest: "forest_of es p"
  shows "\<exists>q. uf_union p a b = Some q \<and> forest_of (es @ [(a, b)]) q"
proof -
  from forest have ok: "uf_ok p"
    and same: "\<And>x y r s. uf_root p x r \<Longrightarrow> uf_root p y s \<Longrightarrow> (r = s \<longleftrightarrow> joined es x y)"
    by (auto simp: forest_of_def)
  from ok obtain ra rb where roots: "uf_root p a ra" "uf_root p b rb" unfolding uf_ok_def by blast
  from uf_union_correct [OF ok roots] obtain q where q: "uf_union p a b = Some q" "uf_ok q"
    "\<And>y s. uf_root p y s \<Longrightarrow> uf_root q y (if s = ra then rb else s)" by blast
  have "r' = s' \<longleftrightarrow> joined (es @ [(a, b)]) x y" if new: "uf_root q x r'" "uf_root q y s'" for x y r' s'
  proof -
    from ok obtain r s where old: "uf_root p x r" "uf_root p y s" unfolding uf_ok_def by blast
    with q(3) new have r': "r' = (if r = ra then rb else r)" "s' = (if s = ra then rb else s)"
      by (blast dest: uf_root_fun)+
    note conn = same [OF old] same [OF old(1) roots(1)] same [OF old(1) roots(2)]
      same [OF roots(2) old(2)] same [OF roots(1) old(2)]
    show ?thesis unfolding joined_snoc conn [symmetric] r' by auto
  qed
  with q(1,2) show ?thesis by (auto simp: forest_of_def)
qed

lemma forest_of_unions:
  "forest_of es p \<Longrightarrow> \<exists>q. uf_unions fs p = Some q \<and> forest_of (es @ fs) q"
proof (induction fs arbitrary: es p)
  case (Cons e fs)
  obtain a b where e: "e = (a, b)" by (cases e)
  from forest_of_union [OF Cons.prems, of a b] obtain q where
    q: "uf_union p a b = Some q" "forest_of (es @ [(a, b)]) q" by blast
  from Cons.IH [OF q(2)] q(1) e show ?case by auto
qed simp

lemma uf_roots_correct:
  assumes "uf_ok p"
  shows "\<exists>rs. uf_roots p xs = Some rs \<and> list_all2 (uf_root p) xs rs"
  using assms
proof (induction xs arbitrary: p)
  case (Cons x xs)
  then obtain r where r: "uf_root p x r" unfolding uf_ok_def by blast
  from uf_find_correct [OF r] Cons.prems obtain q where q: "uf_find p x = Some (r, q)" "uf_ok q"
    "\<And>y s. uf_root q y s \<longleftrightarrow> uf_root p y s" by auto
  from q(3) have eq: "uf_root q = uf_root p" by (intro ext) simp
  from Cons.IH [OF q(2)] q(1) r show ?case by (auto simp: eq)
qed simp

section \<open>The interface\<close>

text \<open>
  What a client of the clustering relies on: it answers, with one root for every element, and two
  elements have the same root exactly when the joined pairs connect them.
\<close>

locale clustering =
  fixes roots :: "('a \<times> 'a) list \<Rightarrow> 'a list \<Rightarrow> 'a list option"
  assumes answers: "\<exists>rs. roots es xs = Some rs \<and> length rs = length xs"
    and same_root: "roots es xs = Some rs \<Longrightarrow> i < length xs \<Longrightarrow> j < length xs \<Longrightarrow>
      rs ! i = rs ! j \<longleftrightarrow> joined es (xs ! i) (xs ! j)"
begin

lemma one_root:
  assumes "roots es xs = Some rs"
  shows "length (remdups rs) \<le> 1 \<longleftrightarrow> (\<forall>x\<in>set xs. \<forall>y\<in>set xs. joined es x y)"
proof -
  from answers [of es xs] assms have len: "length rs = length xs" by auto
  have "length (remdups rs) \<le> 1 \<longleftrightarrow> (\<forall>r\<in>set rs. \<forall>s\<in>set rs. r = s)"
    by (metis One_nat_def card_le_Suc0_iff_eq length_remdups_card_conv List.finite_set)
  also have "\<dots> \<longleftrightarrow> (\<forall>i<length xs. \<forall>j<length xs. rs ! i = rs ! j)"
    by (simp add: all_set_conv_all_nth len)
  also have "\<dots> \<longleftrightarrow> (\<forall>x\<in>set xs. \<forall>y\<in>set xs. joined es x y)"
    using same_root [OF assms] by (simp add: all_set_conv_all_nth)
  finally show ?thesis .
qed

end

lemma cluster_roots_correct:
  "\<exists>p rs. forest_of es p \<and> cluster_roots es xs = Some rs \<and> list_all2 (uf_root p) xs rs"
proof -
  from forest_of_unions [OF forest_of_Nil, of es] obtain p where
    p: "uf_unions es (\<lambda>x. x) = Some p" "forest_of es p" by auto
  then have "uf_ok p" by (simp add: forest_of_def)
  from uf_roots_correct [OF this, of xs] p show ?thesis by (auto simp: cluster_roots_def)
qed

interpretation uf: clustering cluster_roots
proof
  fix es :: "('a \<times> 'a) list" and xs :: "'a list"
  from cluster_roots_correct [of es xs] obtain p rs where
    prs: "forest_of es p" "cluster_roots es xs = Some rs" "list_all2 (uf_root p) xs rs" by blast
  from prs(2,3) show "\<exists>rs. cluster_roots es xs = Some rs \<and> length rs = length xs"
    by (auto dest: list_all2_lengthD)
  fix rs' i j
  assume "cluster_roots es xs = Some rs'" "i < length xs" "j < length xs"
  with prs show "rs' ! i = rs' ! j \<longleftrightarrow> joined es (xs ! i) (xs ! j)"
    by (auto simp: forest_of_def list_all2_conv_all_nth)
qed

end
