(* ===== verification/Recall.thy ===== *)
theory Recall
  imports UnionFind Industry Preference OrderRoutes
begin

text \<open>
  The pure matching rules of the channel recall, \<open>src/shared/geo/channelRecall.ts\<close>: domains and platform
  families of a URL, account marks in URLs and titles, channel name cores and families, the name
  scores, the preference list as the desktop composes it, and the clean domains of the pool.
  The parts of the JavaScript runtime that the code calls and that are not modelled here are the
  fields of a record: \<open>toLowerCase\<close>, the parser behind \<open>new URL\<close>, \<open>decodeURIComponent\<close>, \<open>Number\<close> and \<open>String\<close>
  between texts and numbers, the
  time stamp that \<open>new Date(..).toISOString()\<close> prints for a readable date, and the sort key behind
  \<open>localeCompare\<close>. Scores are exact rationals.
\<close>

section \<open>The runtime\<close>

record url_parts =
  up_protocol :: utext
  up_hostname :: utext
  up_pathname :: utext
  up_params :: "(utext \<times> utext) list"
  up_href :: utext

record js_runtime =
  jr_lower :: "utext \<Rightarrow> utext"
  jr_url :: "utext \<Rightarrow> url_parts option"
  jr_decode :: "utext \<Rightarrow> utext option"
  jr_number :: "utext \<Rightarrow> rat option"
  jr_show :: "rat \<Rightarrow> utext"
  jr_iso :: "utext \<Rightarrow> utext option"
  jr_collate :: "utext \<Rightarrow> nat list"

text \<open>\<open>slice(0, n)\<close> counts UTF-16 units and may cut a pair in two.\<close>

fun utf16_take :: "nat \<Rightarrow> utext \<Rightarrow> utext" where
  "utf16_take n [] = []"
| "utf16_take n (c # t) =
     (if n = 0 then []
      else if c < 65536 then c # utf16_take (n - 1) t
      else if n = 1 then [55296 + (c - 65536) div 1024]
      else c # utf16_take (n - 2) t)"

definition text_suffix :: "utext \<Rightarrow> utext \<Rightarrow> bool" where
  "text_suffix suffix t \<longleftrightarrow> text_prefix (rev suffix) (rev t)"

text \<open>Splitting at every character of a set, as \<open>split\<close> with one character or a class does.\<close>

fun split_at :: "(nat \<Rightarrow> bool) \<Rightarrow> utext \<Rightarrow> utext list" where
  "split_at sep [] = [[]]"
| "split_at sep (c # t) =
     (case split_at sep t of
        [] \<Rightarrow> []
      | part # parts \<Rightarrow> if sep c then [] # part # parts else (c # part) # parts)"

fun join_texts :: "utext \<Rightarrow> utext list \<Rightarrow> utext" where
  "join_texts sep [] = []"
| "join_texts sep [part] = part"
| "join_texts sep (part # parts) = part @ sep @ join_texts sep parts"

text \<open>The elements of a \<open>Set\<close> in the order of their first insertion.\<close>

definition js_unique :: "'a list \<Rightarrow> 'a list" where
  "js_unique xs = rev (remdups (rev xs))"

lemma set_js_unique [simp]: "set (js_unique xs) = set xs"
  by (simp add: js_unique_def)

lemma distinct_js_unique [simp]: "distinct (js_unique xs)"
  by (simp add: js_unique_def)

lemma js_unique_Nil [simp]: "js_unique [] = []"
  by (simp add: js_unique_def)

lemma js_unique_empty_iff [simp]: "js_unique xs = [] \<longleftrightarrow> xs = []"
  by (simp add: js_unique_def)

lemma js_unique_distinct [simp]: "distinct xs \<Longrightarrow> js_unique xs = xs"
  by (simp add: js_unique_def distinct_remdups_id)

lemma length_js_unique: "length (js_unique xs) = card (set xs)"
  by (simp add: js_unique_def length_remdups_card_conv)

text \<open>A \<open>Map\<close> keeps the first place of a key and its last value.\<close>

definition last_per_key :: "('a \<Rightarrow> 'k) \<Rightarrow> 'a list \<Rightarrow> 'a list" where
  "last_per_key key xs = map (\<lambda>k. last (filter (\<lambda>x. key x = k) xs)) (js_unique (map key xs))"

text \<open>The leftmost position of a text at which a pattern matches.\<close>

fun first_match :: "(utext \<Rightarrow> 'a option) \<Rightarrow> utext \<Rightarrow> 'a option" where
  "first_match pat [] = pat []"
| "first_match pat (c # t) = (case pat (c # t) of Some x \<Rightarrow> Some x | None \<Rightarrow> first_match pat t)"

section \<open>Domains\<close>

definition COMMON_TWO_LEVEL_SUFFIXES :: "utext list" where
  "COMMON_TWO_LEVEL_SUFFIXES =
     map ascii [''com.cn'', ''net.cn'', ''org.cn'', ''gov.cn'', ''edu.cn'', ''ac.cn'', ''co.jp'', ''com.hk'', ''net.hk'',
       ''org.hk'', ''com.tw'', ''com.sg'', ''co.kr'', ''co.uk'', ''org.uk'', ''gov.uk'']"

definition bare_host :: "js_runtime \<Rightarrow> utext \<Rightarrow> utext" where
  "bare_host js hostname =
     (let h = jr_lower js hostname
      in case strip_prefix (ascii ''www.'') h of Some r \<Rightarrow> r | None \<Rightarrow> h)"

definition hostnameOf :: "js_runtime \<Rightarrow> utext \<Rightarrow> utext option" where
  "hostnameOf js value =
     map_option (\<lambda>u. bare_host js (up_hostname u))
       (jr_url js (if text_includes value (ascii ''://'') then value else ascii ''https://'' @ value))"

definition last_n :: "nat \<Rightarrow> 'a list \<Rightarrow> 'a list" where
  "last_n n xs = drop (length xs - n) xs"

definition registeredDomain :: "js_runtime \<Rightarrow> utext option \<Rightarrow> utext option" where
  "registeredDomain js value =
     (case value of
        None \<Rightarrow> None
      | Some v \<Rightarrow>
          if v = [] then None
          else case hostnameOf js v of
                 None \<Rightarrow> None
               | Some hostname \<Rightarrow>
                   let labels = filter (\<lambda>l. l \<noteq> []) (split_at (\<lambda>c. c = 46) hostname)
                   in if length labels < 2 then None
                      else let suffix = join_texts [46] (last_n 2 labels)
                           in Some (if suffix \<in> set COMMON_TWO_LEVEL_SUFFIXES \<and> 3 \<le> length labels
                                    then join_texts [46] (last_n 3 labels) else suffix))"

definition DOMAIN_TO_BRAND :: "(utext \<times> utext) list" where
  "DOMAIN_TO_BRAND =
    [(ascii ''sina'', [26032, 28010]), (ascii ''sohu'', [25628, 29392]), (ascii ''tencent'', [33150, 35759]),
     (ascii ''qq.com'', [33150, 35759]), (ascii ''163.com'', [32593, 26131]), (ascii ''netease'', [32593,
       26131]),
     (ascii ''ifeng'', [20964, 20976]), (ascii ''people'', [20154, 27665]), (ascii ''xinhua'', [26032,
       21326]),
     (ascii ''cctv'', [22830, 35270]), (ascii ''china.com'', [20013, 21326, 32593]), (ascii ''hexun'',
       [21644, 35759]),
     (ascii ''autohome'', [27773, 36710, 20043, 23478]), (ascii ''pcauto'', [22826, 24179, 27915, 27773,
       36710]),
     (ascii ''xcar'', [29233, 21345]), (ascii ''yiche'', [26131, 36710]), (ascii ''dongchedi'', [25026,
       36710, 24093]),
     (ascii ''chejilab'', [36710, 23478, 21495]), (ascii ''36kr'', [51, 54, 27690]), (ascii ''huxiu'',
       [34382, 21957]),
     (ascii ''tmtpost'', [38043, 23186, 20307]), (ascii ''leiphone'', [38647, 38155]), (ascii ''csdn'', [67,
       83, 68, 78]),
     (ascii ''oschina'', [24320, 28304, 20013, 22269]), (ascii ''zhihu'', [30693, 20046]),
     (ascii ''bilibili'', [21716, 21737, 21716, 21737]), (ascii ''baidu'', [30334, 24230]),
     (ascii ''toutiao'', [20170, 26085, 22836, 26465]), (ascii ''douyin'', [25238, 38899]),
     (ascii ''kuaishou'', [24555, 25163]), (ascii ''xiaohongshu'', [23567, 32418, 20070]),
     (ascii ''weibo'', [24494, 21338]), (ascii ''kjrb'', [31185, 25216, 26085, 25253]), (ascii ''stcn'',
       [35777, 21048, 26102, 25253]),
     (ascii ''ce.cn'', [20013, 22269, 32463, 27982, 32593]), (ascii ''chinadaily'', [20013, 22269, 26085,
       25253]),
     (ascii ''chinanews'', [20013, 22269, 26032, 38395, 32593]), (ascii ''gbchina'', [20013, 22269, 24191,
       25773, 32593])]"

definition brand_in :: "utext \<Rightarrow> utext option" where
  "brand_in t = map_option snd (find (\<lambda>(pattern, brand). text_includes t pattern) DOMAIN_TO_BRAND)"

definition domainToBrand :: "js_runtime \<Rightarrow> utext option \<Rightarrow> utext option" where
  "domainToBrand js domain =
     (case domain of
        None \<Rightarrow> None
      | Some d \<Rightarrow>
          if d = [] then None
          else case hostnameOf js d of
                 None \<Rightarrow> None
               | Some hostname \<Rightarrow> if hostname = [] then None else brand_in hostname)"

definition brandFromPlainText :: "js_runtime \<Rightarrow> utext \<Rightarrow> utext option" where
  "brandFromPlainText js t = (if t = [] then None else brand_in (jr_lower js t))"

definition MULTI_TENANT_HOST_SUFFIXES :: "utext list" where
  "MULTI_TENANT_HOST_SUFFIXES =
     map ascii [''toutiao.com'', ''douyin.com'', ''iesdouyin.com'', ''kuaishou.com'', ''xiaohongshu.com'',
       ''bilibili.com'', ''zhihu.com'', ''weibo.com'', ''qq.com'', ''baijiahao.baidu.com'', ''sohu.com'', ''163.com'',
       ''ifeng.com'', ''sina.com.cn'', ''sina.cn'']"

definition host_within :: "utext \<Rightarrow> utext \<Rightarrow> bool" where
  "host_within hostname suffix \<longleftrightarrow> hostname = suffix \<or> text_suffix (46 # suffix) hostname"

definition isMultiTenantPlatformUrl :: "js_runtime \<Rightarrow> utext option \<Rightarrow> bool" where
  "isMultiTenantPlatformUrl js value =
     (case value of
        None \<Rightarrow> False
      | Some v \<Rightarrow>
          v \<noteq> [] \<and>
          (case hostnameOf js v of
             None \<Rightarrow> False
           | Some hostname \<Rightarrow> list_ex (host_within hostname) MULTI_TENANT_HOST_SUFFIXES))"

section \<open>Platform families\<close>

record platform_aliases =
  pa_family :: utext
  pa_aliases :: "utext list"
  pa_hosts :: "utext list"

definition PLATFORM_FAMILY_ALIASES :: "platform_aliases list" where
  "PLATFORM_FAMILY_ALIASES =
    [\<lparr>pa_family = [20170, 26085, 22836, 26465], pa_aliases = [[20170, 26085, 22836, 26465], [22836,
      26465, 21495], [22836, 26465]],
      pa_hosts = [ascii ''toutiao.com'']\<rparr>,
     \<lparr>pa_family = [25238, 38899], pa_aliases = [[25238, 38899]],
      pa_hosts = [ascii ''douyin.com'', ascii ''iesdouyin.com'']\<rparr>,
     \<lparr>pa_family = [24555, 25163], pa_aliases = [[24555, 25163]], pa_hosts = [ascii
       ''kuaishou.com'']\<rparr>,
     \<lparr>pa_family = [23567, 32418, 20070], pa_aliases = [[23567, 32418, 20070]], pa_hosts = [ascii
       ''xiaohongshu.com'']\<rparr>,
     \<lparr>pa_family = [21716, 21737, 21716, 21737], pa_aliases = [[21716, 21737, 21716, 21737], [66,
       31449], [98, 31449]],
      pa_hosts = [ascii ''bilibili.com'']\<rparr>,
     \<lparr>pa_family = [30693, 20046], pa_aliases = [[30693, 20046]], pa_hosts = [ascii
       ''zhihu.com'']\<rparr>,
     \<lparr>pa_family = [24494, 21338], pa_aliases = [[24494, 21338]], pa_hosts = [ascii
       ''weibo.com'']\<rparr>,
     \<lparr>pa_family = [25628, 29392], pa_aliases = [[25628, 29392, 21495], [25628, 29392]], pa_hosts =
       [ascii ''sohu.com'']\<rparr>,
     \<lparr>pa_family = [32593, 26131], pa_aliases = [[32593, 26131, 21495], [32593, 26131]], pa_hosts =
       [ascii ''163.com'']\<rparr>,
     \<lparr>pa_family = [33150, 35759], pa_aliases = [[20844, 20247, 21495], [20225, 40517, 21495], [24494,
       20449], [33150, 35759]],
      pa_hosts = [ascii ''qq.com'']\<rparr>,
     \<lparr>pa_family = [30334, 23478, 21495], pa_aliases = [[30334, 23478, 21495]], pa_hosts = [ascii
       ''baijiahao.baidu.com'']\<rparr>,
     \<lparr>pa_family = [20964, 20976], pa_aliases = [[20964, 20976, 21495], [20964, 20976]], pa_hosts =
       [ascii ''ifeng.com'']\<rparr>,
     \<lparr>pa_family = [26032, 28010], pa_aliases = [[26032, 28010]],
      pa_hosts = [ascii ''sina.com.cn'', ascii ''sina.cn'']\<rparr>]"

definition citationPlatformFamily :: "js_runtime \<Rightarrow> utext option \<Rightarrow> utext option" where
  "citationPlatformFamily js url =
     (case url of
        None \<Rightarrow> None
      | Some u \<Rightarrow>
          if u = [] then None
          else case hostnameOf js u of
                 None \<Rightarrow> None
               | Some hostname \<Rightarrow>
                   if hostname = [] then None
                   else map_option pa_family
                          (find (\<lambda>entry. list_ex (host_within hostname) (pa_hosts entry)) PLATFORM_FAMILY_ALIASES))"

definition PLATFORM_ENUM_FAMILY :: "(int \<times> utext) list" where
  "PLATFORM_ENUM_FAMILY =
    [(1, [33150, 35759]), (2, [21716, 21737, 21716, 21737]), (3, [32593, 26131]), (4, [25628, 29392]), (5,
      [30334, 23478, 21495]),
     (6, [20170, 26085, 22836, 26465]), (7, [24494, 21338]), (8, [19968, 28857, 36164, 35759]), (9, [26032,
       28010]), (10, [23567, 32418, 20070]),
     (11, [30693, 20046]), (13, [35910, 29923]), (14, [85, 67, 22836, 26465]), (15, [19996, 26041, 21495]),
       (16, [19996, 26041, 36130, 23500]),
     (17, [36710, 23478, 21495]), (18, [20013, 37329, 22312, 32447]), (19, [38634, 29699]), (20, [20964,
       20976]), (21, [33150, 35759]),
     (23, [31616, 20070]), (24, [25026, 36710, 21495])]"

record resource_identity =
  ri_name :: utext
  ri_entranceLink :: "utext option"
  ri_platform :: "rat option"
  ri_id :: "int option"
  ri_kind :: "publish_order_kind option"

text \<open>The platform enumeration is keyed by whole numbers only.\<close>

definition enum_family :: "rat option \<Rightarrow> utext option" where
  "enum_family platform =
     (case platform of
        None \<Rightarrow> None
      | Some p \<Rightarrow> if of_int \<lfloor>p\<rfloor> = p then map_of PLATFORM_ENUM_FAMILY \<lfloor>p\<rfloor> else None)"

text \<open>The bracket characters \<open>(\<close>, \<open>)\<close> in both widths and the contents of all bracket blocks.\<close>

definition paren_open :: "nat \<Rightarrow> bool" where
  "paren_open c \<longleftrightarrow> c = 65288 \<or> c = 40"

definition paren_close :: "nat \<Rightarrow> bool" where
  "paren_close c \<longleftrightarrow> c = 65289 \<or> c = 41"

definition not_paren :: "nat \<Rightarrow> bool" where
  "not_paren c \<longleftrightarrow> \<not> paren_open c \<and> \<not> paren_close c"

function paren_chunks :: "utext \<Rightarrow> utext list" where
  "paren_chunks [] = []"
| "paren_chunks (c # t) =
     (if paren_open c
      then (case dropWhile not_paren t of
              [] \<Rightarrow> paren_chunks t
            | x # r \<Rightarrow> if paren_close x then takeWhile not_paren t # paren_chunks r else paren_chunks t)
      else paren_chunks t)"
  by pat_completeness auto
termination
proof (relation "measure length")
  fix c :: nat and t x r
  assume "dropWhile not_paren t = x # r"
  then have "length (x # r) \<le> length t" by (metis length_dropWhile_le)
  then show "(r, c # t) \<in> measure length" by simp
qed simp_all

definition families_in :: "utext \<Rightarrow> utext list" where
  "families_in scope =
     map pa_family (filter (\<lambda>entry. list_ex (text_includes scope) (pa_aliases entry)) PLATFORM_FAMILY_ALIASES)"

definition option_list :: "'a option \<Rightarrow> 'a list" where
  "option_list x = (case x of None \<Rightarrow> [] | Some y \<Rightarrow> [y])"

definition resourcePlatformFamilies :: "js_runtime \<Rightarrow> resource_identity \<Rightarrow> utext list" where
  "resourcePlatformFamilies js input =
     option_list (enum_family (ri_platform input)) @
     concat (map families_in (paren_chunks (ri_name input) @ [ri_name input])) @
     option_list (citationPlatformFamily js (ri_entranceLink input))"

definition primaryPlatformFamily :: "js_runtime \<Rightarrow> resource_identity \<Rightarrow> utext option" where
  "primaryPlatformFamily js input =
     (case enum_family (ri_platform input) of
        Some family \<Rightarrow> Some family
      | None \<Rightarrow>
          (case citationPlatformFamily js (ri_entranceLink input) of
             Some family \<Rightarrow> Some family
           | None \<Rightarrow>
               (case concat (map families_in (rev (paren_chunks (ri_name input)))) of
                  [] \<Rightarrow> None | family # _ \<Rightarrow> Some family)))"

definition cleanResourceDomains :: "js_runtime \<Rightarrow> utext option \<Rightarrow> utext option \<Rightarrow> utext list" where
  "cleanResourceDomains js entranceLink caseLink =
     js_unique (concat (map (\<lambda>url. if isMultiTenantPlatformUrl js url then [] else option_list (registeredDomain js url))
       [entranceLink, caseLink]))"

section \<open>Accounts in URLs and titles\<close>

record account_key =
  ak_platform :: utext
  ak_accountId :: utext

text \<open>A literal followed by at least \<open>n\<close> characters of a class, as many as there are.\<close>

definition run_after :: "utext \<Rightarrow> (nat \<Rightarrow> bool) \<Rightarrow> nat \<Rightarrow> utext \<Rightarrow> utext option" where
  "run_after literal cls n t =
     (case strip_prefix literal t of
        None \<Rightarrow> None
      | Some r \<Rightarrow> let w = takeWhile cls r in if n \<le> length w then Some w else None)"

text \<open>\<open>/a/(digits)_(four or more digits)\<close>\<close>

definition sohu_mark :: "utext \<Rightarrow> utext option" where
  "sohu_mark t =
     (case strip_prefix (ascii ''/a/'') t of
        None \<Rightarrow> None
      | Some r \<Rightarrow>
          if takeWhile digit_char r = [] then None
          else run_after [95] digit_char 4 (dropWhile digit_char r))"

definition sina_mark :: "utext \<Rightarrow> utext option" where
  "sina_mark t =
     (case run_after (ascii ''article_'') digit_char 6 t of
        Some w \<Rightarrow> Some w
      | None \<Rightarrow> run_after (ascii ''article/'') digit_char 6 t)"

definition token_char :: "nat \<Rightarrow> bool" where
  "token_char c \<longleftrightarrow> word_char c \<or> c = 45"

text \<open>
  The path of a sina page is decoded before it is searched; \<open>None\<close> is the \<open>URIError\<close> of a malformed
  escape, which nothing on the way catches.
\<close>

definition accountKeyFromUrl :: "js_runtime \<Rightarrow> utext option \<Rightarrow> account_key option option" where
  "accountKeyFromUrl js url =
     (case url of
        None \<Rightarrow> Some None
      | Some u \<Rightarrow>
          if u = [] then Some None
          else case jr_url js u of
                 None \<Rightarrow> Some None
               | Some parsed \<Rightarrow>
                   let hostname = bare_host js (up_hostname parsed);
                       key = (\<lambda>platform. map_option (\<lambda>i. \<lparr>ak_platform = platform, ak_accountId = i\<rparr>));
                       sohu = if host_within hostname (ascii ''sohu.com'')
                              then key [25628, 29392] (first_match sohu_mark (up_pathname parsed)) else None;
                       rest =
                         (let appId = if hostname = ascii ''baijiahao.baidu.com''
                                      then map_of (up_params parsed) (ascii ''app_id'') else None;
                              baijia = (case appId of
                                          None \<Rightarrow> None
                                        | Some i \<Rightarrow> if 4 \<le> length i \<and> list_all digit_char i then Some i else None);
                              toutiao = if host_within hostname (ascii ''toutiao.com'')
                                        then (case first_match (run_after (ascii ''/c/user/token/'') token_char 8)
                                                     (up_pathname parsed) of
                                                Some w \<Rightarrow> Some w
                                              | None \<Rightarrow> first_match (run_after (ascii ''/c/user/'') digit_char 5)
                                                         (up_pathname parsed))
                                        else None;
                              biz = if hostname = ascii ''mp.weixin.qq.com''
                                    then map_of (up_params parsed) (ascii ''__biz'') else None
                          in case baijia of
                               Some i \<Rightarrow> key [30334, 23478, 21495] (Some i)
                             | None \<Rightarrow>
                                 (case toutiao of
                                    Some i \<Rightarrow> key [20170, 26085, 22836, 26465] (Some i)
                                  | None \<Rightarrow>
                                      (case biz of
                                         Some b \<Rightarrow> if 8 \<le> utf16_length b then key [33150,
                                           35759] (Some b) else None
                                       | None \<Rightarrow> None)))
                   in if sohu \<noteq> None then Some sohu
                      else if text_suffix (ascii ''sina.com.cn'') hostname \<or> text_suffix (ascii ''sina.cn'') hostname
                      then (case jr_decode js (up_pathname parsed) of
                              None \<Rightarrow> None
                            | Some path \<Rightarrow>
                                (case first_match sina_mark path of
                                   Some i \<Rightarrow> Some (key [26032, 28010] (Some i))
                                 | None \<Rightarrow>
                                     (case first_match (run_after (ascii ''articles/view/'') digit_char 6) path of
                                        Some i \<Rightarrow> Some (key [26032, 28010] (Some i))
                                      | None \<Rightarrow> Some rest)))
                      else Some rest)"

text \<open>The chain of trailing segments, each after one of the three separators, from the reversed text.\<close>

definition chain_sep :: "nat \<Rightarrow> bool" where
  "chain_sep c \<longleftrightarrow> c = 95 \<or> c = 65372 \<or> c = 124"

definition chain_char :: "nat \<Rightarrow> bool" where
  "chain_char c \<longleftrightarrow> \<not> js_space c \<and> \<not> chain_sep c \<and> c \<noteq> 183"

function chain_back :: "utext \<Rightarrow> utext list" where
  "chain_back r =
     (if takeWhile chain_char r = [] then []
      else case dropWhile chain_char r of
             [] \<Rightarrow> []
           | c # r' \<Rightarrow> if chain_sep c then chain_back r' @ [rev (takeWhile chain_char r)] else [])"
  by pat_completeness auto
termination
proof (relation "measure length")
  fix r r' :: utext and c
  assume "dropWhile chain_char r = c # r'"
  then have "length (c # r') \<le> length r" by (metis length_dropWhile_le)
  then show "(r', r) \<in> measure length" by simp
qed simp

declare chain_back.simps [simp del]

definition accountNameFromTitle :: "utext \<Rightarrow> utext option" where
  "accountNameFromTitle title =
     (let segments = chain_back (dropWhile js_space (rev title))
      in if segments = [] then None
         else let name = js_trim (last segments); width = length name
              in if name = [] then None
                 else if width < 2 \<or> 30 < width then None
                 else if list_all (\<lambda>c. digit_char c \<or> js_space c) name then None
                 else if 2 \<le> length segments \<and> width < 3 then None
                 else Some name)"

definition site_sep :: "nat \<Rightarrow> bool" where
  "site_sep c \<longleftrightarrow> c = 45 \<or> c = 8211 \<or> c = 8212"

definition site_char :: "nat \<Rightarrow> bool" where
  "site_char c \<longleftrightarrow>
     \<not> js_space c \<and> \<not> site_sep c \<and> c \<notin> {124, 95, 44, 65292, 12290, 65307, 183, 58, 65306}"

definition siteNameFromTitleSuffix :: "utext \<Rightarrow> utext option" where
  "siteNameFromTitleSuffix title =
     (let r = rev title; name = rev (takeWhile site_char r)
      in case dropWhile site_char r of
           b # dash # a # _ \<Rightarrow>
             if b \<in> {32, 9} \<and> site_sep dash \<and> a \<in> {32, 9} \<and>
                2 \<le> utf16_length name \<and> utf16_length name \<le> 16 \<and>
                \<not> list_all (\<lambda>c. digit_char c \<or> c = 46) name
             then Some name else None
         | _ \<Rightarrow> None)"

section \<open>Channel names\<close>

text \<open>The name without trailing bracket blocks; the loop keeps the last name that is not empty.\<close>

definition strip_paren :: "utext \<Rightarrow> utext" where
  "strip_paren t = js_trim (strip_block {65288, 40} {65289, 41} t)"

lemma length_strip_paren: "strip_paren t = t \<or> length (strip_paren t) < length t"
  unfolding strip_paren_def by (rule shrink_trans [OF length_strip_block length_js_trim])

function strip_paren_loop :: "utext \<Rightarrow> utext" where
  "strip_paren_loop core =
     (let stripped = strip_paren core
      in if stripped = core \<or> stripped = [] then core else strip_paren_loop stripped)"
  by auto
termination
  by (relation "measure length") (use length_strip_paren in auto)

declare strip_paren_loop.simps [simp del]

definition channelNameCore :: "utext \<Rightarrow> utext" where
  "channelNameCore name = strip_paren_loop (js_trim name)"

definition channelNameCoreAll :: "utext \<Rightarrow> utext" where
  "channelNameCoreAll name = strip_loop (js_trim name)"

definition family_core :: "js_runtime \<Rightarrow> utext \<Rightarrow> utext" where
  "family_core js name = jr_lower js (js_trim (channelNameCoreAll name))"

text \<open>The content of the bracket block at the end.\<close>

definition lastParenSuffix :: "utext \<Rightarrow> utext option" where
  "lastParenSuffix name =
     (case dropWhile js_space (rev name) of
        [] \<Rightarrow> None
      | c # r \<Rightarrow>
          if paren_close c
          then (case dropWhile not_paren r of
                  [] \<Rightarrow> None | x # _ \<Rightarrow> if paren_open x then Some (rev (takeWhile not_paren r)) else None)
          else None)"

definition variantFamilyKey :: "js_runtime \<Rightarrow> resource_identity \<Rightarrow> utext" where
  "variantFamilyKey js resource =
     family_core js (ri_name resource) @ [124] @
     (case primaryPlatformFamily js resource of None \<Rightarrow> ascii ''own'' | Some family \<Rightarrow> family)"

definition QUALIFIER_SUFFIX_CORE_THRESHOLD :: nat where
  "QUALIFIER_SUFFIX_CORE_THRESHOLD = 10"

definition suffix_core_pairs :: "js_runtime \<Rightarrow> utext list \<Rightarrow> (utext \<times> utext) list" where
  "suffix_core_pairs js names =
     concat (map (\<lambda>name. case lastParenSuffix name of
         None \<Rightarrow> []
       | Some suffix \<Rightarrow>
           if suffix = [] \<or> family_core js name = [] then [] else [(suffix, family_core js name)]) names)"

definition buildQualifierSuffixes :: "js_runtime \<Rightarrow> utext list \<Rightarrow> utext list" where
  "buildQualifierSuffixes js names =
     (let pairs = suffix_core_pairs js names
      in filter (\<lambda>suffix. QUALIFIER_SUFFIX_CORE_THRESHOLD \<le>
                   length (js_unique (map snd (filter (\<lambda>p. fst p = suffix) pairs))))
           (js_unique (map fst pairs)))"

definition packKeyOf :: "utext \<Rightarrow> utext list \<Rightarrow> utext" where
  "packKeyOf name qualifierSuffixes =
     (case lastParenSuffix name of
        None \<Rightarrow> ascii ''default''
      | Some suffix \<Rightarrow>
          if suffix \<noteq> [] \<and> suffix \<notin> set qualifierSuffixes then suffix else ascii ''default'')"

definition normalizeChannelName :: "js_runtime \<Rightarrow> utext \<Rightarrow> utext" where
  "normalizeChannelName js value =
     collapse_spaces (map (\<lambda>c. if c = 65288 then 40 else if c = 65289 then 41 else c)
       (jr_lower js (js_trim value)))"

text \<open>
  The listings of random accounts: one of six words, or a number before the word for a household
  (\<open>suite 5 homes\<close>, \<open>5 homes media\<close>, \<open>5 homes suite\<close>), with white space between.
\<close>

definition number_then_home :: "utext \<Rightarrow> utext option" where
  "number_then_home t =
     (if takeWhile digit_char t = [] then None
      else strip_prefix [23478] (dropWhile js_space (dropWhile digit_char t)))"

definition junk_here :: "utext \<Rightarrow> unit option" where
  "junk_here t =
     (if list_ex (\<lambda>w. text_prefix w t) [[38543, 26426], [25171, 21253], [21315, 31881], [30334,
       31881], [27700, 20891]] \<or>
         (case strip_prefix [22871, 39184] t of
            None \<Rightarrow> False | Some r \<Rightarrow> number_then_home (dropWhile js_space r) \<noteq> None) \<or>
         (case number_then_home t of
            None \<Rightarrow> False | Some r \<Rightarrow> text_prefix [23186, 20307] r \<or> text_prefix
              [22871, 39184] r)
      then Some () else None)"

definition isJunkResaleListing :: "utext \<Rightarrow> bool" where
  "isJunkResaleListing name \<longleftrightarrow> first_match junk_here name \<noteq> None"

definition accountNameMatchesChannel ::
  "js_runtime \<Rightarrow> utext \<Rightarrow> utext option \<Rightarrow> utext \<Rightarrow> utext list \<Rightarrow> bool" where
  "accountNameMatchesChannel js accountName citationPlatform resourceName resourceFamilies =
     (let account = jr_lower js (js_trim accountName);
          core = jr_lower js (js_trim (channelNameCore resourceName))
      in 2 \<le> utf16_length account \<and>
         (case citationPlatform of None \<Rightarrow> False | Some p \<Rightarrow> p \<noteq> [] \<and> p \<in> set resourceFamilies) \<and>
         2 \<le> utf16_length core \<and> (text_includes core account \<or> text_includes account core))"

section \<open>Name scores\<close>

definition SUFFIX_STRIP :: "utext list" where
  "SUFFIX_STRIP = [[38376, 25143], [32593], [24179, 21488], [23448, 32593], [39318, 39029], [39057, 36947],
    [20013, 24515], [22312, 32447]]"

definition strip_suffix :: "utext \<Rightarrow> utext \<Rightarrow> utext" where
  "strip_suffix result suffix =
     (if text_suffix suffix result \<and> length suffix + 1 < utf16_length result
      then take (length result - length suffix) result else result)"

definition stripSuffixes :: "utext \<Rightarrow> utext" where
  "stripSuffixes name = foldl strip_suffix name SUFFIX_STRIP"

definition cjk_char :: "nat \<Rightarrow> bool" where
  "cjk_char c \<longleftrightarrow> 19968 \<le> c \<and> c \<le> 40959"

definition jaccard_tokens :: "utext \<Rightarrow> utext" where
  "jaccard_tokens t = js_unique (filter (\<lambda>c. cjk_char c \<or> 97 \<le> c \<and> c \<le> 122 \<or> digit_char c) t)"

definition jaccardCJK :: "utext \<Rightarrow> utext \<Rightarrow> rat" where
  "jaccardCJK a b =
     (let ta = jaccard_tokens a; tb = jaccard_tokens b
      in if ta = [] \<or> tb = [] then 0
         else let inter = length (filter (\<lambda>t. t \<in> set tb) ta)
              in of_nat inter / of_nat (length ta + length tb - inter))"

definition brand_joint :: "nat \<Rightarrow> bool" where
  "brand_joint c \<longleftrightarrow> c = 183 \<or> c = 45 \<or> js_space c \<or> c = 58 \<or> c = 95"

definition stripBrand :: "js_runtime \<Rightarrow> utext \<Rightarrow> utext \<Rightarrow> utext" where
  "stripBrand js name brand =
     (if brand = [] then name
      else let lower = jr_lower js name
           in js_trim (dropWhile brand_joint
                (case strip_prefix (jr_lower js brand) lower of Some r \<Rightarrow> r | None \<Rightarrow> lower)))"

definition NOISE_CHARS :: utext where
  "NOISE_CHARS =
     filter (\<lambda>c. \<not> js_space c)
       [39057, 36947, 32593, 21495, 23448, 26041, 19987, 21306, 26495, 22359, 39318, 32, 21457, 24555,
         35759, 35270, 39057, 38376, 25143, 24179, 21488, 31449, 28857, 22312, 32447, 36164, 35759, 23186,
         20307, 20869, 23481, 32508, 21512]"

definition channel_chars :: "utext \<Rightarrow> utext" where
  "channel_chars t = js_unique (filter (\<lambda>c. cjk_char c \<and> c \<notin> set NOISE_CHARS) t)"

definition shared_ratio :: "utext \<Rightarrow> utext \<Rightarrow> rat" where
  "shared_ratio chars t = of_nat (length (filter (\<lambda>c. c \<in> set t) chars)) / of_nat (length chars)"

record recall_source =
  src_title :: utext
  src_url :: "utext option"
  src_articleIds :: "utext list option"
  src_reason :: "utext option"

definition source_brand :: "js_runtime \<Rightarrow> recall_source \<Rightarrow> utext option" where
  "source_brand js source =
     (case domainToBrand js (src_url source) of
        Some b \<Rightarrow> Some b | None \<Rightarrow> brandFromPlainText js (src_title source))"

definition name_scope :: "js_runtime \<Rightarrow> bool \<Rightarrow> utext \<Rightarrow> utext" where
  "name_scope js multiTenant resourceName =
     (if multiTenant then channelNameCore (jr_lower js resourceName) else jr_lower js resourceName)"

text \<open>
  The branch of both scores for a source whose brand the name contains: a score when the channel
  parts agree, otherwise the fall back of the brand. The graded part differs between the callers.
\<close>

definition brand_score ::
  "(rat \<Rightarrow> rat option) \<Rightarrow> js_runtime \<Rightarrow> recall_source \<Rightarrow> utext \<Rightarrow> bool \<Rightarrow> utext \<Rightarrow> rat" where
  "brand_score graded js source resourceName multiTenant brand =
     (let resLower = jr_lower js resourceName;
          srcLower = jr_lower js (src_title source);
          scope = name_scope js multiTenant resourceName;
          fallback = (if multiTenant then 0 else 1 / 2);
          srcChannel = stripBrand js (src_title source) brand
      in if srcChannel = [] then fallback
         else let resChannel = stripBrand js scope brand
              in if resChannel = [] \<or> srcChannel = resChannel \<or> srcLower = resLower \<or>
                    text_includes resLower srcLower \<or> text_includes srcLower resLower
                 then 1
                 else let srcChars = channel_chars srcChannel
                      in if srcChars = [] then fallback
                         else (case graded (shared_ratio srcChars resLower) of Some x \<Rightarrow> x | None \<Rightarrow> fallback))"

definition fuzzy_graded :: "rat \<Rightarrow> rat option" where
  "fuzzy_graded ratio =
     (if 4 / 5 \<le> ratio then Some (9 / 10)
      else if 1 / 2 \<le> ratio then Some (4 / 5)
      else if 0 < ratio then Some (1 / 2 + 3 / 10 * ratio) else None)"

definition active_graded :: "rat \<Rightarrow> rat option" where
  "active_graded ratio =
     (if 4 / 5 \<le> ratio then Some (9 / 10) else if 1 / 2 \<le> ratio then Some (4 / 5) else None)"

definition source_domain_lower :: "js_runtime \<Rightarrow> recall_source \<Rightarrow> utext" where
  "source_domain_lower js source =
     jr_lower js (case registeredDomain js (src_url source) of None \<Rightarrow> [] | Some d \<Rightarrow> d)"

text \<open>The four containments that both scores try first.\<close>

definition contained_outright :: "js_runtime \<Rightarrow> recall_source \<Rightarrow> utext \<Rightarrow> bool" where
  "contained_outright js source scope \<longleftrightarrow>
     (let domainLower = source_domain_lower js source; srcLower = jr_lower js (src_title source)
      in domainLower \<noteq> [] \<and> text_includes scope domainLower \<or>
         domainLower \<noteq> [] \<and> text_includes domainLower scope \<or>
         srcLower \<noteq> [] \<and> text_includes scope srcLower \<or>
         srcLower \<noteq> [] \<and> text_includes srcLower scope \<and> 2 \<le> utf16_length scope)"

definition fuzzyMatchScore :: "js_runtime \<Rightarrow> recall_source \<Rightarrow> utext \<Rightarrow> bool \<Rightarrow> rat" where
  "fuzzyMatchScore js source resourceName multiTenant =
     (let scope = name_scope js multiTenant resourceName;
          srcLower = jr_lower js (src_title source);
          branded = (case source_brand js source of
                       None \<Rightarrow> None
                     | Some b \<Rightarrow> if text_includes scope (jr_lower js b) then Some b else None)
      in case branded of
           Some b \<Rightarrow> brand_score fuzzy_graded js source resourceName multiTenant b
         | None \<Rightarrow>
             if contained_outright js source scope then 1
             else let strippedRes = stripSuffixes scope; strippedSrc = stripSuffixes srcLower;
                      domainLower = source_domain_lower js source
                  in if domainLower \<noteq> [] \<and> strippedRes \<noteq> [] \<and> text_includes domainLower strippedRes then 4 / 5
                     else if strippedSrc \<noteq> [] \<and> strippedRes \<noteq> [] \<and> text_includes strippedRes strippedSrc then 4 / 5
                     else let j = jaccardCJK (src_title source) scope
                          in if 1 / 2 \<le> j then (if 4 / 5 < j then 7 / 10 else 1 / 2)
                             else let js' = jaccardCJK strippedSrc strippedRes
                                  in if 2 / 5 \<le> js' then (if 7 / 10 < js' then 3 / 5 else 2 / 5) else 0)"

fun common_prefix :: "utext \<Rightarrow> utext \<Rightarrow> nat" where
  "common_prefix (a # s) (b # t) = (if a = b then Suc (common_prefix s t) else 0)"
| "common_prefix _ _ = 0"

definition activeNameMatchScore :: "js_runtime \<Rightarrow> recall_source \<Rightarrow> utext \<Rightarrow> bool \<Rightarrow> rat" where
  "activeNameMatchScore js source resourceName multiTenant =
     (let scope = name_scope js multiTenant resourceName;
          srcLower = jr_lower js (src_title source);
          branded = (case source_brand js source of
                       None \<Rightarrow> None
                     | Some b \<Rightarrow> if text_includes scope (jr_lower js b) then Some b else None)
      in case branded of
           Some b \<Rightarrow> brand_score active_graded js source resourceName multiTenant b
         | None \<Rightarrow>
             if contained_outright js source scope then 1
             else let strippedRes = stripSuffixes scope; strippedSrc = stripSuffixes srcLower
                  in if strippedSrc = [] \<or> strippedRes = [] then 0
                     else if text_includes strippedRes strippedSrc then 4 / 5
                     else if 4 \<le> common_prefix strippedSrc strippedRes then 4 / 5 else 0)"

text \<open>The strict score looks at the raw URL, and takes the title for one as well.\<close>

definition strictMatchScore :: "js_runtime \<Rightarrow> recall_source \<Rightarrow> utext \<Rightarrow> rat" where
  "strictMatchScore js source resourceName =
     (let srcDomain = (case src_url source of None \<Rightarrow> [] | Some u \<Rightarrow> u);
          resLower = jr_lower js resourceName;
          srcLower = jr_lower js (src_title source);
          domainLower = jr_lower js srcDomain;
          brand = (case domainToBrand js (Some srcDomain) of
                     Some b \<Rightarrow> Some b | None \<Rightarrow> domainToBrand js (Some (src_title source)))
      in if (case brand of None \<Rightarrow> False | Some b \<Rightarrow> text_includes resLower (jr_lower js b)) then 1
         else if domainLower \<noteq> [] \<and> text_includes resLower domainLower then 1
         else if domainLower \<noteq> [] \<and> text_includes domainLower resLower then 1
         else if srcLower \<noteq> [] \<and> text_includes resLower srcLower then 1
         else let strippedRes = stripSuffixes resLower; strippedSrc = stripSuffixes srcLower
              in if domainLower \<noteq> [] \<and> strippedRes \<noteq> [] \<and> text_includes domainLower strippedRes then 4 / 5
                 else if strippedSrc \<noteq> [] \<and> strippedRes \<noteq> [] \<and> text_includes strippedRes strippedSrc then 4 / 5
                 else 0)"

section \<open>Official accounts of a platform\<close>

definition family_aliases :: "utext \<Rightarrow> utext list" where
  "family_aliases family =
     (case find (\<lambda>entry. pa_family entry = family) PLATFORM_FAMILY_ALIASES of
        None \<Rightarrow> [] | Some entry \<Rightarrow> pa_aliases entry)"

definition platformOfficialFamily :: "js_runtime \<Rightarrow> resource_identity \<Rightarrow> utext option" where
  "platformOfficialFamily js resource =
     (case ri_entranceLink resource of
        None \<Rightarrow> None
      | Some link \<Rightarrow>
          if link = [] then None
          else case jr_url js link of
                 None \<Rightarrow> None
               | Some parsed \<Rightarrow>
                   if \<not> list_all (\<lambda>c. c = 47) (up_pathname parsed) then None
                   else case citationPlatformFamily js (Some link) of
                          None \<Rightarrow> None
                        | Some family \<Rightarrow>
                            if isMultiTenantPlatformUrl js (Some link) \<and>
                               list_ex (text_includes (channelNameCore (ri_name resource))) (family_aliases family)
                            then Some family else None)"

definition officialChannelAligned :: "js_runtime \<Rightarrow> recall_source \<Rightarrow> utext \<Rightarrow> bool" where
  "officialChannelAligned js source resourceName =
     (case domainToBrand js (src_url source) of
        None \<Rightarrow> True
      | Some brand \<Rightarrow>
          let srcChannel = stripBrand js (src_title source) brand;
              resChannel = stripBrand js (jr_lower js (channelNameCore resourceName)) brand;
              srcChars = channel_chars srcChannel
          in srcChannel = [] \<or> resChannel = [] \<or>
             text_includes resChannel srcChannel \<or> text_includes srcChannel resChannel \<or>
             srcChars = [] \<or> 4 / 5 \<le> shared_ratio srcChars resChannel)"

section \<open>Domains of the pool\<close>

record link_resource =
  lr_name :: utext
  lr_entranceLink :: "utext option"
  lr_caseLink :: "utext option"

definition lr_domains :: "js_runtime \<Rightarrow> link_resource \<Rightarrow> utext list" where
  "lr_domains js r = cleanResourceDomains js (lr_entranceLink r) (lr_caseLink r)"

definition shown_name :: "utext \<Rightarrow> utext" where
  "shown_name name = (let core = js_trim (channelNameCore name) in if core = [] then js_trim name else core)"

text \<open>The entry of a domain in \<open>buildPoolDomainNameMap\<close>.\<close>

definition poolDomainName :: "js_runtime \<Rightarrow> link_resource list \<Rightarrow> utext \<Rightarrow> utext option" where
  "poolDomainName js resources domain =
     (case js_unique (map (\<lambda>r. shown_name (lr_name r))
             (filter (\<lambda>r. domain \<in> set (lr_domains js r)) resources)) of
        [name] \<Rightarrow> Some name | _ \<Rightarrow> None)"

definition domain_cores :: "js_runtime \<Rightarrow> link_resource list \<Rightarrow> utext \<Rightarrow> utext list" where
  "domain_cores js resources domain =
     js_unique (map (\<lambda>r. family_core js (lr_name r))
       (filter (\<lambda>r. family_core js (lr_name r) \<noteq> [] \<and> domain \<in> set (lr_domains js r)) resources))"

definition contains_either :: "utext list \<Rightarrow> nat \<times> nat \<Rightarrow> bool" where
  "contains_either cores = (\<lambda>(i, j). text_includes (cores ! i) (cores ! j) \<or> text_includes (cores ! j) (cores ! i))"

definition cores_unambiguous :: "utext list \<Rightarrow> bool option" where
  "cores_unambiguous cores =
     (if length cores \<le> 1 then Some True
      else let indices = [0..<length cores]
           in map_option (\<lambda>roots. length (remdups roots) = 1)
                (cluster_roots (filter (contains_either cores) (later_pairs indices)) indices))"

text \<open>Membership of a domain in \<open>buildUnambiguousDomains\<close>; \<open>None\<close> is a search that never ends.\<close>

definition domain_unambiguous :: "js_runtime \<Rightarrow> link_resource list \<Rightarrow> utext \<Rightarrow> bool option" where
  "domain_unambiguous js resources domain =
     (let cores = domain_cores js resources domain
      in if cores = [] then Some False else cores_unambiguous cores)"

section \<open>The preference list\<close>

record pref_channel =
  pc_name :: utext
  pc_domain :: "utext option"
  pc_exact :: bool
  pc_kind :: "publish_order_kind option"
  pc_resourceId :: "int option"

record pref_settings =
  ps_additional :: "pref_channel list"
  ps_excluded :: "utext list"

definition is_excluded :: "js_runtime \<Rightarrow> utext list \<Rightarrow> pref_channel \<Rightarrow> bool" where
  "is_excluded js excluded entry \<longleftrightarrow>
     jr_lower js (js_trim (pc_name entry)) \<in> set (map (\<lambda>e. jr_lower js (js_trim e)) excluded) \<or>
     (case pc_domain entry of
        None \<Rightarrow> False
      | Some d \<Rightarrow> jr_lower js (js_trim d) \<in> set (map (\<lambda>e. jr_lower js (js_trim e)) excluded))"

definition additional_entry :: "pref_channel \<Rightarrow> pref_channel" where
  "additional_entry entry =
     \<lparr>pc_name = js_trim (pc_name entry),
      pc_domain = (case pc_domain entry of
                     None \<Rightarrow> None | Some d \<Rightarrow> if js_trim d = [] then None else Some (js_trim d)),
      pc_exact = pc_exact entry, pc_kind = None, pc_resourceId = None\<rparr>"

definition entry_ref :: "pref_channel \<Rightarrow> (publish_order_kind \<times> int) option" where
  "entry_ref entry = (case (pc_kind entry, pc_resourceId entry) of (Some k, Some i) \<Rightarrow> Some (k, i) | _ \<Rightarrow> None)"

fun merge_bound :: "pref_channel list \<Rightarrow> (publish_order_kind \<times> int) list \<Rightarrow> pref_channel list" where
  "merge_bound [] seen = []"
| "merge_bound (e # entries) seen =
     (case entry_ref e of
        None \<Rightarrow> merge_bound entries seen
      | Some ref \<Rightarrow> if ref \<in> set seen then merge_bound entries seen else e # merge_bound entries (ref # seen))"

definition named_entry :: "pref_channel \<Rightarrow> pref_channel" where
  "named_entry e = e\<lparr>pc_kind := None, pc_resourceId := None\<rparr>"

definition entry_domain_key :: "js_runtime \<Rightarrow> pref_channel \<Rightarrow> utext option" where
  "entry_domain_key js e =
     (case pc_domain e of
        None \<Rightarrow> None
      | Some d \<Rightarrow>
          if d = [] then None
          else case registeredDomain js (Some d) of
                 Some r \<Rightarrow> Some r
               | None \<Rightarrow> if jr_lower js d = [] then None else Some (jr_lower js d))"

fun merge_named ::
  "js_runtime \<Rightarrow> utext list \<Rightarrow> pref_channel list \<Rightarrow> utext list \<Rightarrow> utext list \<Rightarrow> pref_channel list" where
  "merge_named js boundCores [] seenName seenDomain = []"
| "merge_named js boundCores (e # entries) seenName seenDomain =
     (if entry_ref e \<noteq> None then merge_named js boundCores entries seenName seenDomain
      else let nameKey = jr_lower js (pc_name e); reg = entry_domain_key js e; core = family_core js (pc_name e)
           in if nameKey \<in> set seenName \<or> (case reg of None \<Rightarrow> False | Some r \<Rightarrow> r \<in> set seenDomain) \<or>
                 core \<noteq> [] \<and> core \<in> set boundCores
              then merge_named js boundCores entries seenName seenDomain
              else named_entry e # merge_named js boundCores entries (nameKey # seenName) (option_list reg @ seenDomain))"

definition effective_entries :: "js_runtime \<Rightarrow> pref_channel list \<Rightarrow> pref_settings \<Rightarrow> pref_channel list" where
  "effective_entries js base settings =
     filter (\<lambda>e. \<not> is_excluded js (ps_excluded settings) e) base @
     map additional_entry (filter (\<lambda>e. js_trim (pc_name e) \<noteq> []) (ps_additional settings))"

definition resolvePreferenceChannels ::
  "js_runtime \<Rightarrow> pref_channel list \<Rightarrow> pref_settings \<Rightarrow> pref_channel list" where
  "resolvePreferenceChannels js base settings =
     (let entries = effective_entries js base settings;
          bound = merge_bound entries [];
          boundCores = filter (\<lambda>c. c \<noteq> []) (map (\<lambda>e. family_core js (pc_name e)) bound)
      in bound @ merge_named js boundCores entries [] [])"

definition preferenceEntryMatches :: "js_runtime \<Rightarrow> pref_channel \<Rightarrow> resource_identity \<Rightarrow> bool" where
  "preferenceEntryMatches js entry resource =
     (if pc_resourceId entry \<noteq> None
      then ri_id resource = pc_resourceId entry \<and> ri_kind resource = pc_kind entry
      else if (case pc_domain entry of
                 None \<Rightarrow> False
               | Some d \<Rightarrow>
                   d \<noteq> [] \<and> registeredDomain js (Some d) \<noteq> None \<and>
                   registeredDomain js (Some d) = registeredDomain js (ri_entranceLink resource))
      then True
      else if pc_exact entry
      then normalizeChannelName js (channelNameCoreAll (pc_name entry)) =
           normalizeChannelName js (channelNameCoreAll (ri_name resource))
      else let source = \<lparr>src_title = pc_name entry, src_url = pc_domain entry, src_articleIds = None, src_reason = None\<rparr>
           in 0 < strictMatchScore js source (ri_name resource) \<or>
              2 / 5 \<le> fuzzyMatchScore js source (ri_name resource) False)"

definition MAX_RECALL_TOPICS :: nat where
  "MAX_RECALL_TOPICS = 20"

definition clampTopicNumbers :: "rat list \<Rightarrow> nat \<Rightarrow> rat list" where
  "clampTopicNumbers numbers topicCount =
     filter (\<lambda>v. of_int \<lfloor>v\<rfloor> = v \<and> 1 \<le> v \<and> v \<le> of_nat topicCount) numbers"

end
