(* ===== verification/Operation.thy ===== *)
theory Operation
  imports Prelude "HOL-Library.Multiset"
begin

text \<open>
  The planning policy of GEO operations, \<open>src/shared/geo/operation.ts\<close>, with the autonomy dial of
  \<open>src/shared/geo/autonomy.ts\<close>: which steps an intent composes, where they stop for confirmation,
  how steps are grouped into phases, and the intent of a free text. Titles and summaries are the
  code points of the Chinese texts. \<open>toLowerCase\<close> is the parameter \<open>lower\<close>.
\<close>

section \<open>Vocabulary\<close>

datatype geo_kind = KnowledgeUpdate | QuestionOpportunitiesIntent | ArticleGeneration | PerformanceInspection
  | DistributionPlanningIntent | PublishingIntent | MonitoringIntent | FullOptimization | NextRoundOptimization

datatype geo_status = OpReady | OpQueued | OpRunning | OpAwaitingConfirmation | OpPaused | OpRecovering
  | OpSucceeded | OpFailed | OpCancelled

datatype step_status = StepPending | StepReady | StepRunning | StepAwaitingConfirmation | StepSucceeded
  | StepFailed | StepSkipped

datatype geo_capability = BrandMaterialImport | BrandKnowledge | QuestionOpportunities | GeoObservation
  | ContentPlanning | ContentProduction | DistributionPlanning | Publishing | Monitoring | GeoDashboard

datatype reference_kind = RefKnowledgeVersion | RefMaterial | RefQuestionPool | RefBaseline | RefTopicPlan
  | RefArticleOperation | RefArticle | RefDistributionPlan | RefPublishExecution | RefMonitorPlan
  | RefOperation | RefReport

record geo_reference =
  gr_kind :: reference_kind
  gr_id :: string
  gr_revision :: "int option"

datatype retry_unit = RetryOperation | RetryArticle | RetryProbe | RetryPublishItem | RetryMonitorItem

datatype step_condition = IfEvidenceInsufficient | IfKnowledgeRefreshRequested

datatype confirmation_kind = PlanAck | KnowledgeChange | NextRoundKnowledge | QuestionSelection | BaselineProbe
  | TopicPlan | ArticleApproval | DistributionPlanConfirm | PaidPublish | ExternalPublish | MonitoringActivation

datatype confirmation_authority = GeoOperationAuthority | KnowledgeAuthority | BrandWorkspace | PublishScheduler
  | PostPublishMonitor

definition TERMINAL_GEO_OPERATION_STATUSES :: "geo_status list" where
  "TERMINAL_GEO_OPERATION_STATUSES = [OpSucceeded, OpFailed, OpCancelled]"

definition GEO_STEP_PAST_STATUSES :: "step_status list" where
  "GEO_STEP_PAST_STATUSES = [StepSucceeded, StepSkipped]"

definition RUST_UI_CONFIRMATION_AUTHORITIES :: "confirmation_authority list" where
  "RUST_UI_CONFIRMATION_AUTHORITIES = [PublishScheduler, PostPublishMonitor]"

record geo_confirmation =
  gc_kind :: confirmation_kind
  gc_authority :: confirmation_authority
  gc_title :: utext
  gc_summary :: utext

definition confirmation ::
  "confirmation_kind \<Rightarrow> confirmation_authority \<Rightarrow> utext \<Rightarrow> utext \<Rightarrow> geo_confirmation" where
  "confirmation kind authority title summary =
     \<lparr>gc_kind = kind, gc_authority = authority, gc_title = title, gc_summary = summary\<rparr>"

record geo_step =
  gs_id :: string
  gs_title :: utext
  gs_capability :: geo_capability
  gs_status :: step_status
  gs_requiresConfirmation :: bool
  gs_irreversible :: bool
  gs_retryUnit :: retry_unit
  gs_condition :: "step_condition option"
  gs_confirmation :: "geo_confirmation option"
  gs_progress :: "(int \<times> int) option"

definition currentGeoOperationStep :: "geo_step list \<Rightarrow> geo_step option" where
  "currentGeoOperationStep steps = List.find (\<lambda>s. gs_status s \<notin> set GEO_STEP_PAST_STATUSES) steps"

record step_definition =
  sd_id :: string
  sd_title :: utext
  sd_capability :: geo_capability
  sd_confirmation :: "geo_confirmation option"
  sd_irreversible :: "bool option"
  sd_retryUnit :: "retry_unit option"
  sd_condition :: "step_condition option"

definition step_of :: "step_definition \<Rightarrow> step_status \<Rightarrow> geo_step" where
  "step_of sd status =
     \<lparr>gs_id = sd_id sd, gs_title = sd_title sd, gs_capability = sd_capability sd, gs_status = status,
      gs_requiresConfirmation = sd_confirmation sd \<noteq> None, gs_irreversible = case_option False id (sd_irreversible sd),
      gs_retryUnit = case_option RetryOperation id (sd_retryUnit sd), gs_condition = sd_condition sd,
      gs_confirmation = sd_confirmation sd, gs_progress = None\<rparr>"

definition steps :: "step_definition list \<Rightarrow> geo_step list" where
  "steps definitions =
     map (\<lambda>(i, sd). step_of sd (if i = 0 then StepReady else StepPending)) (enumerate 0 definitions)"

section \<open>The step tables\<close>

definition KNOWLEDGE_STEPS :: "step_definition list" where
  "KNOWLEDGE_STEPS =
  [
   \<lparr>sd_id = ''collect-materials'', sd_title = [25910, 38598, 21697, 29260, 26448, 26009],
    sd_capability = BrandMaterialImport, sd_confirmation = None,
    sd_irreversible = None, sd_retryUnit = None, sd_condition = None\<rparr>,
   \<lparr>sd_id = ''extract-facts'', sd_title = [25552, 21462, 20505, 36873, 20107, 23454],
    sd_capability = BrandKnowledge, sd_confirmation = None,
    sd_irreversible = None, sd_retryUnit = None, sd_condition = None\<rparr>,
   \<lparr>sd_id = ''confirm-knowledge'', sd_title = [30830, 35748, 30693, 35782, 21464, 26356],
    sd_capability = BrandKnowledge, sd_confirmation = Some (confirmation KnowledgeChange KnowledgeAuthority
       [30830, 35748, 21697, 29260, 30693, 35782, 21464, 26356]
       [20505, 36873, 20107, 23454, 21644, 20914, 31361, 24517, 39035, 30001, 20320, 36880, 39033,
       35009, 20915, 65292, 30830, 35748, 21069, 19981, 20250, 20889, 20837, 26435, 23041, 30693,
       35782, 12290]),
    sd_irreversible = None, sd_retryUnit = None, sd_condition = None\<rparr>]"

definition QUESTION_STEPS :: "step_definition list" where
  "QUESTION_STEPS =
  [
   \<lparr>sd_id = ''generate-question-pool'', sd_title = [29983, 25104, 38382, 39064, 26426, 20250],
    sd_capability = QuestionOpportunities, sd_confirmation = None,
    sd_irreversible = None, sd_retryUnit = None, sd_condition = None\<rparr>,
   \<lparr>sd_id = ''confirm-question-selection'', sd_title = [30830, 35748, 38382, 39064, 36873, 25321],
    sd_capability = QuestionOpportunities, sd_confirmation = Some (confirmation QuestionSelection BrandWorkspace
       [30830, 35748, 38382, 39064, 36873, 25321]
       [21482, 26377, 26174, 24335, 36873, 20013, 30340, 38382, 39064, 20250, 36827, 20837, 21518,
       32493, 22522, 32447, 21644, 20869, 23481, 35268, 21010, 12290]),
    sd_irreversible = None, sd_retryUnit = None, sd_condition = None\<rparr>]"

definition CONTENT_STEPS :: "step_definition list" where
  "CONTENT_STEPS =
  [
   \<lparr>sd_id = ''plan-topics'', sd_title = [35268, 21010, 20027, 39064, 12289, 31867, 22411, 19982, 26631, 39064],
    sd_capability = ContentPlanning, sd_confirmation = None,
    sd_irreversible = None, sd_retryUnit = None, sd_condition = None\<rparr>,
   \<lparr>sd_id = ''confirm-content-plan'', sd_title = [30830, 35748, 20869, 23481, 35745, 21010],
    sd_capability = ContentPlanning, sd_confirmation = Some (confirmation TopicPlan BrandWorkspace
       [30830, 35748, 20869, 23481, 35745, 21010]
       [21482, 26377, 24050, 25209, 20934, 24182, 36873, 20013, 30340, 20027, 39064, 35745, 21010,
       39033, 20250, 36827, 20837, 25991, 31456, 29983, 25104, 12290]),
    sd_irreversible = None, sd_retryUnit = None, sd_condition = None\<rparr>,
   \<lparr>sd_id = ''generate-articles'', sd_title = [29983, 25104, 25991, 31456],
    sd_capability = ContentProduction, sd_confirmation = None,
    sd_irreversible = None, sd_retryUnit = Some RetryArticle, sd_condition = None\<rparr>,
   \<lparr>sd_id = ''confirm-articles'', sd_title = [30830, 35748, 25991, 31456],
    sd_capability = ContentProduction, sd_confirmation = Some (confirmation ArticleApproval BrandWorkspace
       [23457, 26680, 24182, 25209, 20934, 25991, 31456]
       [33609, 31295, 12289, 20107, 23454, 19982, 21452, 36136, 37327, 38376, 32467, 26524, 24517,
       39035, 30001, 20320, 23457, 26680, 65307, 25209, 20934, 21518, 20445, 23384, 19981, 21487,
       21464, 21382, 21490, 21103, 26412, 12290]),
    sd_irreversible = None, sd_retryUnit = Some RetryArticle, sd_condition = None\<rparr>]"

definition DIRECT_ARTICLE_STEPS :: "step_definition list" where
  "DIRECT_ARTICLE_STEPS = drop 2 CONTENT_STEPS"

definition DISTRIBUTION_STEPS :: "step_definition list" where
  "DISTRIBUTION_STEPS =
  [
   \<lparr>sd_id = ''plan-distribution'', sd_title = [21046, 23450, 20998, 21457, 35745, 21010],
    sd_capability = DistributionPlanning, sd_confirmation = None,
    sd_irreversible = None, sd_retryUnit = None, sd_condition = None\<rparr>,
   \<lparr>sd_id = ''confirm-distribution'', sd_title = [30830, 35748, 20998, 21457, 35745, 21010],
    sd_capability = DistributionPlanning, sd_confirmation = Some (confirmation DistributionPlanConfirm BrandWorkspace
       [30830, 35748, 20998, 21457, 35745, 21010]
       [35831, 30830, 35748, 25991, 31456, 12289, 28192, 36947, 12289, 39044, 31639, 19982, 21457,
       24067, 26102, 38388, 65307, 27492, 27493, 39588, 19981, 20250, 19979, 21333, 25110, 21457,
       24067, 12290]),
    sd_irreversible = None, sd_retryUnit = None, sd_condition = None\<rparr>]"

definition PUBLISH_STEPS :: "step_definition list" where
  "PUBLISH_STEPS =
  [
   \<lparr>sd_id = ''prepare-publish'', sd_title = [26680, 23545, 21457, 24067, 39033, 30446, 19982, 36153, 29992],
    sd_capability = Publishing, sd_confirmation = None,
    sd_irreversible = None, sd_retryUnit = None, sd_condition = None\<rparr>,
   \<lparr>sd_id = ''confirm-publish'', sd_title = [30830, 35748, 20184, 36153, 22806, 37096, 21457, 24067],
    sd_capability = Publishing, sd_confirmation = Some (confirmation PaidPublish PublishScheduler
       [30830, 35748, 20184, 36153, 22806, 37096, 21457, 24067]
       [20184, 36153, 12289, 19978, 20256, 21644, 22806, 37096, 21457, 24067, 21482, 33021, 22312,
       32, 80, 117, 98, 108, 105, 115, 104, 83, 99, 104, 101, 100, 117, 108, 101, 114, 32, 30340,
       29992, 25143, 30028, 38754, 30830, 35748, 65292, 65, 103, 101, 110, 116, 32, 26080, 26435,
       36328, 36234, 12290]),
    sd_irreversible = Some True, sd_retryUnit = Some RetryPublishItem, sd_condition = None\<rparr>,
   \<lparr>sd_id = ''observe-publish'', sd_title = [36319, 36394, 24050, 25480, 26435, 21457, 24067],
    sd_capability = Publishing, sd_confirmation = None,
    sd_irreversible = None, sd_retryUnit = Some RetryPublishItem, sd_condition = None\<rparr>]"

definition MONITOR_STEPS :: "step_definition list" where
  "MONITOR_STEPS =
  [
   \<lparr>sd_id = ''configure-monitoring'', sd_title = [37197, 32622, 21457, 24067, 21518, 30417, 27979],
    sd_capability = Monitoring, sd_confirmation = None,
    sd_irreversible = None, sd_retryUnit = None, sd_condition = None\<rparr>,
   \<lparr>sd_id = ''confirm-monitoring'', sd_title = [30830, 35748, 30417, 27979, 35745, 21010],
    sd_capability = Monitoring, sd_confirmation = Some (confirmation MonitoringActivation PostPublishMonitor
       [30830, 35748, 30417, 27979, 35745, 21010]
       [35831, 30830, 35748, 24341, 25806, 12289, 39057, 29575, 19982, 32467, 26463, 26465, 20214,
       65307, 28608, 27963, 21482, 33021, 30001, 29992, 25143, 30028, 38754, 23436, 25104, 12290]),
    sd_irreversible = None, sd_retryUnit = None, sd_condition = None\<rparr>,
   \<lparr>sd_id = ''collect-monitoring-evidence'', sd_title = [25910, 38598, 30495, 23454, 30417, 27979, 35777, 25454],
    sd_capability = Monitoring, sd_confirmation = None,
    sd_irreversible = None, sd_retryUnit = Some RetryMonitorItem, sd_condition = None\<rparr>,
   \<lparr>sd_id = ''report-monitoring'', sd_title = [29983, 25104, 35777, 25454, 21270, 25253, 21578],
    sd_capability = GeoDashboard, sd_confirmation = None,
    sd_irreversible = None, sd_retryUnit = None, sd_condition = None\<rparr>]"

definition FULL_OPTIMIZATION_STEPS :: "step_definition list" where
  "FULL_OPTIMIZATION_STEPS =
     KNOWLEDGE_STEPS @ QUESTION_STEPS @ CONTENT_STEPS @ DISTRIBUTION_STEPS @ PUBLISH_STEPS @ MONITOR_STEPS"

definition KNOWLEDGE_SEGMENT_STEP_IDS :: "string list" where
  "KNOWLEDGE_SEGMENT_STEP_IDS = map sd_id KNOWLEDGE_STEPS"

datatype geo_phase = PhaseKnowledge | PhaseQuestions | PhaseContent | PhaseDistribution | PhasePublishing
  | PhaseMonitoring

definition GEO_OPERATION_PHASE_ID_ORDER :: "geo_phase list" where
  "GEO_OPERATION_PHASE_ID_ORDER =
     [PhaseKnowledge, PhaseQuestions, PhaseContent, PhaseDistribution, PhasePublishing, PhaseMonitoring]"

definition PHASE_SEGMENTS :: "geo_phase \<Rightarrow> step_definition list" where
  "PHASE_SEGMENTS p =
     (case p of PhaseKnowledge \<Rightarrow> KNOWLEDGE_STEPS | PhaseQuestions \<Rightarrow> QUESTION_STEPS | PhaseContent \<Rightarrow> CONTENT_STEPS
      | PhaseDistribution \<Rightarrow> DISTRIBUTION_STEPS | PhasePublishing \<Rightarrow> PUBLISH_STEPS | PhaseMonitoring \<Rightarrow> MONITOR_STEPS)"

section \<open>Spans\<close>

text \<open>The code throws \<open>Error\<close> values with a code as their message.\<close>

type_synonym 'a planned = "string + 'a"

fun and_then :: "'a planned \<Rightarrow> ('a \<Rightarrow> 'b planned) \<Rightarrow> 'b planned" where
  "and_then (Inl e) f = Inl e"
| "and_then (Inr x) f = f x"

definition index_of :: "geo_phase \<Rightarrow> nat" where
  "index_of p = length (takeWhile (\<lambda>q. q \<noteq> p) GEO_OPERATION_PHASE_ID_ORDER)"

definition phases_after :: "geo_phase \<Rightarrow> geo_phase \<Rightarrow> geo_phase list" where
  "phases_after startPhase endingPhase =
     drop (index_of startPhase + 1) (take (index_of endingPhase + 1) GEO_OPERATION_PHASE_ID_ORDER)"

definition spanDefinitions ::
  "geo_phase \<Rightarrow> geo_phase option \<Rightarrow> step_definition list \<Rightarrow> step_definition list \<Rightarrow> step_definition list planned" where
  "spanDefinitions startPhase endingPhase naturalDefinitions startSegment =
     (case endingPhase of
        None \<Rightarrow> Inr naturalDefinitions
      | Some ending \<Rightarrow>
          if index_of ending \<le> index_of startPhase then Inl ''geo_operation_ending_phase_invalid''
          else Inr (startSegment @ concat (map PHASE_SEGMENTS (phases_after startPhase ending))))"

definition SELECT_NEXT_QUESTION_STEP :: step_definition where
  "SELECT_NEXT_QUESTION_STEP =
   \<lparr>sd_id = ''select-next-question-pool'', sd_title = [20174, 38382, 39064, 27744, 36873, 25321, 19979, 19968, 36718, 38382, 39064],
    sd_capability = QuestionOpportunities, sd_confirmation = Some (confirmation QuestionSelection BrandWorkspace
       [36873, 25321, 19979, 19968, 36718, 38382, 39064]
       [26412, 36718, 19981, 26356, 26032, 30693, 35782, 65292, 35831, 20174, 24050, 26377, 38382,
       39064, 27744, 26126, 30830, 36873, 25321, 21518, 32493, 38382, 39064, 12290]),
    sd_irreversible = None, sd_retryUnit = None, sd_condition = None\<rparr>"

definition noUpdateKnowledgeDefinitions :: "geo_phase option \<Rightarrow> step_definition list planned" where
  "noUpdateKnowledgeDefinitions endingPhase =
     spanDefinitions PhaseQuestions endingPhase
       (SELECT_NEXT_QUESTION_STEP # CONTENT_STEPS @ DISTRIBUTION_STEPS @ PUBLISH_STEPS @ MONITOR_STEPS)
       [SELECT_NEXT_QUESTION_STEP]"

definition fullChainDefinitions :: "geo_phase option \<Rightarrow> step_definition list planned" where
  "fullChainDefinitions endingPhase =
     spanDefinitions PhaseKnowledge endingPhase FULL_OPTIMIZATION_STEPS KNOWLEDGE_STEPS"

section \<open>Texts of the acknowledgement\<close>

definition SPAN_POINT_REASON_MAX_CHARS :: nat where
  "SPAN_POINT_REASON_MAX_CHARS = 300"

definition trimmed :: "utext option \<Rightarrow> utext" where
  "trimmed reason = (case reason of None \<Rightarrow> [] | Some t \<Rightarrow> js_trim t)"

definition endingPointReasonOf :: "utext option \<Rightarrow> geo_phase option \<Rightarrow> utext option planned" where
  "endingPointReasonOf reason endingPhase =
     (if endingPhase = None \<and> trimmed reason \<noteq> [] then Inl ''geo_operation_ending_point_reason_invalid''
      else if trimmed reason = [] then Inr None
      else if length (trimmed reason) > SPAN_POINT_REASON_MAX_CHARS
      then Inl ''geo_operation_ending_point_reason_invalid''
      else Inr (Some (trimmed reason)))"

definition startingPointReasonOf :: "utext option \<Rightarrow> utext option planned" where
  "startingPointReasonOf reason =
     (if trimmed reason = [] then Inr None
      else if length (trimmed reason) > SPAN_POINT_REASON_MAX_CHARS
      then Inl ''geo_operation_starting_point_reason_invalid''
      else Inr (Some (trimmed reason)))"

definition requireGoal :: "utext \<Rightarrow> utext planned" where
  "requireGoal goal =
     (if js_trim goal = [] \<or> length (js_trim goal) > 500 then Inl ''geo_operation_goal_invalid''
      else Inr (js_trim goal))"

record operation_phase =
  op_id :: string
  op_title :: utext
  op_capabilities :: "geo_capability list"

definition phase_id :: "geo_phase \<Rightarrow> string" where
  "phase_id p =
     (case p of PhaseKnowledge \<Rightarrow> ''knowledge'' | PhaseQuestions \<Rightarrow> ''questions'' | PhaseContent \<Rightarrow> ''content''
      | PhaseDistribution \<Rightarrow> ''distribution'' | PhasePublishing \<Rightarrow> ''publishing'' | PhaseMonitoring \<Rightarrow> ''monitoring'')"

definition GEO_OPERATION_PHASES :: "operation_phase list" where
  "GEO_OPERATION_PHASES =
    [\<lparr>op_id = ''knowledge'', op_title = [21697, 29260, 30693, 35782], op_capabilities = [BrandMaterialImport, BrandKnowledge]\<rparr>,
     \<lparr>op_id = ''questions'', op_title = [38382, 39064, 26426, 20250], op_capabilities = [QuestionOpportunities]\<rparr>,
     \<lparr>op_id = ''content'', op_title = [20869, 23481, 29983, 20135], op_capabilities = [ContentPlanning, ContentProduction]\<rparr>,
     \<lparr>op_id = ''distribution'', op_title = [28192, 36947, 35745, 21010], op_capabilities = [DistributionPlanning]\<rparr>,
     \<lparr>op_id = ''publishing'', op_title = [21457, 24067], op_capabilities = [Publishing]\<rparr>,
     \<lparr>op_id = ''monitoring'', op_title = [30417, 27979], op_capabilities = [Monitoring, GeoDashboard]\<rparr>]"

definition endingStatement :: "geo_phase option \<Rightarrow> utext option \<Rightarrow> utext option" where
  "endingStatement endingPhase reason =
     (case endingPhase of
        None \<Rightarrow> None
      | Some ending \<Rightarrow>
          let title = (case List.find (\<lambda>p. op_id p = phase_id ending) GEO_OPERATION_PHASES of
                         None \<Rightarrow> ascii (phase_id ending) | Some p \<Rightarrow> op_title p)
          in Some (case reason of None \<Rightarrow> title | Some r \<Rightarrow> title @ [8212, 8212] @ r))"

definition nextRoundKnowledgeDecision :: geo_confirmation where
  "nextRoundKnowledgeDecision = confirmation NextRoundKnowledge BrandWorkspace
     [19979, 19968, 36718, 26159, 21542, 26356, 26032, 21697, 29260, 30693, 35782, 65311]
     [19981, 26356, 26032, 23558, 20174, 38382, 39064, 27744, 36873, 25321, 24320, 22987, 65307,
      26356, 26032, 21518, 23558, 20174, 30693, 35782, 38142, 36335, 36215, 28857, 24320, 22987,
      12290, 25928, 26524, 25253, 21578, 21482, 20316, 19978, 19979, 25991, 65292, 19981, 20915,
      23450, 20998, 25903, 12290]"

definition planAckStep ::
  "geo_capability \<Rightarrow> utext option \<Rightarrow> utext option \<Rightarrow> step_definition planned" where
  "planAckStep capability startingPointReason ending =
     and_then (startingPointReasonOf startingPointReason) (\<lambda>reason.
       let start_text = (case reason of None \<Rightarrow> []
             | Some r \<Rightarrow> [20174, 21738, 37324, 24320, 22987, 65306] @ r @ [12290]);
           end_text = (case ending of None \<Rightarrow> [] | Some t \<Rightarrow> [21040, 21738, 37324, 32467, 26463, 65306] @ t @ [12290]);
           release = [26597, 30475, 19978, 26041, 38454, 27573, 19982, 27493, 39588, 35745, 21010, 21518, 25918,
      34892, 65307, 21508, 38454, 27573, 30340, 20135, 29289, 20173, 20250, 20572, 22312, 21508,
      33258, 30340, 30830, 35748, 38376, 12290]
       in Inr \<lparr>sd_id = ''acknowledge-plan'', sd_title = [35748, 21487, 26412, 36718, 35745, 21010], sd_capability = capability,
               sd_confirmation = Some (confirmation PlanAck GeoOperationAuthority
                 [35748, 21487, 26412, 36718, 35745, 21010] (start_text @ end_text @ release)),
               sd_irreversible = None, sd_retryUnit = None, sd_condition = None\<rparr>)"

section \<open>The plan\<close>

record plan_input =
  in_intent :: geo_kind
  in_goal :: utext
  in_inputRefs :: "geo_reference list option"
  in_sourceOperationId :: "string option"
  in_updateKnowledge :: "bool option"
  in_startingPointReason :: "utext option"
  in_endingPhase :: "geo_phase option"
  in_endingPointReason :: "utext option"

record geo_plan =
  gp_kind :: geo_kind
  gp_goal :: utext
  gp_status :: geo_status
  gp_steps :: "geo_step list"
  gp_inputRefs :: "geo_reference list"
  gp_pendingConfirmation :: "geo_confirmation option"
  gp_sourceOperationId :: "string option"

definition cloneRefs :: "geo_reference list option \<Rightarrow> geo_reference list" where
  "cloneRefs refs = case_option [] id refs"

definition decide_knowledge_step :: geo_step where
  "decide_knowledge_step =
     \<lparr>gs_id = ''decide-knowledge-refresh'', gs_title = [30830, 35748, 26159, 21542, 26356, 26032, 21697, 29260, 30693, 35782],
      gs_capability = BrandKnowledge, gs_status = StepAwaitingConfirmation, gs_requiresConfirmation = True,
      gs_irreversible = False, gs_retryUnit = RetryOperation, gs_condition = None,
      gs_confirmation = Some nextRoundKnowledgeDecision, gs_progress = None\<rparr>"

definition PERFORMANCE_STEPS :: "step_definition list" where
  "PERFORMANCE_STEPS =
  [
   \<lparr>sd_id = ''load-real-evidence'', sd_title = [35835, 21462, 29616, 26377, 30495, 23454, 35777, 25454],
    sd_capability = GeoDashboard, sd_confirmation = None,
    sd_irreversible = None, sd_retryUnit = None, sd_condition = None\<rparr>,
   \<lparr>sd_id = ''confirm-missing-evidence-probe'', sd_title = [30830, 35748, 26159, 21542, 34917, 20805, 32570, 22833, 25506, 27979],
    sd_capability = GeoObservation, sd_confirmation = Some (confirmation BaselineProbe BrandWorkspace
       [26159, 21542, 34917, 20805, 32570, 22833, 25506, 27979, 65311]
       [29616, 26377, 35777, 25454, 19981, 36275, 26102, 25165, 38656, 35201, 34917, 20805, 65307,
       35831, 30830, 35748, 38382, 39064, 12289, 24341, 25806, 21644, 32, 80, 114, 111, 118, 105,
       100, 101, 114, 32, 29992, 37327, 12290]),
    sd_irreversible = None, sd_retryUnit = None, sd_condition = Some IfEvidenceInsufficient\<rparr>,
   \<lparr>sd_id = ''probe-missing-evidence'', sd_title = [34917, 20805, 24517, 35201, 25506, 27979],
    sd_capability = GeoObservation, sd_confirmation = None,
    sd_irreversible = None, sd_retryUnit = Some RetryProbe, sd_condition = Some IfEvidenceInsufficient\<rparr>,
   \<lparr>sd_id = ''report-performance'', sd_title = [29983, 25104, 35777, 25454, 21270, 32467, 26524],
    sd_capability = GeoDashboard, sd_confirmation = None,
    sd_irreversible = None, sd_retryUnit = None, sd_condition = None\<rparr>]"

definition plan_definitions :: "plan_input \<Rightarrow> step_definition list planned" where
  "plan_definitions i =
     (let ending = in_endingPhase i in
      case in_intent i of
        KnowledgeUpdate \<Rightarrow> spanDefinitions PhaseKnowledge ending KNOWLEDGE_STEPS KNOWLEDGE_STEPS
      | QuestionOpportunitiesIntent \<Rightarrow> spanDefinitions PhaseQuestions ending QUESTION_STEPS QUESTION_STEPS
      | ArticleGeneration \<Rightarrow> spanDefinitions PhaseContent ending DIRECT_ARTICLE_STEPS DIRECT_ARTICLE_STEPS
      | PerformanceInspection \<Rightarrow>
          if ending \<noteq> None then Inl ''geo_operation_ending_phase_invalid'' else Inr PERFORMANCE_STEPS
      | DistributionPlanningIntent \<Rightarrow> spanDefinitions PhaseDistribution ending DISTRIBUTION_STEPS DISTRIBUTION_STEPS
      | PublishingIntent \<Rightarrow>
          if \<exists>r \<in> set (cloneRefs (in_inputRefs i)). gr_kind r = RefDistributionPlan
          then spanDefinitions PhasePublishing ending PUBLISH_STEPS PUBLISH_STEPS
          else spanDefinitions PhaseDistribution ending (DISTRIBUTION_STEPS @ PUBLISH_STEPS) DISTRIBUTION_STEPS
      | MonitoringIntent \<Rightarrow> spanDefinitions PhaseMonitoring ending MONITOR_STEPS MONITOR_STEPS
      | FullOptimization \<Rightarrow>
          if in_updateKnowledge i = Some False then noUpdateKnowledgeDefinitions ending
          else fullChainDefinitions ending
      | NextRoundOptimization \<Rightarrow>
          if in_updateKnowledge i = Some True then fullChainDefinitions ending
          else noUpdateKnowledgeDefinitions ending)"

definition await_first :: "geo_step list \<Rightarrow> geo_step list" where
  "await_first xs =
     (case xs of [] \<Rightarrow> []
      | s # rest \<Rightarrow> (if gs_confirmation s \<noteq> None then s\<lparr>gs_status := StepAwaitingConfirmation\<rparr> else s) # rest)"

definition first_confirmation :: "geo_step list \<Rightarrow> geo_confirmation option" where
  "first_confirmation xs = (case xs of [] \<Rightarrow> None | s # rest \<Rightarrow> gs_confirmation s)"

definition planGeoOperation :: "plan_input \<Rightarrow> geo_plan planned" where
  "planGeoOperation i =
     and_then (requireGoal (in_goal i)) (\<lambda>goal.
       if in_intent i = NextRoundOptimization \<and> in_updateKnowledge i = None
       then (if in_endingPhase i \<noteq> None then Inl ''geo_operation_ending_phase_invalid''
             else Inr \<lparr>gp_kind = in_intent i, gp_goal = goal, gp_status = OpAwaitingConfirmation,
                       gp_steps = [decide_knowledge_step], gp_inputRefs = cloneRefs (in_inputRefs i),
                       gp_pendingConfirmation = Some nextRoundKnowledgeDecision,
                       gp_sourceOperationId = in_sourceOperationId i\<rparr>)
       else
         and_then (plan_definitions i) (\<lambda>definitions.
         and_then (endingPointReasonOf (in_endingPointReason i) (in_endingPhase i)) (\<lambda>ending_reason.
         and_then (planAckStep (sd_capability (hd definitions)) (in_startingPointReason i)
                     (endingStatement (in_endingPhase i) ending_reason)) (\<lambda>ack.
           let planned = steps (ack # definitions); pending = first_confirmation planned
           in Inr \<lparr>gp_kind = in_intent i, gp_goal = goal,
                   gp_status = (if pending \<noteq> None then OpAwaitingConfirmation else OpReady),
                   gp_steps = await_first planned, gp_inputRefs = cloneRefs (in_inputRefs i),
                   gp_pendingConfirmation = pending, gp_sourceOperationId = in_sourceOperationId i\<rparr>))))"

section \<open>Phases of the steps\<close>

record step_group =
  sg_id :: string
  sg_title :: utext
  sg_steps :: "geo_step list"

definition phase_group :: "geo_step list \<Rightarrow> operation_phase \<Rightarrow> step_group" where
  "phase_group xs p =
     \<lparr>sg_id = op_id p, sg_title = op_title p,
      sg_steps = filter (\<lambda>s. gs_capability s \<in> set (op_capabilities p)) xs\<rparr>"

definition groupGeoOperationSteps :: "geo_step list \<Rightarrow> step_group list" where
  "groupGeoOperationSteps xs =
     (let groups = filter (\<lambda>g. sg_steps g \<noteq> []) (map (phase_group xs) GEO_OPERATION_PHASES);
          grouped = concat (map sg_steps groups);
          leftovers = filter (\<lambda>s. s \<notin> set grouped) xs
      in groups @ (if leftovers = [] then []
                   else [\<lparr>sg_id = ''other'', sg_title = [20854, 20182], sg_steps = leftovers\<rparr>]))"

definition phaseOfCapability :: "geo_capability \<Rightarrow> operation_phase option" where
  "phaseOfCapability c = List.find (\<lambda>p. c \<in> set (op_capabilities p)) GEO_OPERATION_PHASES"

definition formatGeoOperationSpanLabel :: "geo_step list \<Rightarrow> utext option" where
  "formatGeoOperationSpanLabel xs =
     (if xs = [] then None
      else case (phaseOfCapability (gs_capability (hd xs)), phaseOfCapability (gs_capability (last xs))) of
             (Some p, Some q) \<Rightarrow>
               Some ([36328, 24230, 65306] @ (if op_id p = op_id q then op_title p else op_title p @ [32, 8594, 32] @ op_title q))
           | _ \<Rightarrow> None)"

definition geoOperationPhaseStatus :: "geo_step list \<Rightarrow> step_status" where
  "geoOperationPhaseStatus xs =
     (if xs = [] then StepPending
      else if \<exists>s \<in> set xs. gs_status s = StepFailed then StepFailed
      else if list_all (\<lambda>s. gs_status s = StepSucceeded \<or> gs_status s = StepSkipped) xs then StepSucceeded
      else case List.find (\<lambda>s. gs_status s = StepRunning \<or> gs_status s = StepAwaitingConfirmation \<or>
                               gs_status s = StepReady) xs of
             None \<Rightarrow> StepPending | Some s \<Rightarrow> gs_status s)"

definition runningGeoOperationStep :: "geo_step list \<Rightarrow> geo_step option" where
  "runningGeoOperationStep xs = List.find (\<lambda>s. gs_status s = StepRunning) xs"

text \<open>Numbers are printed by the parameter \<open>show_number\<close>.\<close>

definition formatGeoStepProgressNote :: "(int \<Rightarrow> utext) \<Rightarrow> geo_step \<Rightarrow> utext" where
  "formatGeoStepProgressNote show_number s =
     (case gs_progress s of
        None \<Rightarrow> gs_title s
      | Some (current, n) \<Rightarrow> gs_title s @ [32] @ show_number current @ [47] @ show_number n)"

section \<open>The autonomy dial\<close>

datatype autonomy_profile = Manual | Auto

definition AUTO_CONFIRMABLE_CONFIRMATION_KINDS :: "confirmation_kind list" where
  "AUTO_CONFIRMABLE_CONFIRMATION_KINDS = [QuestionSelection]"

definition normalizeGeoAutonomyProfile :: "utext option \<Rightarrow> autonomy_profile" where
  "normalizeGeoAutonomyProfile value = (if value = Some (ascii ''auto'') then Auto else Manual)"

definition gateAutoConfirms :: "autonomy_profile \<Rightarrow> confirmation_kind \<Rightarrow> bool" where
  "gateAutoConfirms profile kind \<longleftrightarrow> profile = Auto \<and> kind \<in> set AUTO_CONFIRMABLE_CONFIRMATION_KINDS"

section \<open>The intent of a text\<close>

text \<open>
  The regular expressions of \<open>classifyGeoIntent\<close>: a word somewhere, a word followed by another on the
  same line (\<open>.*\<close> does not cross a line terminator), and two words with only white space between.
\<close>

fun at_some_suffix :: "(utext \<Rightarrow> bool) \<Rightarrow> utext \<Rightarrow> bool" where
  "at_some_suffix P [] = P []"
| "at_some_suffix P (c # t) = (P (c # t) \<or> at_some_suffix P t)"

definition begins :: "utext \<Rightarrow> utext \<Rightarrow> bool" where
  "begins w t \<longleftrightarrow> take (length w) t = w"

definition has_word :: "utext \<Rightarrow> utext \<Rightarrow> bool" where
  "has_word w t \<longleftrightarrow> at_some_suffix (begins w) t"

definition line_end :: "nat \<Rightarrow> bool" where
  "line_end c \<longleftrightarrow> c = 10 \<or> c = 13 \<or> c = 8232 \<or> c = 8233"

definition has_words :: "utext \<Rightarrow> utext \<Rightarrow> utext \<Rightarrow> bool" where
  "has_words v w t \<longleftrightarrow>
     at_some_suffix (\<lambda>u. begins v u \<and>
       has_word w (takeWhile (\<lambda>c. \<not> line_end c) (drop (length v) u))) t"

definition has_spaced :: "nat \<Rightarrow> utext \<Rightarrow> utext \<Rightarrow> utext \<Rightarrow> bool" where
  "has_spaced n v w t \<longleftrightarrow>
     at_some_suffix (\<lambda>u. begins v u \<and>
       (let r = drop (length v) u
        in n \<le> length (takeWhile js_space r) \<and> begins w (dropWhile js_space r))) t"

definition classify_text :: "utext \<Rightarrow> geo_kind option" where
  "classify_text t =
     (if t = [] then None
      else if has_word [19979, 19968, 36718] t \<or>
           has_spaced 1 [110, 101, 120, 116] [114, 111, 117, 110, 100] t
      then Some NextRoundOptimization
      else if has_words [23436, 25972] [103, 101, 111] t \<or>
           has_word [20840, 27969, 31243] t \<or>
           has_words [102, 117, 108, 108] [103, 101, 111] t
      then Some FullOptimization
      else if has_words [26356, 26032] [30693, 35782] t \<or>
           has_words [34917, 20805] [30693, 35782] t \<or>
           has_words [117, 112, 100, 97, 116, 101] [107, 110, 111, 119, 108, 101, 100, 103, 101] t
      then Some KnowledgeUpdate
      else if has_words [29983, 25104] [31687] t \<or>
           has_words [29983, 25104] [25991, 31456] t \<or>
           has_words [20889] [31687] t \<or>
           has_words [20889] [25991, 31456] t \<or>
           has_words [103, 101, 110, 101, 114, 97, 116, 101] [97, 114, 116, 105, 99, 108, 101] t
      then Some ArticleGeneration
      else if has_word [38382, 39064, 27744] t \<or>
           has_word [38382, 39064, 26426, 20250] t \<or>
           has_word [29992, 25143, 38382, 39064] t \<or>
           has_words [113, 117, 101, 115, 116, 105, 111, 110] [111, 112, 112, 111, 114, 116, 117, 110, 105, 116] t
      then Some QuestionOpportunitiesIntent
      else if has_word [20998, 21457, 35745, 21010] t \<or>
           has_word [28192, 36947, 35745, 21010] t \<or>
           has_words [100, 105, 115, 116, 114, 105, 98, 117, 116, 105, 111, 110] [112, 108, 97, 110] t
      then Some DistributionPlanningIntent
      else if has_word [21457, 24067, 36825, 20123] t \<or>
           has_word [21457, 24067, 25991, 31456] t \<or>
           has_word [24320, 22987, 21457, 24067] t \<or>
           has_word [112, 117, 98, 108, 105, 115, 104] t
      then Some PublishingIntent
      else if has_word [30417, 27979] t \<or>
           has_word [30417, 25511] t \<or>
           has_word [109, 111, 110, 105, 116, 111, 114] t
      then Some MonitoringIntent
      else if has_words [103, 101, 111] [25928, 26524] t \<or>
           has_words [103, 101, 111] [34920, 29616] t \<or>
           has_words [25928, 26524] [103, 101, 111] t \<or>
           has_words [34920, 29616] [103, 101, 111] t \<or>
           has_words [30475] [25928, 26524] t \<or>
           has_word [112, 101, 114, 102, 111, 114, 109, 97, 110, 99, 101] t
      then Some PerformanceInspection
      else if (has_word [103, 101, 111] t \<or> has_spaced 0 [97, 105] [25628, 32034] t \<or> has_word [25628, 32034, 24341, 25806] t) \<and>
           (has_word [20248, 21270] t \<or>
            has_word [33829, 38144] t \<or>
            has_word [25512, 24191] t \<or>
            has_word [26333, 20809] t \<or>
            has_word [25490, 21517] t)
      then Some FullOptimization else None)"

definition classifyGeoIntent :: "(utext \<Rightarrow> utext) \<Rightarrow> utext \<Rightarrow> geo_kind option" where
  "classifyGeoIntent lower t = classify_text (lower (js_trim t))"

section \<open>Gates of the plans\<close>

lemmas step_tables = KNOWLEDGE_STEPS_def QUESTION_STEPS_def CONTENT_STEPS_def DIRECT_ARTICLE_STEPS_def
  DISTRIBUTION_STEPS_def PUBLISH_STEPS_def MONITOR_STEPS_def PERFORMANCE_STEPS_def SELECT_NEXT_QUESTION_STEP_def

lemma and_then_Inr: "and_then x f = Inr z \<longleftrightarrow> (\<exists>y. x = Inr y \<and> f y = Inr z)"
  by (cases x) auto

definition all_definitions :: "step_definition list" where
  "all_definitions = SELECT_NEXT_QUESTION_STEP # PERFORMANCE_STEPS @ FULL_OPTIMIZATION_STEPS"

lemma segments_known:
  "set (PHASE_SEGMENTS p) \<subseteq> set FULL_OPTIMIZATION_STEPS" "set DIRECT_ARTICLE_STEPS \<subseteq> set CONTENT_STEPS"
  by (auto simp: PHASE_SEGMENTS_def FULL_OPTIMIZATION_STEPS_def DIRECT_ARTICLE_STEPS_def
      split: geo_phase.split dest: in_set_dropD)

lemma span_known:
  assumes "spanDefinitions p ending natural segment = Inr ds"
    and "set natural \<subseteq> set all_definitions" "set segment \<subseteq> set all_definitions"
  shows "set ds \<subseteq> set all_definitions"
proof -
  have "set (PHASE_SEGMENTS q) \<subseteq> set all_definitions" for q
    using segments_known(1) [of q] by (auto simp: all_definitions_def)
  with assms show ?thesis
    unfolding spanDefinitions_def by (fastforce split: option.split_asm if_split_asm)
qed

text \<open>The start, the natural span and the start segment that the intents choose from.\<close>

definition spans :: "(geo_phase \<times> step_definition list \<times> step_definition list) list" where
  "spans =
    [(PhaseKnowledge, KNOWLEDGE_STEPS, KNOWLEDGE_STEPS), (PhaseQuestions, QUESTION_STEPS, QUESTION_STEPS),
     (PhaseContent, DIRECT_ARTICLE_STEPS, DIRECT_ARTICLE_STEPS), (PhaseDistribution, DISTRIBUTION_STEPS, DISTRIBUTION_STEPS),
     (PhasePublishing, PUBLISH_STEPS, PUBLISH_STEPS), (PhaseDistribution, DISTRIBUTION_STEPS @ PUBLISH_STEPS, DISTRIBUTION_STEPS),
     (PhaseMonitoring, MONITOR_STEPS, MONITOR_STEPS),
     (PhaseQuestions, SELECT_NEXT_QUESTION_STEP # CONTENT_STEPS @ DISTRIBUTION_STEPS @ PUBLISH_STEPS @ MONITOR_STEPS,
      [SELECT_NEXT_QUESTION_STEP]),
     (PhaseKnowledge, FULL_OPTIMIZATION_STEPS, KNOWLEDGE_STEPS)]"

text \<open>The phase an intent starts in; the inspection is outside of the chain.\<close>

definition start_phase :: "plan_input \<Rightarrow> geo_phase option" where
  "start_phase i =
     (case in_intent i of
        KnowledgeUpdate \<Rightarrow> Some PhaseKnowledge | QuestionOpportunitiesIntent \<Rightarrow> Some PhaseQuestions
      | ArticleGeneration \<Rightarrow> Some PhaseContent | PerformanceInspection \<Rightarrow> None
      | DistributionPlanningIntent \<Rightarrow> Some PhaseDistribution
      | PublishingIntent \<Rightarrow>
          Some (if \<exists>r \<in> set (cloneRefs (in_inputRefs i)). gr_kind r = RefDistributionPlan
                then PhasePublishing else PhaseDistribution)
      | MonitoringIntent \<Rightarrow> Some PhaseMonitoring
      | FullOptimization \<Rightarrow> Some (if in_updateKnowledge i = Some False then PhaseQuestions else PhaseKnowledge)
      | NextRoundOptimization \<Rightarrow> Some (if in_updateKnowledge i = Some True then PhaseKnowledge else PhaseQuestions))"

definition plan_span :: "plan_input \<Rightarrow> (geo_phase \<times> step_definition list \<times> step_definition list) option" where
  "plan_span i =
     (case in_intent i of
        KnowledgeUpdate \<Rightarrow> Some (spans ! 0) | QuestionOpportunitiesIntent \<Rightarrow> Some (spans ! 1)
      | ArticleGeneration \<Rightarrow> Some (spans ! 2) | PerformanceInspection \<Rightarrow> None
      | DistributionPlanningIntent \<Rightarrow> Some (spans ! 3)
      | PublishingIntent \<Rightarrow>
          Some (if \<exists>r \<in> set (cloneRefs (in_inputRefs i)). gr_kind r = RefDistributionPlan then spans ! 4 else spans ! 5)
      | MonitoringIntent \<Rightarrow> Some (spans ! 6)
      | FullOptimization \<Rightarrow> Some (if in_updateKnowledge i = Some False then spans ! 7 else spans ! 8)
      | NextRoundOptimization \<Rightarrow> Some (if in_updateKnowledge i = Some True then spans ! 8 else spans ! 7))"

lemma plan_span_known: "plan_span i = Some x \<Longrightarrow> x \<in> set spans"
proof -
  have "length spans = 9" by (simp add: spans_def)
  then show "plan_span i = Some x \<Longrightarrow> x \<in> set spans"
    by (cases "in_intent i") (auto simp: plan_span_def split: if_split_asm)
qed

lemma plan_span_start: "start_phase i = map_option fst (plan_span i)"
  by (cases "in_intent i") (simp_all add: plan_span_def start_phase_def spans_def)

lemma plan_definitions_span:
  "plan_definitions i =
     (case plan_span i of
        None \<Rightarrow> if in_endingPhase i = None then Inr PERFORMANCE_STEPS else Inl ''geo_operation_ending_phase_invalid''
      | Some (p, natural, segment) \<Rightarrow> spanDefinitions p (in_endingPhase i) natural segment)"
  by (cases "in_intent i")
    (simp_all add: plan_span_def plan_definitions_def spans_def noUpdateKnowledgeDefinitions_def
      fullChainDefinitions_def)

lemma plan_definitions_cases:
  obtains (inspection) "start_phase i = None"
      "plan_definitions i = (if in_endingPhase i = None then Inr PERFORMANCE_STEPS
        else Inl ''geo_operation_ending_phase_invalid'')"
  | (chain) p natural segment where "(p, natural, segment) \<in> set spans" "start_phase i = Some p"
      "plan_definitions i = spanDefinitions p (in_endingPhase i) natural segment"
proof (cases "plan_span i")
  case None
  with that(1) show thesis by (simp only: plan_definitions_span plan_span_start option.simps)
next
  case (Some x)
  obtain p natural segment where x: "x = (p, natural, segment)" by (cases x)
  from that(2) [of p natural segment] show thesis
    using plan_span_known [OF Some] by (simp only: plan_definitions_span plan_span_start Some x option.simps prod.case fst_conv)
qed

lemma spans_known: "list_all (\<lambda>(p, natural, segment). set natural \<union> set segment \<subseteq> set all_definitions) spans"
proof -
  have "set DIRECT_ARTICLE_STEPS \<subseteq> set all_definitions"
    using segments_known(2) by (auto simp: all_definitions_def FULL_OPTIMIZATION_STEPS_def)
  moreover have "set KNOWLEDGE_STEPS \<subseteq> set all_definitions" "set QUESTION_STEPS \<subseteq> set all_definitions"
    "set CONTENT_STEPS \<subseteq> set all_definitions" "set DISTRIBUTION_STEPS \<subseteq> set all_definitions"
    "set PUBLISH_STEPS \<subseteq> set all_definitions" "set MONITOR_STEPS \<subseteq> set all_definitions"
    "set FULL_OPTIMIZATION_STEPS \<subseteq> set all_definitions" "SELECT_NEXT_QUESTION_STEP \<in> set all_definitions"
    by (auto simp: all_definitions_def FULL_OPTIMIZATION_STEPS_def)
  ultimately show ?thesis by (simp add: spans_def)
qed

lemma plan_definitions_known:
  assumes "plan_definitions i = Inr ds"
  shows "set ds \<subseteq> set all_definitions"
proof (cases i rule: plan_definitions_cases)
  case inspection
  with assms show ?thesis by (auto simp: all_definitions_def split: if_split_asm)
next
  case (chain p natural segment)
  from bspec [OF spans_known [unfolded list_all_iff] chain(1)] have
    "set natural \<subseteq> set all_definitions" "set segment \<subseteq> set all_definitions" by simp_all
  from span_known [OF assms [unfolded chain(3)] this] show ?thesis .
qed

text \<open>What the tables promise of a step.\<close>

definition step_gated :: "step_definition \<Rightarrow> bool" where
  "step_gated sd \<longleftrightarrow>
     (if sd_irreversible sd = Some True
      then (case sd_confirmation sd of None \<Rightarrow> False | Some c \<Rightarrow> gc_kind c = PaidPublish \<and> gc_authority c = PublishScheduler)
      else (case sd_confirmation sd of None \<Rightarrow> True | Some c \<Rightarrow>
              gc_kind c \<noteq> PlanAck \<and> (gc_kind c = QuestionSelection \<longrightarrow> gc_authority c = BrandWorkspace)))"

lemma tables_gated: "list_all step_gated all_definitions"
  by (simp add: all_definitions_def FULL_OPTIMIZATION_STEPS_def step_tables step_gated_def confirmation_def)


lemma table_ids:
  "map sd_id KNOWLEDGE_STEPS = [''collect-materials'', ''extract-facts'', ''confirm-knowledge'']"
  "map sd_id QUESTION_STEPS = [''generate-question-pool'', ''confirm-question-selection'']"
  "map sd_id CONTENT_STEPS = [''plan-topics'', ''confirm-content-plan'', ''generate-articles'', ''confirm-articles'']"
  "map sd_id DIRECT_ARTICLE_STEPS = [''generate-articles'', ''confirm-articles'']"
  "map sd_id DISTRIBUTION_STEPS = [''plan-distribution'', ''confirm-distribution'']"
  "map sd_id PUBLISH_STEPS = [''prepare-publish'', ''confirm-publish'', ''observe-publish'']"
  "map sd_id MONITOR_STEPS =
    [''configure-monitoring'', ''confirm-monitoring'', ''collect-monitoring-evidence'', ''report-monitoring'']"
  "map sd_id PERFORMANCE_STEPS =
    [''load-real-evidence'', ''confirm-missing-evidence-probe'', ''probe-missing-evidence'', ''report-performance'']"
  "sd_id SELECT_NEXT_QUESTION_STEP = ''select-next-question-pool''"
  by (simp_all add: step_tables)

lemma full_ids_distinct:
  "distinct (map sd_id FULL_OPTIMIZATION_STEPS)"
  "''select-next-question-pool'' \<notin> sd_id ` set FULL_OPTIMIZATION_STEPS"
  "''acknowledge-plan'' \<notin> sd_id ` set all_definitions" "distinct (map sd_id PERFORMANCE_STEPS)"
  by (simp_all add: all_definitions_def FULL_OPTIMIZATION_STEPS_def table_ids image_Un flip: set_map)

lemma full_segments: "FULL_OPTIMIZATION_STEPS = concat (map PHASE_SEGMENTS GEO_OPERATION_PHASE_ID_ORDER)"
  by (simp add: FULL_OPTIMIZATION_STEPS_def GEO_OPERATION_PHASE_ID_ORDER_def PHASE_SEGMENTS_def)

lemma phases_from:
  "index_of p < index_of q \<Longrightarrow> drop (index_of p) (take (index_of q + 1) GEO_OPERATION_PHASE_ID_ORDER) = p # phases_after p q"
  by (cases p; cases q) (simp_all add: index_of_def phases_after_def GEO_OPERATION_PHASE_ID_ORDER_def)

lemma slice_distinct:
  assumes "distinct (map f (concat (map g xs)))"
  shows "distinct (map f (concat (map g (drop n (take m xs)))))"
proof -
  have "xs = take m xs @ drop m xs" "take m xs = take n (take m xs) @ drop n (take m xs)"
    by (rule append_take_drop_id [symmetric])+
  then have "concat (map g xs) = concat (map g (take n (take m xs))) @ concat (map g (drop n (take m xs))) @
      concat (map g (drop m xs))"
    by (metis append.assoc concat_append map_append)
  with assms show ?thesis by (metis distinct_append map_append)
qed

lemma span_distinct:
  assumes "spanDefinitions p ending natural segment = Inr ds" and "distinct (map sd_id natural)"
    and "distinct (map sd_id segment)"
    and "sd_id ` set segment \<subseteq> insert ''select-next-question-pool'' (sd_id ` set (PHASE_SEGMENTS p))"
  shows "distinct (map sd_id ds)"
proof (cases ending)
  case None
  with assms(1,2) show ?thesis by (simp add: spanDefinitions_def)
next
  case (Some q)
  with assms(1) have less: "index_of p < index_of q"
    and ds: "ds = segment @ concat (map PHASE_SEGMENTS (phases_after p q))"
    by (auto simp: spanDefinitions_def split: if_split_asm)
  have "distinct (map sd_id (concat (map PHASE_SEGMENTS (p # phases_after p q))))"
    unfolding phases_from [OF less, symmetric]
    by (rule slice_distinct) (rule full_ids_distinct(1) [unfolded full_segments])
  then have parts: "distinct (map sd_id (concat (map PHASE_SEGMENTS (phases_after p q))))"
    "sd_id ` set (PHASE_SEGMENTS p) \<inter> sd_id ` set (concat (map PHASE_SEGMENTS (phases_after p q))) = {}"
    by simp_all
  have "set (concat (map PHASE_SEGMENTS (phases_after p q))) \<subseteq> set FULL_OPTIMIZATION_STEPS"
    using segments_known(1) by auto
  from image_mono [OF this] full_ids_distinct(2) have
    "''select-next-question-pool'' \<notin> sd_id ` set (concat (map PHASE_SEGMENTS (phases_after p q)))" by (rule contra_subsetD)
  with parts(2) have "insert ''select-next-question-pool'' (sd_id ` set (PHASE_SEGMENTS p)) \<inter>
      sd_id ` set (concat (map PHASE_SEGMENTS (phases_after p q))) = {}"
    by (simp only: Int_insert_left if_False)
  from subset_trans [OF Int_mono [OF assms(4) subset_refl] equalityD1 [OF this]] have
    "sd_id ` set segment \<inter> sd_id ` set (concat (map PHASE_SEGMENTS (phases_after p q))) = {}"
    by (rule subset_empty [THEN iffD1])
  with parts(1) assms(3) show ?thesis by (simp add: ds)
qed

lemma spans_distinct:
  "list_all (\<lambda>(p, natural, segment). distinct (map sd_id natural) \<and> distinct (map sd_id segment) \<and>
     sd_id ` set segment \<subseteq> insert ''select-next-question-pool'' (sd_id ` set (PHASE_SEGMENTS p))) spans"
  by (simp add: spans_def PHASE_SEGMENTS_def FULL_OPTIMIZATION_STEPS_def table_ids flip: set_map)

lemma plan_definitions_distinct:
  assumes "plan_definitions i = Inr ds"
  shows "distinct (map sd_id ds)"
proof (cases i rule: plan_definitions_cases)
  case inspection
  with assms full_ids_distinct(4) show ?thesis by (simp split: if_split_asm)
next
  case (chain p natural segment)
  from bspec [OF spans_distinct [unfolded list_all_iff] chain(1)]
  have "distinct (map sd_id natural)" "distinct (map sd_id segment)"
    "sd_id ` set segment \<subseteq> insert ''select-next-question-pool'' (sd_id ` set (PHASE_SEGMENTS p))"
    by simp_all
  from span_distinct [OF assms [unfolded chain(3)] this] show ?thesis .
qed

lemma steps_Cons: "steps (x # xs) = step_of x StepReady # map (\<lambda>sd. step_of sd StepPending) xs"
proof -
  have "map (\<lambda>(i, sd). step_of sd (if i = 0 then StepReady else StepPending)) (enumerate (Suc n) xs) =
      map (\<lambda>sd. step_of sd StepPending) xs" for n
    by (induction xs arbitrary: n) simp_all
  then show ?thesis by (simp add: steps_def)
qed

text \<open>A plan is the undecided gate of the next round, or an acknowledgement and its definitions.\<close>

lemma plan_cases:
  assumes "planGeoOperation i = Inr plan"
  obtains (undecided) "in_intent i = NextRoundOptimization" "in_updateKnowledge i = None" "in_endingPhase i = None"
      "gp_steps plan = [decide_knowledge_step]" "gp_status plan = OpAwaitingConfirmation"
      "gp_pendingConfirmation plan = Some nextRoundKnowledgeDecision"
  | (decided) ds ack summary where "plan_definitions i = Inr ds" "sd_id ack = ''acknowledge-plan''"
      "sd_capability ack = sd_capability (hd ds)" "sd_irreversible ack = None"
      "sd_confirmation ack = Some (confirmation PlanAck GeoOperationAuthority (sd_title ack) summary)"
      "gp_steps plan = step_of ack StepAwaitingConfirmation # map (\<lambda>sd. step_of sd StepPending) ds"
      "gp_status plan = OpAwaitingConfirmation" "gp_pendingConfirmation plan = sd_confirmation ack"
proof (cases "in_intent i = NextRoundOptimization \<and> in_updateKnowledge i = None")
  case True
  with assms show thesis
    by (intro undecided) (auto simp: planGeoOperation_def and_then_Inr split: if_split_asm)
next
  case False
  with assms obtain ds reason ack where ds: "plan_definitions i = Inr ds"
    and ack: "planAckStep (sd_capability (hd ds)) (in_startingPointReason i) (endingStatement (in_endingPhase i) reason) = Inr ack"
    and plan: "gp_steps plan = await_first (steps (ack # ds))" "gp_pendingConfirmation plan = first_confirmation (steps (ack # ds))"
      "gp_status plan = (if first_confirmation (steps (ack # ds)) \<noteq> None then OpAwaitingConfirmation else OpReady)"
    by (auto simp: planGeoOperation_def and_then_Inr Let_def simp del: not_None_eq)
  from ack obtain summary where A: "sd_id ack = ''acknowledge-plan''" "sd_capability ack = sd_capability (hd ds)"
    "sd_irreversible ack = None"
    "sd_confirmation ack = Some (confirmation PlanAck GeoOperationAuthority (sd_title ack) summary)"
    by (auto simp: planAckStep_def and_then_Inr Let_def)
  show thesis
    by (rule decided [OF ds A])
      (simp_all add: plan await_first_def first_confirmation_def steps_Cons A step_of_def)
qed

text \<open>
  What the user can rely on at a step: it requires a confirmation exactly if it carries one, an
  irreversible step carries one that only the user interface can give, and no profile of the
  autonomy dial confirms an irreversible step or a gate of the user interface.
\<close>

definition gate_ok :: "geo_step \<Rightarrow> bool" where
  "gate_ok s \<longleftrightarrow>
     (gs_requiresConfirmation s \<longleftrightarrow> gs_confirmation s \<noteq> None) \<and>
     (gs_irreversible s \<longrightarrow> (\<exists>c. gs_confirmation s = Some c \<and> gc_authority c \<in> set RUST_UI_CONFIRMATION_AUTHORITIES)) \<and>
     (\<forall>c profile. gs_confirmation s = Some c \<longrightarrow> gateAutoConfirms profile (gc_kind c) \<longrightarrow>
        \<not> gs_irreversible s \<and> gc_authority c \<notin> set RUST_UI_CONFIRMATION_AUTHORITIES)"

lemma gate_ok_step: "step_gated sd \<Longrightarrow> gate_ok (step_of sd status)"
  by (auto simp: gate_ok_def step_gated_def step_of_def gateAutoConfirms_def AUTO_CONFIRMABLE_CONFIRMATION_KINDS_def
      RUST_UI_CONFIRMATION_AUTHORITIES_def split: option.split_asm if_split_asm)

lemma gate_ok_ack:
  "sd_irreversible ack = None \<Longrightarrow> sd_confirmation ack = Some (confirmation PlanAck GeoOperationAuthority t u) \<Longrightarrow>
   gate_ok (step_of ack status)"
  by (simp add: gate_ok_def step_of_def confirmation_def gateAutoConfirms_def AUTO_CONFIRMABLE_CONFIRMATION_KINDS_def)

lemma gate_ok_decide: "gate_ok decide_knowledge_step"
  by (simp add: gate_ok_def decide_knowledge_step_def nextRoundKnowledgeDecision_def confirmation_def
      gateAutoConfirms_def AUTO_CONFIRMABLE_CONFIRMATION_KINDS_def)

text \<open>
  C38: no plan can run past a gate. Whatever is asked for, a plan starts at a gate that waits for the
  user, every other step is pending, the steps have distinct names, and at every step the user
  keeps the decisions: irreversible steps wait for the user interface, in every autonomy profile.
\<close>

theorem plan_gates:
  assumes "planGeoOperation i = Inr plan"
  shows "\<exists>first rest. gp_steps plan = first # rest \<and> gs_status first = StepAwaitingConfirmation \<and>
    gp_status plan = OpAwaitingConfirmation \<and> gp_pendingConfirmation plan = gs_confirmation first \<and>
    gs_confirmation first \<noteq> None \<and> (\<forall>s \<in> set rest. gs_status s = StepPending) \<and>
    distinct (map gs_id (gp_steps plan)) \<and> (\<forall>s \<in> set (gp_steps plan). gate_ok s)"
  using assms
proof (cases rule: plan_cases)
  case undecided
  with gate_ok_decide show ?thesis by (simp add: decide_knowledge_step_def)
next
  case (decided ds ack summary)
  note known = plan_definitions_known [OF decided(1)]
  have "sd_id ack \<notin> sd_id ` set ds"
    using image_mono [OF known] full_ids_distinct(3) unfolding decided(2) by (rule contra_subsetD)
  with plan_definitions_distinct [OF decided(1)] have ids: "distinct (map gs_id (gp_steps plan))"
    by (simp add: decided(6) step_of_def comp_def image_iff)
  have "\<forall>sd \<in> set ds. step_gated sd" using known tables_gated by (auto simp: list_all_iff)
  then have gates: "\<forall>s \<in> set (gp_steps plan). gate_ok s"
    using gate_ok_step gate_ok_ack [OF decided(4,5)] by (auto simp: decided(6))
  from ids gates show ?thesis
    by (intro exI [of _ "step_of ack StepAwaitingConfirmation"] exI [of _ "map (\<lambda>sd. step_of sd StepPending) ds"] conjI)
      (simp_all add: decided(5-8) step_of_def [of ack] step_of_def [of _ StepPending])
qed

definition demo_plan_input :: plan_input where
  "demo_plan_input = \<lparr>in_intent = PublishingIntent, in_goal = ascii ''publish'', in_inputRefs = None,
     in_sourceOperationId = None, in_updateKnowledge = None, in_startingPointReason = None,
     in_endingPhase = Some PhasePublishing, in_endingPointReason = None\<rparr>"

lemma demo_goal: "requireGoal (ascii ''publish'') = Inr (ascii ''publish'')"
  by (simp add: requireGoal_def js_trim_def js_space_def ascii_def)

lemma demo_plan: "\<exists>plan. planGeoOperation demo_plan_input = Inr plan"
proof -
  have "plan_definitions demo_plan_input = Inr (DISTRIBUTION_STEPS @ PUBLISH_STEPS)"
    by (simp add: plan_definitions_def demo_plan_input_def cloneRefs_def spanDefinitions_def index_of_def
        phases_after_def GEO_OPERATION_PHASE_ID_ORDER_def PHASE_SEGMENTS_def)
  then show ?thesis
    by (simp add: planGeoOperation_def demo_goal) (simp add: demo_plan_input_def demo_goal endingPointReasonOf_def
      planAckStep_def startingPointReasonOf_def trimmed_def Let_def)
qed

theorem plan_gates_witness:
  "\<exists>plan first rest. planGeoOperation demo_plan_input = Inr plan \<and> gp_steps plan = first # rest \<and>
     gs_status first = StepAwaitingConfirmation \<and> gate_ok first"
  using demo_plan plan_gates [of demo_plan_input] by fastforce

section \<open>Grouping and spans\<close>

lemma phase_capabilities: "(\<exists>p \<in> set GEO_OPERATION_PHASES. c \<in> set (op_capabilities p)) \<longleftrightarrow> c \<noteq> GeoObservation"
  by (cases c) (simp_all add: GEO_OPERATION_PHASES_def)

lemma grouped_steps:
  "set (concat (map sg_steps (filter (\<lambda>g. sg_steps g \<noteq> []) (map (phase_group xs) GEO_OPERATION_PHASES)))) =
     {s \<in> set xs. gs_capability s \<noteq> GeoObservation}"
proof -
  have "set (concat (map sg_steps (filter (\<lambda>g. sg_steps g \<noteq> []) (map (phase_group xs) ps)))) =
      {s \<in> set xs. \<exists>p \<in> set ps. gs_capability s \<in> set (op_capabilities p)}" for ps
    by (auto simp: phase_group_def filter_empty_conv)
  then show ?thesis by (simp only: phase_capabilities)
qed

lemma group_steps_eq:
  "groupGeoOperationSteps xs =
     filter (\<lambda>g. sg_steps g \<noteq> []) (map (phase_group xs) GEO_OPERATION_PHASES) @
     (let rest = filter (\<lambda>s. gs_capability s = GeoObservation) xs
      in if rest = [] then [] else [\<lparr>sg_id = ''other'', sg_title = [20854, 20182], sg_steps = rest\<rparr>])"
proof -
  have "filter (\<lambda>s. s \<notin> {s \<in> set xs. gs_capability s \<noteq> GeoObservation}) xs =
      filter (\<lambda>s. gs_capability s = GeoObservation) xs"
    by (rule filter_cong) auto
  then show ?thesis unfolding groupGeoOperationSteps_def Let_def grouped_steps by simp
qed

lemma concat_nonempty_groups: "concat (map f (filter (\<lambda>g. f g \<noteq> []) gs)) = concat (map f gs)"
  by (induction gs) auto

text \<open>
  Grouping loses and repeats nothing. For any list of steps the groups are not empty, their steps
  together are exactly the given steps, each once, in their order within a group, and a step whose
  capability belongs to no phase ends in the group of the others.
\<close>

theorem groupGeoOperationSteps_partition:
  "mset (concat (map sg_steps (groupGeoOperationSteps xs))) = mset xs \<and>
   [] \<notin> sg_steps ` set (groupGeoOperationSteps xs) \<and> distinct (map sg_id (groupGeoOperationSteps xs)) \<and>
   sg_steps ` set (groupGeoOperationSteps xs) \<subseteq>
     insert (filter (\<lambda>s. gs_capability s = GeoObservation) xs)
       ((\<lambda>p. filter (\<lambda>s. gs_capability s \<in> set (op_capabilities p)) xs) ` set GEO_OPERATION_PHASES)"
proof (intro conjI)
  let ?rest = "filter (\<lambda>s. gs_capability s = GeoObservation) xs"
  have "concat (map sg_steps (groupGeoOperationSteps xs)) =
      concat (map sg_steps (map (phase_group xs) GEO_OPERATION_PHASES)) @ ?rest"
    unfolding group_steps_eq Let_def by (simp add: concat_nonempty_groups)
  moreover have "mset (concat (map sg_steps (map (phase_group xs) GEO_OPERATION_PHASES)) @ ?rest) = mset xs"
  proof (induction xs)
    case Nil
    show ?case by (simp add: GEO_OPERATION_PHASES_def phase_group_def)
  next
    case (Cons s xs)
    then show ?case by (cases "gs_capability s") (simp_all add: GEO_OPERATION_PHASES_def phase_group_def)
  qed
  ultimately show "mset (concat (map sg_steps (groupGeoOperationSteps xs))) = mset xs" by simp
  show "[] \<notin> sg_steps ` set (groupGeoOperationSteps xs)" by (auto simp: group_steps_eq Let_def)
  have "distinct (map sg_id (map (phase_group xs) GEO_OPERATION_PHASES))"
    "''other'' \<notin> set (map sg_id (map (phase_group xs) GEO_OPERATION_PHASES))"
    by (simp_all add: GEO_OPERATION_PHASES_def phase_group_def)
  then show "distinct (map sg_id (groupGeoOperationSteps xs))"
    unfolding group_steps_eq Let_def by (auto simp: distinct_map_filter)
  show "sg_steps ` set (groupGeoOperationSteps xs) \<subseteq>
     insert ?rest ((\<lambda>p. filter (\<lambda>s. gs_capability s \<in> set (op_capabilities p)) xs) ` set GEO_OPERATION_PHASES)"
    unfolding group_steps_eq Let_def by (auto simp: phase_group_def)
qed

lemma group_ids:
  assumes "GeoObservation \<notin> gs_capability ` set xs"
  shows "map sg_id (groupGeoOperationSteps xs) =
    map op_id (filter (\<lambda>p. set (op_capabilities p) \<inter> gs_capability ` set xs \<noteq> {}) GEO_OPERATION_PHASES)"
proof -
  have "filter (\<lambda>s. gs_capability s = GeoObservation) xs = []" using assms by (force simp: filter_empty_conv)
  then have "map sg_id (groupGeoOperationSteps xs) =
      map (sg_id \<circ> phase_group xs) (filter (\<lambda>p. sg_steps (phase_group xs p) \<noteq> []) GEO_OPERATION_PHASES)"
    by (simp add: group_steps_eq filter_map comp_def)
  also have "\<dots> = map op_id (filter (\<lambda>p. set (op_capabilities p) \<inter> gs_capability ` set xs \<noteq> {}) GEO_OPERATION_PHASES)"
    by (rule map_cong [OF filter_cong]) (auto simp: phase_group_def filter_empty_conv)
  finally show ?thesis .
qed

definition phase_caps :: "geo_phase \<Rightarrow> geo_capability set" where
  "phase_caps p = sd_capability ` set (PHASE_SEGMENTS p)"

lemma phase_caps_simps:
  "phase_caps PhaseKnowledge = {BrandMaterialImport, BrandKnowledge}" "phase_caps PhaseQuestions = {QuestionOpportunities}"
  "phase_caps PhaseContent = {ContentPlanning, ContentProduction}" "phase_caps PhaseDistribution = {DistributionPlanning}"
  "phase_caps PhasePublishing = {Publishing}" "phase_caps PhaseMonitoring = {Monitoring, GeoDashboard}"
  by (simp_all add: phase_caps_def PHASE_SEGMENTS_def step_tables)

lemma spans_caps:
  "list_all (\<lambda>(p, natural, segment). segment \<noteq> [] \<and> sd_capability ` set segment \<subseteq> phase_caps p) spans"
  by (simp add: spans_def phase_caps_simps) (simp add: step_tables)

lemma chain_groups:
  assumes "index_of p < index_of q" "C \<noteq> {}" "C \<subseteq> phase_caps p"
  shows "map op_id (filter (\<lambda>r. set (op_capabilities r) \<inter> (C \<union> \<Union> (phase_caps ` set (phases_after p q))) \<noteq> {})
    GEO_OPERATION_PHASES) = map phase_id (p # phases_after p q)"
  using assms
  by (cases p; cases q)
    (auto simp: index_of_def phases_after_def GEO_OPERATION_PHASE_ID_ORDER_def phase_caps_simps GEO_OPERATION_PHASES_def
      phase_id_def)

lemma span_groups:
  assumes "(p, natural, segment) \<in> set spans" "spanDefinitions p (Some q) natural segment = Inr ds"
    and "sd_capability ack = sd_capability (hd ds)"
    and xs: "xs = step_of ack st # map (\<lambda>sd. step_of sd StepPending) ds"
  shows "map sg_id (groupGeoOperationSteps xs) = map phase_id (p # phases_after p q)"
proof -
  from assms(2) have less: "index_of p < index_of q"
    and ds: "ds = segment @ concat (map PHASE_SEGMENTS (phases_after p q))"
    by (auto simp: spanDefinitions_def split: if_split_asm)
  from bspec [OF spans_caps [unfolded list_all_iff] assms(1)] have seg: "segment \<noteq> []"
    "sd_capability ` set segment \<subseteq> phase_caps p" by simp_all
  have "sd_capability ack \<in> sd_capability ` set segment" using seg(1) assms(3) by (simp add: ds)
  moreover have "gs_capability (step_of sd st) = sd_capability sd" for sd st by (simp add: step_of_def)
  ultimately have caps: "gs_capability ` set xs = sd_capability ` set segment \<union> \<Union> (phase_caps ` set (phases_after p q))"
    by (simp add: xs ds phase_caps_def image_Un image_image image_UN insert_absorb)
  have "GeoObservation \<notin> phase_caps r" for r by (cases r) (simp_all add: phase_caps_simps)
  with seg(2) have "GeoObservation \<notin> gs_capability ` set xs" unfolding caps by auto
  from group_ids [OF this] show ?thesis
    unfolding caps using chain_groups [OF less _ seg(2)] seg(1) by simp
qed

lemma and_then_defined: "(\<exists>z. and_then x f = Inr z) \<longleftrightarrow> (\<exists>y. x = Inr y \<and> (\<exists>z. f y = Inr z))"
  by (cases x) auto

lemma reasons_Inr:
  "(\<exists>x. endingPointReasonOf r (Some q) = Inr x) \<longleftrightarrow> length (trimmed r) \<le> 300"
  "(\<exists>x. planAckStep c r t = Inr x) \<longleftrightarrow> length (trimmed r) \<le> 300"
  "(\<exists>g. requireGoal goal = Inr g) \<longleftrightarrow> js_trim goal \<noteq> [] \<and> length (js_trim goal) \<le> 500"
  by (auto simp: endingPointReasonOf_def planAckStep_def startingPointReasonOf_def requireGoal_def and_then_Inr
      SPAN_POINT_REASON_MAX_CHARS_def Let_def)

text \<open>
  C40: a plan with an ending phase covers exactly the phases from its start to that end. It is refused
  unless the goal has 1 to 500 characters, the reasons at most 300, the question whether to update
  the knowledge is decided, and the ending lies strictly after the phase the intent starts in; when
  it is made, its groups are the phases from the start to the end, in the order of the chain.
\<close>

theorem plan_span_exact:
  assumes ending: "in_endingPhase i = Some q"
  shows "((\<exists>plan. planGeoOperation i = Inr plan) \<longleftrightarrow>
      js_trim (in_goal i) \<noteq> [] \<and> length (js_trim (in_goal i)) \<le> 500 \<and>
      length (trimmed (in_startingPointReason i)) \<le> 300 \<and> length (trimmed (in_endingPointReason i)) \<le> 300 \<and>
      \<not> (in_intent i = NextRoundOptimization \<and> in_updateKnowledge i = None) \<and>
      (\<exists>p. start_phase i = Some p \<and> index_of p < index_of q)) \<and>
    (\<forall>plan. planGeoOperation i = Inr plan \<longrightarrow>
      (\<exists>p. start_phase i = Some p \<and>
        map sg_id (groupGeoOperationSteps (gp_steps plan)) = map phase_id (p # phases_after p q)))"
proof
  have defs: "(\<exists>ds. plan_definitions i = Inr ds) \<longleftrightarrow> (\<exists>p. start_phase i = Some p \<and> index_of p < index_of q)"
    by (cases i rule: plan_definitions_cases) (auto simp: ending spanDefinitions_def)
  have "(\<exists>plan. planGeoOperation i = Inr plan) \<longleftrightarrow>
      (\<exists>g. requireGoal (in_goal i) = Inr g) \<and>
      \<not> (in_intent i = NextRoundOptimization \<and> in_updateKnowledge i = None) \<and>
      (\<exists>ds. plan_definitions i = Inr ds \<and>
        (\<exists>x. endingPointReasonOf (in_endingPointReason i) (Some q) = Inr x \<and>
          (\<exists>ack. planAckStep (sd_capability (hd ds)) (in_startingPointReason i) (endingStatement (Some q) x) = Inr ack)))"
    unfolding planGeoOperation_def and_then_defined
    by (cases "in_intent i = NextRoundOptimization \<and> in_updateKnowledge i = None")
      (auto simp: and_then_defined ending Let_def)
  then show "(\<exists>plan. planGeoOperation i = Inr plan) \<longleftrightarrow>
      js_trim (in_goal i) \<noteq> [] \<and> length (js_trim (in_goal i)) \<le> 500 \<and>
      length (trimmed (in_startingPointReason i)) \<le> 300 \<and> length (trimmed (in_endingPointReason i)) \<le> 300 \<and>
      \<not> (in_intent i = NextRoundOptimization \<and> in_updateKnowledge i = None) \<and>
      (\<exists>p. start_phase i = Some p \<and> index_of p < index_of q)"
    unfolding reasons_Inr defs [symmetric] using reasons_Inr(1) by blast
  show "\<forall>plan. planGeoOperation i = Inr plan \<longrightarrow> (\<exists>p. start_phase i = Some p \<and>
      map sg_id (groupGeoOperationSteps (gp_steps plan)) = map phase_id (p # phases_after p q))"
  proof (intro allI impI)
    fix plan
    assume "planGeoOperation i = Inr plan"
    then show "\<exists>p. start_phase i = Some p \<and>
      map sg_id (groupGeoOperationSteps (gp_steps plan)) = map phase_id (p # phases_after p q)"
    proof (cases rule: plan_cases)
      case (decided ds ack summary)
      show ?thesis
        by (cases i rule: plan_definitions_cases)
          (use decided(1) span_groups [OF _ _ decided(3,6)] ending in auto)
    qed (simp add: ending)
  qed
qed

theorem plan_span_exact_witness:
  "\<exists>plan. planGeoOperation demo_plan_input = Inr plan \<and>
     map sg_id (groupGeoOperationSteps (gp_steps plan)) = [''distribution'', ''publishing'']"
proof -
  have "in_endingPhase demo_plan_input = Some PhasePublishing" "start_phase demo_plan_input = Some PhaseDistribution"
    by (simp_all add: demo_plan_input_def start_phase_def cloneRefs_def)
  moreover have "map phase_id (PhaseDistribution # phases_after PhaseDistribution PhasePublishing) =
      [''distribution'', ''publishing'']"
    by (simp add: phases_after_def index_of_def GEO_OPERATION_PHASE_ID_ORDER_def phase_id_def)
  moreover note demo_plan plan_span_exact [of demo_plan_input PhasePublishing]
  ultimately show ?thesis by auto
qed

end
