(* ===== verification/Distribution.thy ===== *)
theory Distribution
  imports Recall Operation "HOL-Library.Product_Lexorder"
begin

text \<open>
  The distribution plan of \<open>src/shared/geo/distributionPlan.ts\<close> after its candidates are known: the
  data of a plan, the check of a request, the reading of a pool resource, the passive sources, the
  tiers, the assignment of channels to articles, the blocking issues, the edit and the gate of the
  confirmation. The discovery of the candidates is theory \<open>Candidates\<close>. Numbers are exact
  rationals; \<open>None\<close> stands for a number that is not finite where the code tests for it.
\<close>

section \<open>Data\<close>

datatype content_type = Guide | Showcase | Ranking | News | NewsLight

datatype recall_path = PassivePath | ActivePath | FallbackPath | PreferencePath

datatype plan_status = Discovering | Draft | Unavailable | Confirmed

datatype provider_state = ProviderPending | ProviderAvailable | ProviderUnavailable

datatype mapping_mode = OneToOne | RatioMode

datatype assign_reason = SourceEvidence | ContentFit | WeightedScore | Unassigned

record question_source =
  qs_id :: utext
  qs_questionId :: utext
  qs_question :: utext
  qs_title :: utext
  qs_url :: utext
  qs_articleIds :: "utext list"
  qs_siteName :: "utext option"
  qs_resolvedAccountName :: "utext option"

record start_input =
  si_articleOperationId :: utext
  si_articleIds :: "utext list"
  si_industry :: utext
  si_targetAudience :: utext
  si_questionSources :: "question_source list"
  si_preferredResourceIds :: "rat list"
  si_mappingMode :: mapping_mode
  si_ratio_media :: rat
  si_ratio_weMedia :: rat
  si_perArticleMaxPoints :: "rat option"
  si_totalMaxPoints :: "rat option"
  si_budgetCny :: "rat option"
  si_publishStartAt :: utext

record article_snapshot =
  ar_id :: utext
  ar_operationId :: utext
  ar_approvedRevision :: int
  ar_title :: utext
  ar_topic :: utext
  ar_contentType :: content_type

record distribution_resource =
  sn_resourceId :: int
  sn_kind :: publish_order_kind
  sn_name :: utext
  sn_status :: "rat option"
  sn_price :: "utext option"
  sn_publishedRate :: "rat option"
  sn_entranceLink :: "utext option"
  sn_caseLink :: "utext option"
  sn_remark :: "utext option"
  sn_channelType :: "rat option"
  sn_industryCategory :: "rat option"
  sn_area :: "rat option"
  sn_canWeekend :: "bool option"
  sn_publishSpeed :: "rat option"
  sn_publishedAverageMinutes :: "rat option"
  sn_platform :: "rat option"
  sn_geoPlatforms :: "utext list"

record evidence =
  ev_path :: recall_path
  ev_weight :: rat
  ev_label :: utext
  ev_reference :: utext
  ev_url :: "utext option"
  ev_articleIds :: "utext list"

record availability =
  av_state :: string
  av_providerStatus :: int
  av_basis :: string

record candidate =
  cd_resourceId :: int
  cd_kind :: publish_order_kind
  cd_name :: utext
  cd_price :: "rat option"
  cd_publishedRate :: "rat option"
  cd_availability :: availability
  cd_weight :: rat
  cd_hitCount :: nat
  cd_pathHits :: "recall_path list"
  cd_evidence :: "evidence list"
  cd_fitReasons :: "utext list"
  cd_risks :: "utext list"
  cd_uncertainties :: "utext list"
  cd_snapshot :: distribution_resource
  cd_variantFamily :: "utext option"

record assignment =
  as_articleId :: utext
  as_resourceId :: "int option"
  as_reason :: assign_reason
  as_scheduledAt :: utext

text \<open>The fields of a plan that the operations below read or write.\<close>

record distribution_plan =
  pl_status :: plan_status
  pl_providerState :: provider_state
  pl_articles :: "article_snapshot list"
  pl_candidates :: "candidate list"
  pl_selectedResourceIds :: "int list"
  pl_assignments :: "assignment list"
  pl_perArticleMaxPoints :: "int option"
  pl_totalMaxPoints :: "int option"
  pl_budgetCny :: rat
  pl_publishStartAt :: utext
  pl_blockingIssues :: "string list"

definition DEFAULT_PER_ARTICLE_MAX_POINTS :: int where
  "DEFAULT_PER_ARTICLE_MAX_POINTS = 3000"

definition MAX_DISTRIBUTION_SPEND_LIMIT_POINTS :: int where
  "MAX_DISTRIBUTION_SPEND_LIMIT_POINTS = 160000000"

definition PASSIVE_PER_QUESTION_CITATION_CAP :: nat where
  "PASSIVE_PER_QUESTION_CITATION_CAP = 10"

definition WE_MEDIA_INDUSTRY_NAMES :: "(int \<times> utext) list" where
  "WE_MEDIA_INDUSTRY_NAMES =
    [(1, [25991, 21270]), (2, [21382, 21490]), (3, [19977, 20892]), (4, [36130, 32463]), (5, [31185,
      25216]), (6, [20307, 32946]), (7, [27773, 36710]),
     (8, [23089, 20048]), (9, [26102, 23578]), (10, [20581, 24247]), (11, [25945, 32946]), (12, [27597,
       23156]), (13, [32654, 39135]),
     (14, [26053, 28216]), (15, [20844, 30410]), (16, [28216, 25103]), (17, [21160, 28459]), (18, [31038,
       20250]), (19, [25151, 20135]),
     (20, [32844, 22330]), (21, [24773, 24863]), (22, [25630, 31505]), (23, [26032, 38395]), (24, [23478,
       23621]), (25, [29983, 27963]),
     (100, [20854, 20182])]"

definition CONTENT_KIND_FIT :: "content_type \<Rightarrow> publish_order_kind \<Rightarrow> rat" where
  "CONTENT_KIND_FIT t k =
     (case t of
        Guide \<Rightarrow> (case k of Media \<Rightarrow> 1 / 2 | WeMedia \<Rightarrow> 1 / 2)
      | Showcase \<Rightarrow> (case k of Media \<Rightarrow> 2 / 5 | WeMedia \<Rightarrow> 1)
      | Ranking \<Rightarrow> (case k of Media \<Rightarrow> 3 / 5 | WeMedia \<Rightarrow> 2 / 5)
      | News \<Rightarrow> (case k of Media \<Rightarrow> 1 | WeMedia \<Rightarrow> 3 / 10)
      | NewsLight \<Rightarrow> (case k of Media \<Rightarrow> 1 | WeMedia \<Rightarrow> 3 / 10))"

section \<open>The request\<close>

definition normalizedText :: "utext \<Rightarrow> nat \<Rightarrow> string \<Rightarrow> utext planned" where
  "normalizedText value maxLength code =
     (let normalized = collapse_spaces (js_trim value)
      in if normalized = [] \<or> maxLength < length normalized then Inl code else Inr normalized)"

definition validIsoTimestamp :: "js_runtime \<Rightarrow> utext \<Rightarrow> utext planned" where
  "validIsoTimestamp js value =
     (let normalized = js_trim value
      in if normalized = [] then Inl ''distribution_plan_publish_time_invalid''
         else case jr_iso js normalized of
                None \<Rightarrow> Inl ''distribution_plan_publish_time_invalid'' | Some stamp \<Rightarrow> Inr stamp)"

definition validHttpUrl :: "js_runtime \<Rightarrow> utext \<Rightarrow> utext planned" where
  "validHttpUrl js value =
     (case jr_url js (js_trim value) of
        None \<Rightarrow> Inl ''distribution_plan_question_source_url_invalid''
      | Some url \<Rightarrow>
          if up_protocol url = ascii ''http:'' \<or> up_protocol url = ascii ''https:'' then Inr (up_href url)
          else Inl ''distribution_plan_question_source_url_invalid'')"

fun each_planned :: "('a \<Rightarrow> 'b planned) \<Rightarrow> 'a list \<Rightarrow> 'b list planned" where
  "each_planned f [] = Inr []"
| "each_planned f (x # xs) = and_then (f x) (\<lambda>y. and_then (each_planned f xs) (\<lambda>ys. Inr (y # ys)))"

definition optional_text :: "nat \<Rightarrow> utext option \<Rightarrow> utext option" where
  "optional_text maxLength value =
     (case value of None \<Rightarrow> None
      | Some t \<Rightarrow> if js_trim t = [] then None else Some (utf16_take maxLength (js_trim t)))"

definition validate_source :: "js_runtime \<Rightarrow> utext list \<Rightarrow> nat \<times> question_source \<Rightarrow> question_source planned" where
  "validate_source js articleIds = (\<lambda>(index, source).
     and_then (normalizedText (if qs_id source = [] then ascii (''source-'' @ show_nat (index + 1)) else qs_id source)
        160 ''distribution_plan_source_id_invalid'') (\<lambda>sourceId.
     and_then (normalizedText (qs_questionId source) 160 ''distribution_plan_question_id_invalid'') (\<lambda>questionId.
     and_then (normalizedText (qs_question source) 500 ''distribution_plan_question_invalid'') (\<lambda>question.
     and_then (normalizedText (qs_title source) 300 ''distribution_plan_source_title_invalid'') (\<lambda>title.
     and_then (validHttpUrl js (qs_url source)) (\<lambda>url.
       Inr \<lparr>qs_id = sourceId, qs_questionId = questionId, qs_question = question, qs_title = title, qs_url = url,
            qs_articleIds = js_unique (filter (\<lambda>i. i \<in> set articleIds) (qs_articleIds source)),
            qs_siteName = optional_text 120 (qs_siteName source),
            qs_resolvedAccountName = optional_text 60 (qs_resolvedAccountName source)\<rparr>))))))"

definition is_integer :: "rat \<Rightarrow> bool" where
  "is_integer x \<longleftrightarrow> of_int \<lfloor>x\<rfloor> = x"

definition js_trunc :: "rat \<Rightarrow> rat" where
  "js_trunc x = of_int (if 0 \<le> x then \<lfloor>x\<rfloor> else \<lceil>x\<rceil>)"

definition limit_valid :: "rat option \<Rightarrow> bool" where
  "limit_valid limit \<longleftrightarrow>
     (case limit of None \<Rightarrow> False
      | Some x \<Rightarrow> is_integer x \<and> 1 \<le> x \<and> x \<le> of_int MAX_DISTRIBUTION_SPEND_LIMIT_POINTS)"

definition budget_valid :: "rat option \<Rightarrow> bool" where
  "budget_valid budget \<longleftrightarrow> (case budget of None \<Rightarrow> False | Some b \<Rightarrow> 0 \<le> b \<and> b \<le> 10000000)"

definition round_cents :: "rat \<Rightarrow> rat" where
  "round_cents b = of_int (math_round (b * 100)) / 100"

definition validateDistributionPlanStartInput :: "js_runtime \<Rightarrow> start_input \<Rightarrow> start_input planned" where
  "validateDistributionPlanStartInput js input =
     and_then (normalizedText (si_articleOperationId input) 160 ''distribution_plan_article_operation_invalid'')
       (\<lambda>articleOperationId.
     and_then (each_planned (\<lambda>i. normalizedText i 160 ''distribution_plan_article_id_invalid'') (si_articleIds input))
       (\<lambda>ids. let articleIds = js_unique ids in
     if articleIds = [] \<or> 50 < length articleIds then Inl ''distribution_plan_articles_invalid''
     else and_then (each_planned (validate_source js articleIds)
                      (zip [0..<length (si_questionSources input)] (si_questionSources input)))
       (\<lambda>sources.
     if 250 < length sources then Inl ''distribution_plan_sources_invalid''
     else if \<not> limit_valid (si_perArticleMaxPoints input) then Inl ''distribution_plan_per_article_limit_invalid''
     else if \<not> limit_valid (si_totalMaxPoints input) then Inl ''distribution_plan_total_limit_invalid''
     else if \<not> budget_valid (si_budgetCny input) then Inl ''distribution_plan_budget_invalid''
     else let media = js_trunc (si_ratio_media input); weMedia = js_trunc (si_ratio_weMedia input) in
     if media < 0 \<or> weMedia < 0 \<or> media + weMedia < 1 then Inl ''distribution_plan_ratio_invalid''
     else and_then (normalizedText (si_industry input) 200 ''distribution_plan_industry_invalid'') (\<lambda>industry.
          and_then (normalizedText (si_targetAudience input) 500 ''distribution_plan_audience_invalid'') (\<lambda>audience.
          and_then (validIsoTimestamp js (si_publishStartAt input)) (\<lambda>startAt.
            Inr (input\<lparr>si_articleOperationId := articleOperationId, si_articleIds := articleIds,
                       si_industry := industry, si_targetAudience := audience, si_questionSources := sources,
                       si_preferredResourceIds := js_unique (filter is_integer (si_preferredResourceIds input)),
                       si_ratio_media := media, si_ratio_weMedia := weMedia,
                       si_budgetCny := map_option round_cents (si_budgetCny input),
                       si_publishStartAt := startAt\<rparr>)))))))"

section \<open>Resources of the pool\<close>

datatype price_input = PriceText utext | PriceNumber rat

record resource_input =
  in_id :: rat
  in_name :: "utext option"
  in_status :: "rat option"
  in_price :: "price_input option"
  in_published_rate :: "rat option"
  in_entrance_link :: "utext option"
  in_case_link :: "utext option"
  in_remark :: "utext option"
  in_channel_type :: "rat option"
  in_industry_category :: "rat option"
  in_area :: "rat option"
  in_can_weekend :: "bool option"
  in_publish_speed :: "rat option"
  in_published_avg :: "rat option"
  in_platform :: "rat option"
  in_geo_platforms :: "utext option list option"

definition trimmed_text :: "utext option \<Rightarrow> utext option" where
  "trimmed_text value =
     (case value of None \<Rightarrow> None | Some t \<Rightarrow> if js_trim t = [] then None else Some (js_trim t))"

definition normalizeDistributionResource ::
  "js_runtime \<Rightarrow> publish_order_kind \<Rightarrow> resource_input \<Rightarrow> distribution_resource option" where
  "normalizeDistributionResource js kind resource =
     (if \<not> is_integer (in_id resource) \<or> in_id resource \<le> 0 then None
      else case trimmed_text (in_name resource) of
             None \<Rightarrow> None
           | Some name \<Rightarrow>
               if 300 < length name then None
               else Some \<lparr>sn_resourceId = \<lfloor>in_id resource\<rfloor>, sn_kind = kind, sn_name = name,
                 sn_status = in_status resource,
                 sn_price = trimmed_text (case in_price resource of None \<Rightarrow> None | Some (PriceText t) \<Rightarrow> Some t
                                          | Some (PriceNumber x) \<Rightarrow> Some (jr_show js x)),
                 sn_publishedRate = in_published_rate resource,
                 sn_entranceLink = trimmed_text (in_entrance_link resource),
                 sn_caseLink = trimmed_text (in_case_link resource), sn_remark = trimmed_text (in_remark resource),
                 sn_channelType = in_channel_type resource, sn_industryCategory = in_industry_category resource,
                 sn_area = in_area resource, sn_canWeekend = in_can_weekend resource,
                 sn_publishSpeed = in_publish_speed resource,
                 sn_publishedAverageMinutes = in_published_avg resource, sn_platform = in_platform resource,
                 sn_geoPlatforms = (case in_geo_platforms resource of
                     None \<Rightarrow> []
                   | Some items \<Rightarrow> js_unique (concat (map (\<lambda>label. option_list (trimmed_text label)) items)))\<rparr>)"

definition parsePrice :: "js_runtime \<Rightarrow> utext option \<Rightarrow> rat option" where
  "parsePrice js value =
     (case value of
        None \<Rightarrow> None
      | Some t \<Rightarrow>
          if js_trim t = [] then None
          else case jr_number js t of None \<Rightarrow> None | Some x \<Rightarrow> if 0 \<le> x then Some x else None)"

section \<open>Matching a resource\<close>

definition term_sep :: "nat \<Rightarrow> bool" where
  "term_sep c \<longleftrightarrow> js_space c \<or> c = 44 \<or> c = 65292 \<or> c = 12289 \<or> c = 47"

definition remark_text :: "distribution_resource \<Rightarrow> utext" where
  "remark_text snapshot =
     sn_name snapshot @ [32] @ (case sn_remark snapshot of None \<Rightarrow> [] | Some r \<Rightarrow> r)"

definition audienceOverlap :: "js_runtime \<Rightarrow> utext \<Rightarrow> distribution_resource \<Rightarrow> bool" where
  "audienceOverlap js audience snapshot \<longleftrightarrow>
     list_ex (text_includes (jr_lower js (remark_text snapshot)))
       (filter (\<lambda>term. 2 \<le> length term) (map js_trim (split_at term_sep (jr_lower js audience))))"

definition nameMatches :: "js_runtime \<Rightarrow> utext \<Rightarrow> utext \<Rightarrow> bool" where
  "nameMatches js sourceTitle resourceName =
     (let source = jr_lower js (js_trim sourceTitle); resource = jr_lower js (js_trim resourceName);
          core = channelNameCore resource;
          names = (if 3 \<le> utf16_length core \<and> core \<noteq> resource then [resource, core] else [resource])
      in 3 \<le> utf16_length source \<and> 3 \<le> utf16_length resource \<and>
         (list_ex (text_includes source) names \<or> text_includes resource source))"

fun bounded_word :: "utext list \<Rightarrow> bool \<Rightarrow> utext \<Rightarrow> bool" where
  "bounded_word ws inside [] = False"
| "bounded_word ws inside (c # t) =
     (\<not> inside \<and>
        list_ex (\<lambda>w. map ascii_fold (take (length w) (c # t)) = w \<and>
          (case drop (length w) (c # t) of [] \<Rightarrow> True | d # _ \<Rightarrow> \<not> word_char d)) ws \<or>
      bounded_word ws (word_char c) t)"

definition geoIncluded :: "distribution_resource \<Rightarrow> bool" where
  "geoIncluded snapshot \<longleftrightarrow>
     sn_geoPlatforms snapshot \<noteq> [] \<or>
     list_ex (text_includes (remark_text snapshot))
       [[35910, 21253], [25991, 24515, 19968, 35328], [25991, 24515], [36890, 20041, 21315, 38382], [36890,
         20041], [33150, 35759, 20803, 23453], [20803, 23453]] \<or>
     bounded_word (map ascii [''ai'', ''geo'', ''kimi'', ''deepseek'']) False (remark_text snapshot)"

text \<open>The code sets of an industry and the audience, as the tiers take them.\<close>

record tier_input =
  ti_mediaCodes :: "int list"
  ti_weMediaCodes :: "int list"
  ti_targetAudience :: utext

definition tier_input_of :: "utext \<Rightarrow> utext \<Rightarrow> tier_input" where
  "tier_input_of industry audience =
     \<lparr>ti_mediaCodes = industryCodesFor industry MEDIA_CHANNEL_TYPE_NAMES,
      ti_weMediaCodes = industryCodesFor industry WE_MEDIA_INDUSTRY_NAMES, ti_targetAudience = audience\<rparr>"

definition code_in :: "int list \<Rightarrow> rat option \<Rightarrow> bool" where
  "code_in codes value \<longleftrightarrow>
     (case value of None \<Rightarrow> -1 \<in> set codes | Some x \<Rightarrow> is_integer x \<and> \<lfloor>x\<rfloor> \<in> set codes)"

definition industryCategoryMatch :: "distribution_resource \<Rightarrow> tier_input \<Rightarrow> bool" where
  "industryCategoryMatch snapshot input =
     (case sn_kind snapshot of
        Media \<Rightarrow> code_in (ti_mediaCodes input) (sn_channelType snapshot)
      | WeMedia \<Rightarrow> code_in (ti_weMediaCodes input) (sn_industryCategory snapshot))"

definition fallbackPreferenceTier :: "js_runtime \<Rightarrow> distribution_resource \<Rightarrow> tier_input \<Rightarrow> nat" where
  "fallbackPreferenceTier js snapshot input =
     (let industryMatch = industryCategoryMatch snapshot input; geoMarked = sn_geoPlatforms snapshot \<noteq> []
      in if industryMatch \<and> geoMarked then 0
         else if industryMatch then 1
         else if geoMarked then 2
         else if audienceOverlap js (ti_targetAudience input) snapshot then 3 else 4)"

definition verticalNameMatch :: "js_runtime \<Rightarrow> distribution_resource \<Rightarrow> utext \<Rightarrow> utext \<Rightarrow> bool" where
  "verticalNameMatch js snapshot industry targetAudience \<longleftrightarrow>
     list_ex (text_includes (jr_lower js (sn_name snapshot)))
       (filter (\<lambda>term. 2 \<le> length term)
         (map (\<lambda>term. jr_lower js (js_trim term)) (split_at term_sep industry @ split_at term_sep targetAudience)))"

section \<open>Passive sources\<close>

record citation =
  ct_url :: utext
  ct_title :: "utext option"
  ct_siteName :: "utext option"

record probe_outcome =
  pb_id :: utext
  pb_question :: utext
  pb_articleIds :: "utext list"
  pb_citations :: "citation list"

record passive_row =
  rw_questionId :: utext
  rw_question :: utext
  rw_articleIds :: "utext list"
  rw_title :: utext
  rw_siteName :: "utext option"
  rw_url :: utext
  rw_channel :: utext

definition http_url :: "utext \<Rightarrow> bool" where
  "http_url url \<longleftrightarrow>
     (let folded = map ascii_fold url
      in text_prefix (ascii ''http://'') folded \<or> text_prefix (ascii ''https://'') folded)"

definition hostOf :: "js_runtime \<Rightarrow> utext \<Rightarrow> utext option" where
  "hostOf js url = map_option up_hostname (jr_url js url)"

definition passive_row_of :: "js_runtime \<Rightarrow> probe_outcome \<Rightarrow> citation \<Rightarrow> passive_row" where
  "passive_row_of js outcome c =
     (let url = js_trim (ct_url c);
          host = (case hostOf js url of None \<Rightarrow> url | Some h \<Rightarrow> h);
          siteName = trimmed_text (ct_siteName c)
      in \<lparr>rw_questionId = pb_id outcome, rw_question = pb_question outcome, rw_articleIds = pb_articleIds outcome,
          rw_title = (case trimmed_text (ct_title c) of
                        Some t \<Rightarrow> t | None \<Rightarrow> (case siteName of Some n \<Rightarrow> n | None \<Rightarrow> host)),
          rw_siteName = siteName, rw_url = url,
          rw_channel = (case registeredDomain js (Some url) of Some d \<Rightarrow> d | None \<Rightarrow> host)\<rparr>)"

text \<open>The citations of one question up to the cap; the keys seen so far go on to the next question.\<close>

fun take_citations ::
  "js_runtime \<Rightarrow> probe_outcome \<Rightarrow> nat \<Rightarrow> utext list \<Rightarrow> citation list \<Rightarrow> passive_row list \<times> utext list" where
  "take_citations js outcome taken seen [] = ([], seen)"
| "take_citations js outcome taken seen (c # cs) =
     (if PASSIVE_PER_QUESTION_CITATION_CAP \<le> taken then ([], seen)
      else let url = js_trim (ct_url c); key = pb_id outcome @ [58] @ url
           in if \<not> http_url url \<or> key \<in> set seen then take_citations js outcome taken seen cs
              else let (rows, seen') = take_citations js outcome (taken + 1) (key # seen) cs
                   in (passive_row_of js outcome c # rows, seen'))"

fun collect_rows :: "js_runtime \<Rightarrow> utext list \<Rightarrow> probe_outcome list \<Rightarrow> passive_row list" where
  "collect_rows js seen [] = []"
| "collect_rows js seen (outcome # outcomes) =
     (let (rows, seen') = take_citations js outcome 0 seen (pb_citations outcome)
      in rows @ collect_rows js seen' outcomes)"

definition channel_questions :: "passive_row list \<Rightarrow> utext \<Rightarrow> nat" where
  "channel_questions rows channel =
     length (js_unique (map rw_questionId (filter (\<lambda>r. rw_channel r = channel) rows)))"

definition channel_hits :: "passive_row list \<Rightarrow> utext \<Rightarrow> nat" where
  "channel_hits rows channel = length (filter (\<lambda>r. rw_channel r = channel) rows)"

definition rank_rows :: "passive_row list \<Rightarrow> passive_row list" where
  "rank_rows rows =
     sort_key (\<lambda>r. (- int (channel_questions rows (rw_channel r)), - int (channel_hits rows (rw_channel r)))) rows"

definition selectPassiveSources :: "js_runtime \<Rightarrow> probe_outcome list \<Rightarrow> question_source list" where
  "selectPassiveSources js collected =
     (let ranked = rank_rows (collect_rows js [] collected)
      in map (\<lambda>(index, r).
           \<lparr>qs_id = ascii ''probe:'' @ rw_questionId r @ [58] @ ascii (show_nat (index + 1)),
            qs_questionId = rw_questionId r, qs_question = rw_question r, qs_title = rw_title r,
            qs_url = rw_url r, qs_articleIds = rw_articleIds r, qs_siteName = rw_siteName r,
            qs_resolvedAccountName = None\<rparr>) (zip [0..<length ranked] ranked))"

section \<open>Assignment\<close>

record assign_input =
  ai_articles :: "article_snapshot list"
  ai_candidates :: "candidate list"
  ai_mappingMode :: mapping_mode
  ai_ratio_media :: int
  ai_ratio_weMedia :: int
  ai_totalMaxPoints :: int
  ai_publishStartAt :: utext
  ai_industry :: "utext option"
  ai_targetAudience :: "utext option"

definition passive_for :: "article_snapshot \<Rightarrow> candidate \<Rightarrow> bool" where
  "passive_for article c \<longleftrightarrow>
     list_ex (\<lambda>e. ev_path e = PassivePath \<and> ar_id article \<in> set (ev_articleIds e)) (cd_evidence c)"

definition candidate_key ::
  "js_runtime \<Rightarrow> article_snapshot \<Rightarrow> tier_input option \<Rightarrow> candidate \<Rightarrow> bool \<times> rat \<times> rat \<times> nat \<times> int" where
  "candidate_key js article tierInput c =
     (\<not> passive_for article c, - CONTENT_KIND_FIT (ar_contentType article) (cd_kind c), - cd_weight c,
      (case tierInput of None \<Rightarrow> 0 | Some t \<Rightarrow> fallbackPreferenceTier js (cd_snapshot c) t), cd_resourceId c)"

definition candidateForArticle ::
  "js_runtime \<Rightarrow> article_snapshot \<Rightarrow> candidate list \<Rightarrow> tier_input option \<Rightarrow> candidate list" where
  "candidateForArticle js article candidates tierInput = sort_key (candidate_key js article tierInput) candidates"

definition prefer_kind :: "publish_order_kind \<Rightarrow> candidate list \<Rightarrow> candidate list" where
  "prefer_kind kind ranked = filter (\<lambda>c. cd_kind c = kind) ranked @ filter (\<lambda>c. cd_kind c \<noteq> kind) ranked"

definition affordable :: "int \<Rightarrow> candidate \<Rightarrow> bool" where
  "affordable rest c \<longleftrightarrow> (case cd_price c of None \<Rightarrow> False | Some price \<Rightarrow> cnyToPoints price \<le> rest)"

text \<open>The variables of the loop: the resources used, the media channels used, the points allocated.\<close>

record assign_state =
  st_used :: "int list"
  st_mediaUsed :: int
  st_allocated :: int

definition pick_candidate ::
  "js_runtime \<Rightarrow> assign_input \<Rightarrow> tier_input option \<Rightarrow> int \<Rightarrow> assign_state \<Rightarrow> article_snapshot \<Rightarrow> candidate option" where
  "pick_candidate js input tierInput mediaTarget st article =
     (let free = filter (\<lambda>c. cd_resourceId c \<notin> set (st_used st))
                   (candidateForArticle js article (ai_candidates input) tierInput);
          ranked = (if ai_mappingMode input = RatioMode
                    then prefer_kind (if st_mediaUsed st < mediaTarget then Media else WeMedia) free else free)
      in find (affordable (ai_totalMaxPoints input - st_allocated st)) ranked)"

definition candidate_points :: "candidate \<Rightarrow> int" where
  "candidate_points c = (case cd_price c of None \<Rightarrow> 0 | Some price \<Rightarrow> cnyToPoints price)"

definition use_candidate :: "candidate option \<Rightarrow> assign_state \<Rightarrow> assign_state" where
  "use_candidate pick st =
     (case pick of
        None \<Rightarrow> st
      | Some c \<Rightarrow> \<lparr>st_used = cd_resourceId c # st_used st,
                  st_mediaUsed = st_mediaUsed st + (if cd_kind c = Media then 1 else 0),
                  st_allocated = st_allocated st + candidate_points c\<rparr>)"

definition assignment_of :: "utext \<Rightarrow> article_snapshot \<Rightarrow> candidate option \<Rightarrow> assignment" where
  "assignment_of scheduledAt article pick =
     \<lparr>as_articleId = ar_id article, as_resourceId = map_option cd_resourceId pick,
      as_reason =
        (case pick of
           None \<Rightarrow> Unassigned
         | Some c \<Rightarrow> if passive_for article c then SourceEvidence
                    else if 3 / 5 \<le> CONTENT_KIND_FIT (ar_contentType article) (cd_kind c) then ContentFit
                    else WeightedScore),
      as_scheduledAt = scheduledAt\<rparr>"

fun pick_all ::
  "js_runtime \<Rightarrow> assign_input \<Rightarrow> tier_input option \<Rightarrow> int \<Rightarrow> assign_state \<Rightarrow> article_snapshot list \<Rightarrow>
   candidate option list" where
  "pick_all js input tierInput mediaTarget st [] = []"
| "pick_all js input tierInput mediaTarget st (article # articles) =
     (let pick = pick_candidate js input tierInput mediaTarget st article
      in pick # pick_all js input tierInput mediaTarget (use_candidate pick st) articles)"

definition media_target :: "assign_input \<Rightarrow> int" where
  "media_target input =
     (if ai_mappingMode input = RatioMode
      then math_round (of_int (int (length (ai_articles input)) * ai_ratio_media input) /
             of_int (ai_ratio_media input + ai_ratio_weMedia input))
      else int (length (ai_articles input)))"

definition assign_tier :: "assign_input \<Rightarrow> tier_input option" where
  "assign_tier input =
     (case (ai_industry input, ai_targetAudience input) of
        (Some industry, Some audience) \<Rightarrow> Some (tier_input_of industry audience) | _ \<Rightarrow> None)"

definition picks_of :: "js_runtime \<Rightarrow> assign_input \<Rightarrow> candidate option list" where
  "picks_of js input =
     pick_all js input (assign_tier input) (media_target input) \<lparr>st_used = [], st_mediaUsed = 0, st_allocated = 0\<rparr>
       (ai_articles input)"

definition assignDistributionChannels :: "js_runtime \<Rightarrow> assign_input \<Rightarrow> assignment list planned" where
  "assignDistributionChannels js input =
     and_then (validIsoTimestamp js (ai_publishStartAt input)) (\<lambda>scheduledAt.
       Inr (map2 (assignment_of scheduledAt) (ai_articles input) (picks_of js input)))"

section \<open>The gate of the confirmation\<close>

definition by_resource :: "distribution_plan \<Rightarrow> int \<Rightarrow> candidate option" where
  "by_resource plan resourceId =
     map_of (rev (map (\<lambda>c. (cd_resourceId c, c)) (pl_candidates plan))) resourceId"

definition selected_issues :: "distribution_plan \<Rightarrow> int \<Rightarrow> string list" where
  "selected_issues plan resourceId =
     (case by_resource plan resourceId of
        None \<Rightarrow> [''selected-channel-outside-resource-snapshot'']
      | Some c \<Rightarrow>
          (if av_state (cd_availability c) \<noteq> ''available'' \<or> av_providerStatus (cd_availability c) \<noteq> 2
           then [''selected-channel-unavailable''] else []) @
          (case cd_price c of
             None \<Rightarrow> [''selected-channel-price-unknown'']
           | Some price \<Rightarrow>
               if (case pl_perArticleMaxPoints plan of None \<Rightarrow> DEFAULT_PER_ARTICLE_MAX_POINTS | Some m \<Rightarrow> m)
                    < cnyToPoints price
               then [''selected-channel-per-article-limit-exceeded''] else []) @
          (if cd_evidence c = [] then [''selected-channel-evidence-missing''] else []))"

definition selected_points :: "distribution_plan \<Rightarrow> int \<Rightarrow> int" where
  "selected_points plan resourceId =
     (case by_resource plan resourceId of None \<Rightarrow> 0 | Some c \<Rightarrow> candidate_points c)"

fun assignment_issues ::
  "js_runtime \<Rightarrow> utext list \<Rightarrow> int list \<Rightarrow> utext list \<Rightarrow> int list \<Rightarrow> assignment list \<Rightarrow> string list" where
  "assignment_issues js articleIds selected seenArticles seenResources [] = []"
| "assignment_issues js articleIds selected seenArticles seenResources (a # as) =
     (if as_articleId a \<notin> set articleIds \<or> as_articleId a \<in> set seenArticles
      then [''article-assignment-invalid''] else []) @
     (case as_resourceId a of
        None \<Rightarrow>
          ''article-channel-unassigned'' #
          assignment_issues js articleIds selected (as_articleId a # seenArticles) seenResources as
      | Some r \<Rightarrow>
          (if r \<notin> set selected then [''article-channel-not-selected''] else []) @
          (if r \<in> set seenResources then [''channel-reuse-forbidden''] else []) @
          (if jr_iso js (as_scheduledAt a) = None then [''assignment-time-invalid''] else []) @
          assignment_issues js articleIds selected (as_articleId a # seenArticles) (r # seenResources) as)"

definition spend_cap :: "distribution_plan \<Rightarrow> int" where
  "spend_cap plan =
     (let budgetPoints = cnyToPoints (pl_budgetCny plan)
      in min (case pl_totalMaxPoints plan of None \<Rightarrow> budgetPoints | Some m \<Rightarrow> m) budgetPoints)"

definition distributionPlanBlockingIssues :: "js_runtime \<Rightarrow> distribution_plan \<Rightarrow> string list" where
  "distributionPlanBlockingIssues js plan =
     (let selected = js_unique (pl_selectedResourceIds plan);
          articleIds = js_unique (map ar_id (pl_articles plan));
          assigned = js_unique (map as_articleId (pl_assignments plan))
      in js_unique (
        (if pl_providerState plan \<noteq> ProviderAvailable then [''distribution-provider-unavailable''] else []) @
        (if pl_candidates plan = [] then [''channel-candidate-unavailable''] else []) @
        (if length selected \<noteq> length (pl_selectedResourceIds plan) then [''selected-channel-duplicate''] else []) @
        concat (map (selected_issues plan) selected) @
        assignment_issues js articleIds selected [] [] (pl_assignments plan) @
        (if length assigned \<noteq> length articleIds then [''article-assignment-incomplete''] else []) @
        (if spend_cap plan < sum_list (map (selected_points plan) selected)
         then [''distribution-budget-exceeded''] else [])))"

record plan_edit =
  ed_selectedResourceIds :: "int list"
  ed_assignments :: "assignment list"
  ed_budgetCny :: "rat option"
  ed_publishStartAt :: utext

definition edit_assignment :: "js_runtime \<Rightarrow> assignment \<Rightarrow> assignment planned" where
  "edit_assignment js a =
     and_then (validIsoTimestamp js (as_scheduledAt a)) (\<lambda>stamp. Inr (a\<lparr>as_scheduledAt := stamp\<rparr>))"

definition applyDistributionPlanEdit ::
  "js_runtime \<Rightarrow> distribution_plan \<Rightarrow> plan_edit \<Rightarrow> (plan_edit \<times> string list) planned" where
  "applyDistributionPlanEdit js plan input =
     (if pl_status plan = Confirmed then Inl ''distribution_plan_confirmed_immutable''
      else case ed_budgetCny input of
             None \<Rightarrow> Inl ''distribution_plan_budget_invalid''
           | Some budget \<Rightarrow>
               if \<not> budget_valid (Some budget) then Inl ''distribution_plan_budget_invalid''
               else and_then (validIsoTimestamp js (ed_publishStartAt input)) (\<lambda>startAt.
                    and_then (each_planned (edit_assignment js) (ed_assignments input)) (\<lambda>assignments.
                      let selected = js_unique (ed_selectedResourceIds input);
                          after = plan\<lparr>pl_selectedResourceIds := selected, pl_assignments := assignments,
                                      pl_budgetCny := round_cents budget, pl_publishStartAt := startAt\<rparr>
                      in Inr (\<lparr>ed_selectedResourceIds = selected, ed_assignments = assignments,
                               ed_budgetCny = Some (round_cents budget), ed_publishStartAt = startAt\<rparr>,
                              distributionPlanBlockingIssues js after))))"

fun comma_list :: "string list \<Rightarrow> string" where
  "comma_list [] = []"
| "comma_list [x] = x"
| "comma_list (x # xs) = x @ '','' @ comma_list xs"

definition assertDistributionPlanConfirmable :: "js_runtime \<Rightarrow> distribution_plan \<Rightarrow> unit planned" where
  "assertDistributionPlanConfirmable js plan =
     (let issues = distributionPlanBlockingIssues js plan
      in if issues \<noteq> [] \<or> pl_blockingIssues plan \<noteq> []
         then Inl (''distribution_plan_confirmation_blocked:'' @
                   comma_list (js_unique (pl_blockingIssues plan @ issues)))
         else Inr ())"

section \<open>Facts\<close>

subsection \<open>Assignment\<close>

lemma set_candidateForArticle [simp]: "set (candidateForArticle js article cs t) = set cs"
  by (simp add: candidateForArticle_def)

lemma set_prefer_kind [simp]: "set (prefer_kind kind cs) = set cs"
  by (auto simp: prefer_kind_def)

lemma pick_candidate_Some:
  assumes "pick_candidate js input t target st article = Some c"
  shows "c \<in> set (ai_candidates input) \<and> cd_resourceId c \<notin> set (st_used st) \<and>
         affordable (ai_totalMaxPoints input - st_allocated st) c"
  using assms
  by (auto simp: pick_candidate_def Let_def find_Some_iff in_set_conv_nth [symmetric] dest!: nth_mem split: if_splits)

lemma pick_candidate_None:
  assumes "pick_candidate js input t target st article = None"
    and "c \<in> set (ai_candidates input)" and "cd_resourceId c \<notin> set (st_used st)"
  shows "\<not> affordable (ai_totalMaxPoints input - st_allocated st) c"
  using assms by (auto simp: pick_candidate_def Let_def find_None_iff split: if_splits)

text \<open>The channels picked so far, in order.\<close>

definition chosen :: "candidate option list \<Rightarrow> candidate list" where
  "chosen picks = concat (map option_list picks)"

lemma chosen_simps [simp]:
  "chosen [] = []" "chosen (None # picks) = chosen picks" "chosen (Some c # picks) = c # chosen picks"
  by (simp_all add: chosen_def option_list_def)

text \<open>What one pass of the loop promises, from a state with some resources used and points spent.\<close>

fun picks_ok :: "candidate list \<Rightarrow> int \<Rightarrow> int list \<Rightarrow> int \<Rightarrow> candidate option list \<Rightarrow> bool" where
  "picks_ok cs rest used spent [] = True"
| "picks_ok cs rest used spent (None # picks) =
     ((\<forall>c\<in>set cs. cd_resourceId c \<notin> set used \<longrightarrow> \<not> affordable (rest - spent) c) \<and> picks_ok cs rest used spent picks)"
| "picks_ok cs rest used spent (Some c # picks) =
     (c \<in> set cs \<and> cd_resourceId c \<notin> set used \<and> affordable (rest - spent) c \<and>
      picks_ok cs rest (cd_resourceId c # used) (spent + candidate_points c) picks)"

lemma pick_all_ok:
  "picks_ok (ai_candidates input) (ai_totalMaxPoints input) (st_used st) (st_allocated st)
     (pick_all js input t target st articles)"
proof (induction articles arbitrary: st)
  case (Cons article articles)
  show ?case
  proof (cases "pick_candidate js input t target st article")
    case None
    with Cons [of st] pick_candidate_None [OF None] show ?thesis by (simp add: use_candidate_def)
  next
    case (Some c)
    from Cons [of "use_candidate (Some c) st"] pick_candidate_Some [OF Some] Some show ?thesis
      by (simp add: use_candidate_def)
  qed
qed simp

lemma length_pick_all [simp]: "length (pick_all js input t target st articles) = length articles"
  by (induction articles arbitrary: st) (simp_all add: Let_def)

lemma affordable_points: "affordable rest c \<longleftrightarrow> cd_price c \<noteq> None \<and> candidate_points c \<le> rest"
  by (auto simp: affordable_def candidate_points_def split: option.splits)

lemma cnyToPoints_nonneg [simp]: "0 \<le> cnyToPoints x"
proof (cases "x \<le> 0")
  case False
  then have "0 \<le> math_round (x * 100)" by (simp add: math_round_nonneg)
  then show ?thesis using publishOrderPoints_nonneg False
    by (simp add: cnyToPoints_def publishOrderPoints_def)
qed (simp add: cnyToPoints_def)

lemma candidate_points_nonneg [simp]: "0 \<le> candidate_points c"
  by (simp add: candidate_points_def split: option.splits)

definition total_points :: "candidate list \<Rightarrow> int" where
  "total_points cs = sum_list (map candidate_points cs)"

lemma total_points_simps [simp]:
  "total_points [] = 0" "total_points (c # cs) = candidate_points c + total_points cs"
  by (simp_all add: total_points_def)

lemma picks_ok_chosen:
  assumes "picks_ok cs rest used spent picks"
  shows "set (chosen picks) \<subseteq> set cs" and "\<forall>c\<in>set (chosen picks). cd_price c \<noteq> None"
    and "distinct (map cd_resourceId (chosen picks))"
    and "set (map cd_resourceId (chosen picks)) \<inter> set used = {}"
    and "chosen picks \<noteq> [] \<Longrightarrow> spent + total_points (chosen picks) \<le> rest"
proof -
  have "set (chosen picks) \<subseteq> set cs \<and> (\<forall>c\<in>set (chosen picks). cd_price c \<noteq> None) \<and>
      distinct (map cd_resourceId (chosen picks)) \<and> set (map cd_resourceId (chosen picks)) \<inter> set used = {} \<and>
      (chosen picks \<noteq> [] \<longrightarrow> spent + total_points (chosen picks) \<le> rest)"
    using assms
  proof (induction cs rest used spent picks rule: picks_ok.induct)
    case (3 cs rest used spent c picks)
    then show ?case by (cases "chosen picks") (auto simp: affordable_points)
  qed auto
  then show "set (chosen picks) \<subseteq> set cs" "\<forall>c\<in>set (chosen picks). cd_price c \<noteq> None"
    "distinct (map cd_resourceId (chosen picks))" "set (map cd_resourceId (chosen picks)) \<inter> set used = {}"
    "chosen picks \<noteq> [] \<Longrightarrow> spent + total_points (chosen picks) \<le> rest" by simp_all
qed

lemma picks_ok_unassigned:
  assumes "picks_ok cs rest used spent picks" and "i < length picks" and "picks ! i = None"
    and "c \<in> set cs" and "cd_price c \<noteq> None"
    and "cd_resourceId c \<notin> set used \<union> set (map cd_resourceId (chosen (take i picks)))"
  shows "rest < spent + total_points (chosen (take i picks)) + candidate_points c"
  using assms
proof (induction cs rest used spent picks arbitrary: i rule: picks_ok.induct)
  case (2 cs rest used spent picks)
  then show ?case by (cases i) (auto simp: affordable_points)
next
  case (3 cs rest used spent c' picks)
  then show ?case by (cases i) (force simp: algebra_simps)+
qed simp

subsection \<open>Blocking issues\<close>

lemma assignment_issues_none:
  "assignment_issues js ids selected seenA seenR as = [] \<longleftrightarrow>
   (\<forall>a\<in>set as. as_articleId a \<in> set ids \<and> jr_iso js (as_scheduledAt a) \<noteq> None \<and>
      (\<exists>r\<in>set selected. as_resourceId a = Some r)) \<and>
   distinct (map as_articleId as) \<and> set (map as_articleId as) \<inter> set seenA = {} \<and>
   distinct (map as_resourceId as) \<and> set (map as_resourceId as) \<inter> Some ` set seenR = {}"
proof (induction as arbitrary: seenA seenR)
  case (Cons a as)
  show ?case
  proof (cases "as_resourceId a")
    case None
    then show ?thesis by auto
  next
    case (Some r)
    then show ?thesis by (simp add: Cons.IH) blast
  qed
qed simp

lemma blocking_issues_none:
  "distributionPlanBlockingIssues js plan = [] \<longleftrightarrow>
   pl_providerState plan = ProviderAvailable \<and> pl_candidates plan \<noteq> [] \<and>
   distinct (pl_selectedResourceIds plan) \<and>
   (\<forall>r\<in>set (pl_selectedResourceIds plan). selected_issues plan r = []) \<and>
   assignment_issues js (map ar_id (pl_articles plan)) (pl_selectedResourceIds plan) [] [] (pl_assignments plan) = [] \<and>
   card (set (map as_articleId (pl_assignments plan))) = card (set (map ar_id (pl_articles plan))) \<and>
   sum_list (map (selected_points plan) (js_unique (pl_selectedResourceIds plan))) \<le> spend_cap plan"
proof -
  have "length (js_unique xs) = length xs \<longleftrightarrow> distinct xs" for xs :: "int list"
    by (metis card_distinct distinct_card length_js_unique)
  moreover have "assignment_issues js (js_unique ids) (js_unique sel) [] [] as = [] \<longleftrightarrow>
      assignment_issues js ids sel [] [] as = []" for ids sel as
    by (simp add: assignment_issues_none)
  ultimately show ?thesis
    by (auto simp: distributionPlanBlockingIssues_def Let_def length_js_unique)
qed

lemma selected_issues_none:
  "selected_issues plan r = [] \<longleftrightarrow>
   (\<exists>c price. by_resource plan r = Some c \<and> av_state (cd_availability c) = ''available'' \<and>
      av_providerStatus (cd_availability c) = 2 \<and> cd_evidence c \<noteq> [] \<and> cd_price c = Some price \<and>
      cnyToPoints price \<le> (case pl_perArticleMaxPoints plan of None \<Rightarrow> DEFAULT_PER_ARTICLE_MAX_POINTS | Some m \<Rightarrow> m))"
  by (auto simp: selected_issues_def split: option.splits)

lemma by_resource_Some:
  "by_resource plan r = Some c \<Longrightarrow> c \<in> set (pl_candidates plan) \<and> cd_resourceId c = r"
  by (auto simp: by_resource_def dest: map_of_SomeD)

lemma by_resource_distinct:
  assumes "distinct (map cd_resourceId (pl_candidates plan))" and "c \<in> set (pl_candidates plan)"
  shows "by_resource plan (cd_resourceId c) = Some c"
proof -
  have "distinct (map fst (rev (map (\<lambda>c. (cd_resourceId c, c)) (pl_candidates plan))))"
    using assms(1) by (simp add: rev_map [symmetric] comp_def)
  then show ?thesis using assms(2) unfolding by_resource_def
    by (intro map_of_is_SomeI) auto
qed

lemma selected_points_nonneg [simp]: "0 \<le> selected_points plan r"
  by (simp add: selected_points_def split: option.splits)

text \<open>The resources of the assignments are among the selected ones, so they cost no more.\<close>

lemma sum_list_sub_le:
  fixes f :: "'a \<Rightarrow> int"
  assumes "distinct xs" and "set xs \<subseteq> set ys" and "\<And>y. 0 \<le> f y"
  shows "sum_list (map f xs) \<le> sum_list (map f ys)"
proof -
  have "sum_list (map f xs) = sum f (set xs)" by (rule sum_list_distinct_conv_sum_set [OF assms(1)])
  also have "\<dots> \<le> sum f (set ys)" using assms(2,3) by (intro sum_mono2) auto
  also have "\<dots> = sum_list (map f (remdups ys))" by (simp add: sum_list_distinct_conv_sum_set)
  also have "\<dots> \<le> sum_list (map f ys)"
  proof (induction ys)
    case (Cons y ys)
    with assms(3) [of y] show ?case by auto
  qed simp
  finally show ?thesis .
qed

definition assigned_ids :: "distribution_plan \<Rightarrow> int list" where
  "assigned_ids plan = map (\<lambda>a. the (as_resourceId a)) (pl_assignments plan)"

lemma assigned_within_cap:
  assumes "distributionPlanBlockingIssues js plan = []"
  shows "distinct (assigned_ids plan) \<and> set (assigned_ids plan) \<subseteq> set (pl_selectedResourceIds plan) \<and>
         sum_list (map (selected_points plan) (assigned_ids plan)) \<le> spend_cap plan"
proof -
  note none = assms [unfolded blocking_issues_none assignment_issues_none]
  then have sub: "set (assigned_ids plan) \<subseteq> set (pl_selectedResourceIds plan)"
    by (force simp: assigned_ids_def)
  have "map Some (assigned_ids plan) = map as_resourceId (pl_assignments plan)"
    using none by (force simp: assigned_ids_def)
  then have "distinct (map Some (assigned_ids plan))" using none by simp
  then have dist: "distinct (assigned_ids plan)" by (simp add: distinct_map)
  have "sum_list (map (selected_points plan) (assigned_ids plan)) \<le>
        sum_list (map (selected_points plan) (js_unique (pl_selectedResourceIds plan)))"
    by (rule sum_list_sub_le) (use dist sub in auto)
  then have "sum_list (map (selected_points plan) (assigned_ids plan)) \<le> spend_cap plan"
    by (rule order_trans) (use none in blast)
  with dist sub show ?thesis by simp
qed

lemma cents_of_price:
  "0 \<le> price \<Longrightarrow> cnyToPoints price = publishOrderPoints (math_round (price * 100))"
  using math_round_of_int [of 0] by (auto simp: cnyToPoints_def publishOrderPoints_def ceil_div_def)

section \<open>Properties\<close>

definition demo_js :: js_runtime where
  "demo_js =
     \<lparr>jr_lower = map ascii_fold, jr_url = (\<lambda>t. None), jr_decode = Some, jr_number = parse_float, jr_show = (\<lambda>x. []),
      jr_iso = (\<lambda>t. if t = [] then None else Some t), jr_collate = (\<lambda>t. t)\<rparr>"

definition demo_resource :: "int \<Rightarrow> publish_order_kind \<Rightarrow> distribution_resource" where
  "demo_resource i kind =
     \<lparr>sn_resourceId = i, sn_kind = kind, sn_name = [65], sn_status = Some 2, sn_price = None, sn_publishedRate = None,
      sn_entranceLink = None, sn_caseLink = None, sn_remark = None, sn_channelType = None,
      sn_industryCategory = None, sn_area = None, sn_canWeekend = None, sn_publishSpeed = None,
      sn_publishedAverageMinutes = None, sn_platform = None, sn_geoPlatforms = []\<rparr>"

definition demo_candidate :: "int \<Rightarrow> publish_order_kind \<Rightarrow> rat \<Rightarrow> candidate" where
  "demo_candidate i kind price =
     \<lparr>cd_resourceId = i, cd_kind = kind, cd_name = [65], cd_price = Some price, cd_publishedRate = None,
      cd_availability = \<lparr>av_state = ''available'', av_providerStatus = 2, av_basis = ''supermedia-approved-resource''\<rparr>,
      cd_weight = 2 / 5, cd_hitCount = 1, cd_pathHits = [PassivePath],
      cd_evidence = [\<lparr>ev_path = PassivePath, ev_weight = 2 / 5, ev_label = [], ev_reference = [], ev_url = None,
                      ev_articleIds = []\<rparr>],
      cd_fitReasons = [], cd_risks = [], cd_uncertainties = [], cd_snapshot = demo_resource i kind,
      cd_variantFamily = None\<rparr>"

definition demo_article :: "utext \<Rightarrow> article_snapshot" where
  "demo_article i =
     \<lparr>ar_id = i, ar_operationId = [], ar_approvedRevision = 1, ar_title = [], ar_topic = [], ar_contentType = News\<rparr>"

definition demo_assign :: assign_input where
  "demo_assign =
     \<lparr>ai_articles = [demo_article [1], demo_article [2], demo_article [3]],
      ai_candidates = [demo_candidate 7 WeMedia 10, demo_candidate 8 Media 100, demo_candidate 9 Media 20],
      ai_mappingMode = OneToOne, ai_ratio_media = 1, ai_ratio_weMedia = 1, ai_totalMaxPoints = 500,
      ai_publishStartAt = [50], ai_industry = None, ai_targetAudience = None\<rparr>"

text \<open>
  C10: the assignment of channels. It answers one assignment per article, in the order of the
  articles. The channels it picks are candidates with a known price, no resource is used twice, and
  together they cost no more than the total limit. An article stays without a channel only when no
  unused candidate with a known price fits into what the earlier articles have left of the limit.
\<close>

theorem assignDistributionChannels_spec:
  assumes "assignDistributionChannels js input = Inr as"
  shows "map as_articleId as = map ar_id (ai_articles input) \<and>
    map as_resourceId as = map (map_option cd_resourceId) (picks_of js input) \<and>
    set (chosen (picks_of js input)) \<subseteq> set (ai_candidates input) \<and>
    distinct (map cd_resourceId (chosen (picks_of js input))) \<and>
    (\<forall>c\<in>set (chosen (picks_of js input)). cd_price c \<noteq> None) \<and>
    total_points (chosen (picks_of js input)) \<le> max 0 (ai_totalMaxPoints input) \<and>
    (\<forall>i<length (picks_of js input). \<forall>c\<in>set (ai_candidates input).
       picks_of js input ! i = None \<longrightarrow> cd_price c \<noteq> None \<longrightarrow>
       cd_resourceId c \<notin> set (map cd_resourceId (chosen (take i (picks_of js input)))) \<longrightarrow>
       ai_totalMaxPoints input < total_points (chosen (take i (picks_of js input))) + candidate_points c)"
proof -
  let ?picks = "picks_of js input"
  have len: "length ?picks = length (ai_articles input)" by (simp add: picks_of_def)
  have ok: "picks_ok (ai_candidates input) (ai_totalMaxPoints input) [] 0 ?picks"
    using pick_all_ok [of input "\<lparr>st_used = [], st_mediaUsed = 0, st_allocated = 0\<rparr>"] by (simp add: picks_of_def)
  from assms obtain stamp where "as = map2 (assignment_of stamp) (ai_articles input) ?picks"
    by (cases "validIsoTimestamp js (ai_publishStartAt input)") (auto simp: assignDistributionChannels_def)
  then have "map as_articleId as = map ar_id (ai_articles input)"
    and "map as_resourceId as = map (map_option cd_resourceId) ?picks"
    using len by (auto simp: assignment_of_def list_eq_iff_nth_eq)
  moreover have "total_points (chosen ?picks) \<le> max 0 (ai_totalMaxPoints input)"
    using picks_ok_chosen(5) [OF ok] by (cases "chosen ?picks = []") auto
  ultimately show ?thesis using picks_ok_chosen(1-3) [OF ok] picks_ok_unassigned [OF ok] by auto
qed

theorem assignDistributionChannels_witness:
  "\<exists>as. assignDistributionChannels demo_js demo_assign = Inr as \<and>
        map as_resourceId as = [Some 9, Some 7, None] \<and>
        total_points (chosen (picks_of demo_js demo_assign)) \<le> 500"
proof -
  have "assignDistributionChannels demo_js demo_assign =
      Inr (map2 (assignment_of [50]) (ai_articles demo_assign) (picks_of demo_js demo_assign))"
    by (simp add: assignDistributionChannels_def validIsoTimestamp_def demo_js_def demo_assign_def js_trim_def js_space_def)
  note spec = assignDistributionChannels_spec [OF this]
  have "map (map_option cd_resourceId) (picks_of demo_js demo_assign) = [Some 9, Some 7, None]" by code_simp
  with spec show ?thesis
    using \<open>assignDistributionChannels demo_js demo_assign = _\<close> by (auto simp: demo_assign_def)
qed


definition demo_plan :: "candidate list \<Rightarrow> assignment list \<Rightarrow> distribution_plan" where
  "demo_plan candidates assignments =
     \<lparr>pl_status = Draft, pl_providerState = ProviderAvailable,
      pl_articles = map (\<lambda>a. demo_article (as_articleId a)) assignments, pl_candidates = candidates,
      pl_selectedResourceIds = map (\<lambda>a. the (as_resourceId a)) assignments, pl_assignments = assignments,
      pl_perArticleMaxPoints = Some 500, pl_totalMaxPoints = Some 400, pl_budgetCny = 30,
      pl_publishStartAt = [50], pl_blockingIssues = []\<rparr>"

definition demo_assignment :: "utext \<Rightarrow> int \<Rightarrow> assignment" where
  "demo_assignment i r =
     \<lparr>as_articleId = i, as_resourceId = Some r, as_reason = WeightedScore, as_scheduledAt = [50]\<rparr>"


text \<open>
  Resource numbers are unique only within one of the two kinds (\<open>channelRecall.ts\<close> says so at
  \<open>preferenceEntryMatches\<close>), while an assignment keeps the number alone. With an account and a media
  channel of the same number among the candidates, the assignment picks the media channel, the gate
  passes at the price of the last candidate of the number, and the first candidate of the number,
  which \<open>publish_scheduler.rs\<close> looks up, is the account with its own price.
\<close>

theorem same_number_of_two_kinds:
  "\<exists>candidates picked found as.
     assignDistributionChannels demo_js (demo_assign\<lparr>ai_articles := [demo_article [1]], ai_candidates := candidates\<rparr>) = Inr as \<and>
     picks_of demo_js (demo_assign\<lparr>ai_articles := [demo_article [1]], ai_candidates := candidates\<rparr>) = [Some picked] \<and>
     assertDistributionPlanConfirmable demo_js (demo_plan candidates as) = Inr () \<and>
     find (\<lambda>c. Some (cd_resourceId c) = as_resourceId (hd as)) candidates = Some found \<and>
     cd_kind picked = Media \<and> cd_kind found = WeMedia \<and>
     spend_cap (demo_plan candidates as) < candidate_points found"
proof (intro exI conjI)
  let ?cs = "[demo_candidate 7 WeMedia 50, demo_candidate 7 Media 10]"
  let ?input = "demo_assign\<lparr>ai_articles := [demo_article [1]], ai_candidates := ?cs\<rparr>"
  let ?as = "[assignment_of [50] (demo_article [1]) (Some (demo_candidate 7 Media 10))]"
  show "assignDistributionChannels demo_js ?input = Inr ?as" by code_simp
  show "picks_of demo_js ?input = [Some (demo_candidate 7 Media 10)]" by code_simp
  show "assertDistributionPlanConfirmable demo_js (demo_plan ?cs ?as) = Inr ()" by code_simp
  show "find (\<lambda>c. Some (cd_resourceId c) = as_resourceId (hd ?as)) ?cs = Some (demo_candidate 7 WeMedia 50)" by code_simp
  show "cd_kind (demo_candidate 7 Media 10) = Media" "cd_kind (demo_candidate 7 WeMedia 50) = WeMedia" by code_simp+
  show "spend_cap (demo_plan ?cs ?as) < candidate_points (demo_candidate 7 WeMedia 50)" by code_simp
qed

section \<open>The answer of the global recall\<close>

text \<open>
  \<open>parseGlobalRecallResult\<close> of \<open>channelRecall.ts\<close> reads the channels that a language model recommends.
  \<open>JSON.parse\<close> is an argument (\<open>None\<close> when it throws).
\<close>

record parsed_channel =
  gc_name :: utext
  gc_url :: utext
  gc_topicNumbers :: "rat list"
  gc_reason :: utext

definition fenced_payload :: "utext \<Rightarrow> utext option" where
  "fenced_payload t =
     (case strip_prefix [96, 96, 96] t of
        None \<Rightarrow> None
      | Some r \<Rightarrow>
          let body = dropWhile js_space (if map ascii_fold (take 4 r) = ascii ''json'' then drop 4 r else r)
          in if text_suffix [96, 96, 96] body then Some (rev (dropWhile js_space (drop 3 (rev body)))) else
            None)"

definition parseJsonLoose :: "(utext \<Rightarrow> json option) \<Rightarrow> utext \<Rightarrow> json option" where
  "parseJsonLoose parse t =
     (let trimmed = js_trim t
      in case parse (case fenced_payload trimmed of Some p \<Rightarrow> p | None \<Rightarrow> trimmed) of
           Some j \<Rightarrow> Some j
         | None \<Rightarrow>
             let first = length (takeWhile (\<lambda>c. c \<noteq> 91) trimmed);
                 last = length (dropWhile (\<lambda>c. c \<noteq> 93) (rev trimmed)) - 1
             in if 91 \<in> set trimmed \<and> 93 \<in> set trimmed \<and> first < last
                then parse (drop first (take (last + 1) trimmed)) else None)"

definition trimmed_json :: "json \<Rightarrow> string \<Rightarrow> utext" where
  "trimmed_json item k = (case jget item k of Some (JStr t) \<Rightarrow> js_trim t | _ \<Rightarrow> [])"

definition topic_numbers :: "json option \<Rightarrow> rat list" where
  "topic_numbers v =
     (case v of
        Some (JArr xs) \<Rightarrow>
          js_unique (filter (\<lambda>n. is_integer n \<and> 1 \<le> n)
            (concat (map (\<lambda>x. case x of JNum n \<Rightarrow> [n] | _ \<Rightarrow> []) xs)))
      | _ \<Rightarrow> [])"

definition parsed_channel_of :: "js_runtime \<Rightarrow> json \<Rightarrow> parsed_channel option" where
  "parsed_channel_of js item =
     (let name = trimmed_json item ''name''; url = trimmed_json item ''url''
      in if name = [] \<or> url = [] \<or> registeredDomain js (Some url) \<in> {None, Some []} then None
         else Some \<lparr>gc_name = name, gc_url = url, gc_topicNumbers = topic_numbers (jget item ''topicNumbers''),
                    gc_reason = utf16_take 200 (trimmed_json item ''reason'')\<rparr>)"

definition parseGlobalRecallResult ::
  "js_runtime \<Rightarrow> (utext \<Rightarrow> json option) \<Rightarrow> utext \<Rightarrow> parsed_channel list" where
  "parseGlobalRecallResult js parse t =
     (case parseJsonLoose parse t of
        Some (JArr items) \<Rightarrow> concat (map (\<lambda>item. option_list (parsed_channel_of js item)) items)
      | _ \<Rightarrow> [])"

text \<open>Every channel that is kept can be aligned by its domain, and its topics are positive numbers.\<close>

lemma topic_numbers_ok: "distinct (topic_numbers v) \<and> (\<forall>n\<in>set (topic_numbers v). is_integer n \<and> 1 \<le> n)"
  unfolding topic_numbers_def by (cases v) (auto split: json.split)

lemma parsed_channel_ok:
  assumes "parsed_channel_of js item = Some c"
  shows "gc_name c \<noteq> [] \<and> registeredDomain js (Some (gc_url c)) \<noteq> None \<and>
    distinct (gc_topicNumbers c) \<and> (\<forall>n\<in>set (gc_topicNumbers c). is_integer n \<and> 1 \<le> n)"
  using assms topic_numbers_ok [of "jget item ''topicNumbers''"]
  by (simp add: parsed_channel_of_def Let_def split: if_splits) (elim conjE; hypsubst; simp)

lemma parseGlobalRecallResult_channels:
  assumes "c \<in> set (parseGlobalRecallResult js parse t)"
  shows "gc_name c \<noteq> [] \<and> registeredDomain js (Some (gc_url c)) \<noteq> None \<and>
    distinct (gc_topicNumbers c) \<and> (\<forall>n\<in>set (gc_topicNumbers c). is_integer n \<and> 1 \<le> n)"
proof -
  from assms obtain items where "c \<in> set (concat (map (\<lambda>item. option_list (parsed_channel_of js item)) items))"
    unfolding parseGlobalRecallResult_def by (cases "parseJsonLoose parse t") (auto split: json.splits)
  then obtain item where "parsed_channel_of js item = Some c"
    by (auto simp: option_list_def split: option.splits)
  then show ?thesis by (rule parsed_channel_ok)
qed

end
