(* ===== verification/Candidates.thy ===== *)
theory Candidates
  imports Distribution "HOL-Library.Sublist"
begin

text \<open>
  The discovery of channel candidates, \<open>buildDistributionCandidates\<close> of
  \<open>src/shared/geo/distributionPlan.ts\<close>: the approved part of the pool, the evidence of the passive, the
  active and the preference path, the families of channel names, the sampling of the fallback path,
  the quotas and the recommended candidates, and the plan that the sidecar makes of them.
  The random numbers of the sampling are the argument \<open>rnd\<close>, one for every draw. The code updates the
  objects that several lists share; a candidate is identified by its kind and number, which are
  unique, so the update is the same map over each list. \<open>None\<close> is the exception of
  \<open>accountKeyFromUrl\<close>, which leaves the whole discovery.
\<close>

section \<open>The contract\<close>

definition path_number :: "recall_path \<Rightarrow> nat" where
  "path_number p = (case p of PassivePath \<Rightarrow> 1 | ActivePath \<Rightarrow> 2 | FallbackPath \<Rightarrow> 3 | PreferencePath \<Rightarrow> 4)"

definition path_weight :: "recall_path \<Rightarrow> rat" where
  "path_weight p =
     (case p of PassivePath \<Rightarrow> 2 / 5 | ActivePath \<Rightarrow> 1 / 5 | FallbackPath \<Rightarrow> 3 / 10 | PreferencePath \<Rightarrow> 1 / 10)"

definition PASSIVE_ALIGNED_CHANNEL_CAP :: nat where
  "PASSIVE_ALIGNED_CHANNEL_CAP = 50"

definition FALLBACK_VERTICAL_QUOTA :: nat where
  "FALLBACK_VERTICAL_QUOTA = 26"

definition FALLBACK_TOTAL_CAP :: nat where
  "FALLBACK_TOTAL_CAP = 30"

definition DISTRIBUTION_MAX_CANDIDATES :: nat where
  "DISTRIBUTION_MAX_CANDIDATES = 30"

definition MEDIA_QUOTA :: nat where
  "MEDIA_QUOTA = 20"

definition WE_MEDIA_QUOTA :: nat where
  "WE_MEDIA_QUOTA = 10"

definition FAMILY_QUOTA :: nat where
  "FAMILY_QUOTA = 2"

record discovery_input =
  di_industry :: utext
  di_targetAudience :: utext
  di_questionSources :: "question_source list"
  di_activeSources :: "recall_source list"
  di_preferenceChannels :: "pref_channel list"
  di_perArticleMaxPoints :: int
  di_articles :: "article_snapshot list"
  di_resources :: "distribution_resource list"

section \<open>The approved pool\<close>

definition resource_key :: "distribution_resource \<Rightarrow> publish_order_kind \<times> int" where
  "resource_key r = (sn_kind r, sn_resourceId r)"

definition approved_resource :: "js_runtime \<Rightarrow> int \<Rightarrow> distribution_resource \<Rightarrow> bool" where
  "approved_resource js limit r \<longleftrightarrow>
     sn_status r = Some 2 \<and>
     (case parsePrice js (sn_price r) of None \<Rightarrow> False | Some price \<Rightarrow> cnyToPoints price \<le> limit)"

definition identity_of :: "distribution_resource \<Rightarrow> resource_identity" where
  "identity_of r =
     \<lparr>ri_name = sn_name r, ri_entranceLink = sn_entranceLink r, ri_platform = sn_platform r,
      ri_id = Some (sn_resourceId r), ri_kind = Some (sn_kind r)\<rparr>"

definition link_of :: "distribution_resource \<Rightarrow> link_resource" where
  "link_of r = \<lparr>lr_name = sn_name r, lr_entranceLink = sn_entranceLink r, lr_caseLink = sn_caseLink r\<rparr>"

definition pathEvidence ::
  "recall_path \<Rightarrow> utext \<Rightarrow> utext \<Rightarrow> utext option \<Rightarrow> utext list \<Rightarrow> evidence" where
  "pathEvidence path label reference url articleIds =
     \<lparr>ev_path = path, ev_weight = path_weight path, ev_label = label, ev_reference = reference, ev_url = url,
      ev_articleIds = articleIds\<rparr>"

section \<open>The passive path\<close>

record passive_hit =
  ph_evidence :: evidence
  ph_questionId :: utext
  ph_account :: "utext option"

text \<open>The account that a source of a shared platform and a resource have in common.\<close>

definition named_account :: "js_runtime \<Rightarrow> distribution_resource \<Rightarrow> question_source \<Rightarrow> utext option" where
  "named_account js r source =
     (let accountName = (case trimmed_text (qs_resolvedAccountName source) of
                           Some n \<Rightarrow> Some n | None \<Rightarrow> accountNameFromTitle (qs_title source))
      in case accountName of
           None \<Rightarrow> None
         | Some n \<Rightarrow>
             if n \<noteq> [] \<and> accountNameMatchesChannel js n (citationPlatformFamily js (Some (qs_url source))) (sn_name r)
                           (resourcePlatformFamilies js (identity_of r))
             then Some n else None)"

definition account_label ::
  "js_runtime \<Rightarrow> distribution_resource \<Rightarrow> account_key option \<Rightarrow> question_source \<Rightarrow> utext option option" where
  "account_label js r resourceKey source =
     (if \<not> isMultiTenantPlatformUrl js (Some (qs_url source)) then Some None
      else case accountKeyFromUrl js (Some (qs_url source)) of
             None \<Rightarrow> None
           | Some sourceKey \<Rightarrow>
               (case sourceKey of
                  None \<Rightarrow> Some (named_account js r source)
                | Some s \<Rightarrow>
                    if resourceKey = Some s then Some (Some (ak_platform s @ [21495, 35] @ ak_accountId s))
                    else Some (named_account js r source)))"

definition domain_aligned ::
  "js_runtime \<Rightarrow> link_resource list \<Rightarrow> distribution_resource \<Rightarrow> question_source \<Rightarrow> bool" where
  "domain_aligned js pool r source \<longleftrightarrow>
     \<not> isMultiTenantPlatformUrl js (Some (qs_url source)) \<and>
     (case registeredDomain js (Some (qs_url source)) of
        None \<Rightarrow> False
      | Some d \<Rightarrow>
          d \<in> set (lr_domains js (link_of r)) \<and>
          (domain_unambiguous js pool d = Some True \<or> nameMatches js (qs_title source) (sn_name r)))"

definition platform_gate :: "js_runtime \<Rightarrow> distribution_resource \<Rightarrow> question_source \<Rightarrow> bool" where
  "platform_gate js r source \<longleftrightarrow>
     \<not> isMultiTenantPlatformUrl js (Some (qs_url source)) \<or>
     (case citationPlatformFamily js (Some (qs_url source)) of
        None \<Rightarrow> False | Some family \<Rightarrow> family \<in> set (resourcePlatformFamilies js (identity_of r)))"

definition passive_label :: "question_source \<Rightarrow> utext option \<Rightarrow> utext" where
  "passive_label source account =
     [30495, 23454, 38382, 39064, 26469, 28304, 12300] @ qs_title source @ [12301, 19982, 36164, 28304,
       27744, 28192, 36947, 23545, 40784] @
     (case account of
        None \<Rightarrow> []
      | Some a \<Rightarrow> [65288, 36134, 21495, 65306] @ a @ [65289])"

definition passive_hit_of ::
  "js_runtime \<Rightarrow> link_resource list \<Rightarrow> distribution_resource \<Rightarrow> account_key option \<Rightarrow> question_source \<Rightarrow>
   passive_hit option option" where
  "passive_hit_of js pool r resourceKey source =
     map_option (\<lambda>account.
       let hit = (\<lambda>a. Some \<lparr>ph_evidence = pathEvidence PassivePath (passive_label source a) (qs_questionId source)
                                         (Some (qs_url source)) (qs_articleIds source),
                          ph_questionId = qs_questionId source, ph_account = a\<rparr>)
       in if domain_aligned js pool r source \<or> account \<noteq> None then hit account
          else if nameMatches js (qs_title source) (sn_name r) \<and> platform_gate js r source then hit None
          else None)
     (account_label js r resourceKey source)"

fun each_option :: "('a \<Rightarrow> 'b option) \<Rightarrow> 'a list \<Rightarrow> 'b list option" where
  "each_option f [] = Some []"
| "each_option f (x # xs) = Option.bind (f x) (\<lambda>y. map_option (\<lambda>ys. y # ys) (each_option f xs))"

definition passive_hits ::
  "js_runtime \<Rightarrow> link_resource list \<Rightarrow> question_source list \<Rightarrow> distribution_resource \<Rightarrow> passive_hit list option" where
  "passive_hits js pool sources r =
     Option.bind (accountKeyFromUrl js (sn_entranceLink r)) (\<lambda>resourceKey.
       map_option (\<lambda>hits. concat (map option_list hits))
         (each_option (passive_hit_of js pool r resourceKey) sources))"

section \<open>The active and the preference path\<close>

definition active_domain_hit ::
  "js_runtime \<Rightarrow> link_resource list \<Rightarrow> distribution_resource \<Rightarrow> recall_source \<Rightarrow> bool" where
  "active_domain_hit js pool r source \<longleftrightarrow>
     \<not> isMultiTenantPlatformUrl js (src_url source) \<and>
     (case registeredDomain js (src_url source) of
        None \<Rightarrow> False
      | Some d \<Rightarrow>
          d \<in> set (lr_domains js (link_of r)) \<and>
          (domain_unambiguous js pool d = Some True \<or>
           4 / 5 \<le> activeNameMatchScore js source (sn_name r) (isMultiTenantPlatformUrl js (src_url source))))"

definition official_hit :: "js_runtime \<Rightarrow> bool \<Rightarrow> distribution_resource \<Rightarrow> recall_source \<Rightarrow> bool" where
  "official_hit js industryMatch r source \<longleftrightarrow>
     (let sourceFamily = (if isMultiTenantPlatformUrl js (src_url source)
                          then citationPlatformFamily js (src_url source) else None)
      in sourceFamily \<noteq> None \<and> platformOfficialFamily js (identity_of r) = sourceFamily \<and>
         (industryMatch \<or> officialChannelAligned js source (sn_name r)))"

definition active_evidence ::
  "js_runtime \<Rightarrow> link_resource list \<Rightarrow> bool \<Rightarrow> distribution_resource \<Rightarrow> recall_source \<Rightarrow> evidence list" where
  "active_evidence js pool industryMatch r source =
     (let domainHit = active_domain_hit js pool r source; officialHit = official_hit js industryMatch r source
      in if domainHit \<or> officialHit \<or>
            4 / 5 \<le> activeNameMatchScore js source (sn_name r) (isMultiTenantPlatformUrl js (src_url source))
         then [pathEvidence ActivePath
                 ([20840, 23616, 21484, 22238, 25512, 33616, 28192, 36947, 12300] @ src_title source @
                  (if officialHit \<and> \<not> domainHit then [12301, 21629, 20013, 24179, 21488, 23448,
                    26041, 22411, 36164, 28304]
                   else [12301, 19982, 26412, 36164, 28304, 23545, 40784]))
                 ([114, 101, 99, 97, 108, 108, 58] @ src_title source)
                 (case src_url source of Some u \<Rightarrow> Some u | None \<Rightarrow> sn_entranceLink r)
                 (case src_articleIds source of Some ids \<Rightarrow> ids | None \<Rightarrow> [])]
         else [])"

definition preference_evidence :: "js_runtime \<Rightarrow> pref_channel list \<Rightarrow> distribution_resource \<Rightarrow> evidence list" where
  "preference_evidence js entries r =
     (case find (\<lambda>entry. preferenceEntryMatches js entry (identity_of r)) entries of
        None \<Rightarrow> []
      | Some entry \<Rightarrow>
          [pathEvidence PreferencePath ([20559, 22909, 21517, 21333, 21629, 20013, 12300] @ pc_name entry @
            [12301])
             ([112, 114, 101, 102, 101, 114, 101, 110, 99, 101, 58] @ pc_name entry) (sn_entranceLink r) []])"

section \<open>One evidence for every path\<close>

definition merge_evidence :: "evidence \<Rightarrow> evidence \<Rightarrow> evidence" where
  "merge_evidence existing item =
     existing\<lparr>ev_articleIds := js_unique (ev_articleIds existing @ ev_articleIds item),
       ev_label :=
         (if ev_path item = PassivePath
          then let merged = ev_label existing @ [65307] @ ev_label item
               in if 200 < utf16_length merged then utf16_take 200 merged @ [8230] else merged
          else ev_label existing),
       ev_reference :=
         (if ev_path item = FallbackPath then ev_reference existing
          else ev_reference existing @ [44] @ ev_reference item)\<rparr>"

fun add_evidence :: "evidence list \<Rightarrow> evidence \<Rightarrow> evidence list" where
  "add_evidence [] item = [item]"
| "add_evidence (e # es) item =
     (if ev_path e = ev_path item then merge_evidence e item # es else e # add_evidence es item)"

definition by_path :: "evidence list \<Rightarrow> evidence list" where
  "by_path items = foldl add_evidence [] items"

definition path_order :: "recall_path list \<Rightarrow> recall_path list" where
  "path_order paths = sort_key path_number paths"

definition hits_weight :: "recall_path list \<Rightarrow> rat" where
  "hits_weight paths = sum_list (map path_weight paths)"

section \<open>The candidate of a resource\<close>

definition content_type_name :: "content_type \<Rightarrow> utext" where
  "content_type_name t =
     ascii (case t of Guide \<Rightarrow> ''guide'' | Showcase \<Rightarrow> ''showcase'' | Ranking \<Rightarrow> ''ranking''
            | News \<Rightarrow> ''news'' | NewsLight \<Rightarrow> ''news_light'')"

definition content_types :: "discovery_input \<Rightarrow> content_type list" where
  "content_types input = js_unique (map ar_contentType (di_articles input))"

text \<open>The largest fit in percent; the maximum of nothing prints as minus infinity.\<close>

definition fit_percent :: "content_type list \<Rightarrow> publish_order_kind \<Rightarrow> utext" where
  "fit_percent types kind =
     (case map (\<lambda>t. CONTENT_KIND_FIT t kind) types of
        [] \<Rightarrow> ascii ''-Infinity''
      | fit # fits \<Rightarrow> ascii (show_int (math_round (foldl max fit fits * 100))))"

definition fit_reasons :: "js_runtime \<Rightarrow> discovery_input \<Rightarrow> tier_input \<Rightarrow> distribution_resource \<Rightarrow> utext list" where
  "fit_reasons js input tier r =
     [(if industryCategoryMatch r tier then [34892, 19994, 31867, 30446, 19982, 12300] @ di_industry input @
       [12301, 19968, 33268]
       else [34892, 19994, 31867, 30446, 26410, 30830, 35748, 21305, 37197, 12300] @ di_industry input @
         [12301]),
      (if audienceOverlap js (di_targetAudience input) r
       then [28192, 36947, 20449, 24687, 21629, 20013, 30446, 26631, 20154, 32676, 12300] @
         di_targetAudience input @ [12301]
       else [30446, 26631, 20154, 32676, 21305, 37197, 20165, 26377, 38388, 25509, 35777, 25454]),
      [25991, 31456, 31867, 22411, 32] @ join_texts [47] (map content_type_name (content_types input)) @
        [32, 23545, 35813, 28192, 36947, 24418, 24577, 30340, 26368, 39640, 36866, 37197, 24230, 32] @
          fit_percent (content_types input) (sn_kind r) @ [37]] @
     (if industryCategoryMatch r tier \<and> sn_geoPlatforms r \<noteq> []
      then [[34892, 19994, 22402, 31867, 19988, 32, 65, 73, 32, 24179, 21488, 24050, 25910, 24405, 65288] @
        join_texts [47] (sn_geoPlatforms r) @ [65289]]
      else [])"

definition candidate_risks :: "js_runtime \<Rightarrow> discovery_input \<Rightarrow> tier_input \<Rightarrow> distribution_resource \<Rightarrow> bool \<Rightarrow> utext list" where
  "candidate_risks js input tier r passive =
     (if passive then [] else [[27809, 26377, 19982, 30495, 23454, 38382, 39064, 26469, 28304, 30452, 25509,
       23545, 40784, 30340, 34987, 21160, 21484, 22238, 35777, 25454]]) @
     (if industryCategoryMatch r tier then [] else [[34892, 19994, 32467, 26500, 21270, 31867, 30446, 26410,
       21629, 20013]]) @
     (if audienceOverlap js (di_targetAudience input) r then [] else [[30446, 26631, 20154, 32676, 36866,
       37197, 35777, 25454, 36739, 24369]])"

definition candidate_of ::
  "js_runtime \<Rightarrow> discovery_input \<Rightarrow> tier_input \<Rightarrow> distribution_resource \<Rightarrow> evidence list \<Rightarrow> candidate list" where
  "candidate_of js input tier r items =
     (let merged = by_path items; hits = path_order (map ev_path merged); price = parsePrice js (sn_price r)
      in if merged = [] \<and> \<not> industryCategoryMatch r tier \<and> sn_geoPlatforms r = [] then []
         else [\<lparr>cd_resourceId = sn_resourceId r, cd_kind = sn_kind r, cd_name = sn_name r, cd_price = price,
                cd_publishedRate = sn_publishedRate r,
                cd_availability = \<lparr>av_state = ''available'', av_providerStatus = 2,
                                   av_basis = ''supermedia-approved-resource''\<rparr>,
                cd_weight = hits_weight hits, cd_hitCount = length hits, cd_pathHits = hits, cd_evidence = merged,
                cd_fitReasons = fit_reasons js input tier r,
                cd_risks = candidate_risks js input tier r (PassivePath \<in> set hits),
                cd_uncertainties = (if price = None then [[20215, 26684, 26410, 30693, 65292, 19981, 33021,
                  36827, 20837, 24050, 30830, 35748, 20998, 21457, 35745, 21010]] else []),
                cd_snapshot = r, cd_variantFamily = Some (variantFamilyKey js (identity_of r))\<rparr>])"

definition discovery_tier :: "discovery_input \<Rightarrow> tier_input" where
  "discovery_tier input = tier_input_of (di_industry input) (di_targetAudience input)"

text \<open>The evidence of a resource and its candidate; the passive hits are kept for the statistics.\<close>

definition recall_resource ::
  "js_runtime \<Rightarrow> discovery_input \<Rightarrow> link_resource list \<Rightarrow> distribution_resource \<Rightarrow>
   (candidate list \<times> passive_hit list) option" where
  "recall_resource js input pool r =
     map_option (\<lambda>hits.
       (candidate_of js input (discovery_tier input) r
          (map ph_evidence hits @
           concat (map (active_evidence js pool (industryCategoryMatch r (discovery_tier input)) r) (di_activeSources input)) @
           preference_evidence js (di_preferenceChannels input) r), hits))
     (passive_hits js pool (di_questionSources input) r)"

section \<open>Ranks\<close>

record passive_stat =
  pt_citations :: nat
  pt_questions :: "utext list"
  pt_accounts :: "utext list"

definition stat_of :: "passive_hit list \<Rightarrow> passive_stat" where
  "stat_of hits =
     \<lparr>pt_citations = length hits, pt_questions = js_unique (map ph_questionId hits),
      pt_accounts = js_unique (concat (map (\<lambda>h. option_list (ph_account h)) hits))\<rparr>"

definition candidate_ref :: "candidate \<Rightarrow> publish_order_kind \<times> int" where
  "candidate_ref c = (cd_kind c, cd_resourceId c)"

text \<open>The statistics of the approved resources, by kind and number.\<close>

type_synonym stats = "((publish_order_kind \<times> int) \<times> passive_stat) list"

definition stat_for :: "stats \<Rightarrow> candidate \<Rightarrow> passive_stat" where
  "stat_for stats c =
     (case map_of stats (candidate_ref c) of
        Some s \<Rightarrow> s | None \<Rightarrow> \<lparr>pt_citations = 0, pt_questions = [], pt_accounts = []\<rparr>)"

definition global_key ::
  "js_runtime \<Rightarrow> discovery_input \<Rightarrow> stats \<Rightarrow> candidate \<Rightarrow>
   rat \<times> int \<times> nat \<times> bool \<times> bool \<times> int \<times> int \<times> nat list \<times> int" where
  "global_key js input stats c =
     (- cd_weight c, - int (cd_hitCount c), fallbackPreferenceTier js (cd_snapshot c) (discovery_tier input),
      isJunkResaleListing (cd_name c),
      \<not> verticalNameMatch js (cd_snapshot c) (di_industry input) (di_targetAudience input),
      - int (length (pt_questions (stat_for stats c))), - int (pt_citations (stat_for stats c)),
      jr_collate js (cd_name c), cd_resourceId c)"

definition global_rank :: "js_runtime \<Rightarrow> discovery_input \<Rightarrow> stats \<Rightarrow> candidate list \<Rightarrow> candidate list" where
  "global_rank js input stats cs = sort_key (global_key js input stats) cs"

definition within_key :: "js_runtime \<Rightarrow> candidate \<Rightarrow> bool \<times> bool \<times> rat \<times> int \<times> bool \<times> rat \<times> nat \<times> int" where
  "within_key js c =
     (isJunkResaleListing (cd_name c), primaryPlatformFamily js (identity_of (cd_snapshot c)) \<noteq> None, - cd_weight c,
      - int (length (sn_geoPlatforms (cd_snapshot c))), cd_price c = None,
      (case cd_price c of None \<Rightarrow> 0 | Some price \<Rightarrow> price),
      utf16_length (channelNameCoreAll (sn_name (cd_snapshot c))), cd_resourceId c)"

section \<open>Trunk families\<close>

definition candidate_core :: "js_runtime \<Rightarrow> candidate \<Rightarrow> utext" where
  "candidate_core js c = family_core js (sn_name (cd_snapshot c))"

definition trunk_cores :: "js_runtime \<Rightarrow> candidate list \<Rightarrow> utext list" where
  "trunk_cores js cs = filter (\<lambda>core. core \<noteq> []) (js_unique (map (candidate_core js) cs))"

text \<open>A longer name belongs to a shorter one that it contains and exceeds by at least two characters.\<close>

definition trunk_pair :: "utext \<times> utext \<Rightarrow> bool" where
  "trunk_pair = (\<lambda>(short, long). text_includes long short \<and> utf16_length short + 2 \<le> utf16_length long)"

definition trunk_edges :: "utext list \<Rightarrow> (utext \<times> utext) list" where
  "trunk_edges cores =
     map (\<lambda>(short, long). (long, short)) (filter trunk_pair (later_pairs (sort_key utf16_length cores)))"

definition with_family :: "js_runtime \<Rightarrow> (utext \<times> utext) list \<Rightarrow> candidate \<Rightarrow> candidate" where
  "with_family js roots c =
     c\<lparr>cd_variantFamily := Some (case map_of roots (candidate_core js c) of
         Some trunk \<Rightarrow> trunk
       | None \<Rightarrow> (case cd_variantFamily c of Some v \<Rightarrow> v | None \<Rightarrow> candidate_core js c))\<rparr>"

definition assignTrunkFamilies :: "js_runtime \<Rightarrow> candidate list \<Rightarrow> candidate list option" where
  "assignTrunkFamilies js cs =
     (let names = filter (\<lambda>core. core \<noteq> []) (map (candidate_core js) cs)
      in map_option (\<lambda>roots. map (with_family js (zip names roots)) cs)
           (cluster_roots (trunk_edges (trunk_cores js cs)) names))"

definition pack_key :: "utext list \<Rightarrow> candidate \<Rightarrow> utext" where
  "pack_key qualifiers c =
     (case cd_variantFamily c of Some v \<Rightarrow> v | None \<Rightarrow> ascii ''undefined'') @ [35] @
     packKeyOf (sn_name (cd_snapshot c)) qualifiers"

definition better :: "js_runtime \<Rightarrow> candidate \<Rightarrow> candidate \<Rightarrow> candidate" where
  "better js current c = (if within_key js c < within_key js current then c else current)"

fun best_of :: "js_runtime \<Rightarrow> candidate list \<Rightarrow> candidate list" where
  "best_of js [] = []"
| "best_of js (c # cs) = [foldl (better js) c cs]"

definition pack_best :: "js_runtime \<Rightarrow> utext list \<Rightarrow> candidate list \<Rightarrow> candidate list" where
  "pack_best js qualifiers cs =
     concat (map (\<lambda>k. best_of js (filter (\<lambda>c. pack_key qualifiers c = k) cs)) (js_unique (map (pack_key qualifiers) cs)))"

definition familyOf :: "candidate \<Rightarrow> utext" where
  "familyOf c =
     (case cd_variantFamily c of
        Some v \<Rightarrow> v
      | None \<Rightarrow> ascii ((case cd_kind c of Media \<Rightarrow> ''media:'' | WeMedia \<Rightarrow> ''we-media:'') @ show_int (cd_resourceId c)))"

section \<open>The sampling of the fallback path\<close>

definition swap_at :: "nat \<Rightarrow> nat \<Rightarrow> 'a list \<Rightarrow> 'a list" where
  "swap_at i j xs = xs[i := xs ! j, j := xs ! i]"

text \<open>The loop from the last index down to one; every round takes the next random number.\<close>

fun shuffle_loop :: "(nat \<Rightarrow> rat) \<Rightarrow> nat \<Rightarrow> nat \<Rightarrow> 'a list \<Rightarrow> 'a list" where
  "shuffle_loop rnd k 0 xs = xs"
| "shuffle_loop rnd k (Suc i) xs =
     shuffle_loop rnd (k + 1) i (swap_at (Suc i) (nat \<lfloor>rnd k * of_nat (i + 2)\<rfloor>) xs)"

definition shuffled :: "(nat \<Rightarrow> rat) \<Rightarrow> nat \<Rightarrow> 'a list \<Rightarrow> 'a list" where
  "shuffled rnd k xs = shuffle_loop rnd k (length xs - 1) xs"

definition tier_of :: "js_runtime \<Rightarrow> discovery_input \<Rightarrow> candidate \<Rightarrow> nat" where
  "tier_of js input c = fallbackPreferenceTier js (cd_snapshot c) (discovery_tier input)"

definition fallback_picks :: "js_runtime \<Rightarrow> (nat \<Rightarrow> rat) \<Rightarrow> discovery_input \<Rightarrow> candidate list \<Rightarrow> candidate list" where
  "fallback_picks js rnd input admissible =
     (let tier0 = filter (\<lambda>c. tier_of js input c = 0) admissible;
          list1 = filter (\<lambda>c. tier_of js input c = 1) admissible;
          list2 = filter (\<lambda>c. tier_of js input c = 2) admissible;
          tier1 = take (FALLBACK_VERTICAL_QUOTA - length tier0) (shuffled rnd 0 list1);
          tier2 = take (FALLBACK_TOTAL_CAP - length tier0 - length tier1) (shuffled rnd (length list1 - 1) list2)
      in tier0 @ tier1 @ tier2)"

definition category_labels :: "int list \<Rightarrow> (int \<times> utext) list \<Rightarrow> utext list" where
  "category_labels codes names =
     filter (\<lambda>n. n \<noteq> []) (concat (map (\<lambda>code. option_list (map_of names code)) codes))"

definition fallback_evidence :: "discovery_input \<Rightarrow> distribution_resource \<Rightarrow> evidence" where
  "fallback_evidence input r =
     (let tier = discovery_tier input; industryHit = industryCategoryMatch r tier;
          labels = js_trim (join_texts [47] (category_labels (ti_mediaCodes tier) MEDIA_CHANNEL_TYPE_NAMES @
                                   category_labels (ti_weMediaCodes tier) WE_MEDIA_INDUSTRY_NAMES));
          signals =
            (if industryHit
             then [[36229, 32423, 23186, 20171, 32467, 26500, 21270, 31867, 30446, 21305, 37197, 12300] @
                   (if labels = [] then di_industry input else labels) @ [12301]] else []) @
            (if sn_geoPlatforms r \<noteq> []
             then [[23448, 26041, 32, 71, 69, 79, 32, 26631, 35760, 65306] @ join_texts [47]
               (sn_geoPlatforms r) @ [24050, 25910, 24405]]
             else if geoIncluded r then [[36164, 28304, 21517, 31216, 47, 22791, 27880, 21547, 30495, 23454,
               32, 71, 69, 79, 32, 25910, 24405, 20449, 21495]] else [])
      in pathEvidence FallbackPath (join_texts [65307] signals)
           (if industryHit then [105, 110, 100, 117, 115, 116, 114, 121, 58] @ di_industry input
            else [103, 101, 111, 58] @ join_texts [47] (sn_geoPlatforms r))
           (sn_entranceLink r) [])"

definition with_fallback :: "discovery_input \<Rightarrow> candidate \<Rightarrow> candidate" where
  "with_fallback input c =
     (let hits = path_order (cd_pathHits c @ [FallbackPath])
      in c\<lparr>cd_evidence := cd_evidence c @ [fallback_evidence input (cd_snapshot c)], cd_pathHits := hits,
           cd_hitCount := length hits, cd_weight := hits_weight hits\<rparr>)"

definition recall_fallback :: "discovery_input \<Rightarrow> (publish_order_kind \<times> int) list \<Rightarrow> candidate \<Rightarrow> candidate" where
  "recall_fallback input recalled c = (if candidate_ref c \<in> set recalled then with_fallback input c else c)"

section \<open>Quotas\<close>

fun family_walk :: "utext list \<Rightarrow> candidate list \<Rightarrow> candidate list" where
  "family_walk used [] = []"
| "family_walk used (c # cs) =
     (if FAMILY_QUOTA \<le> count_list used (familyOf c) then family_walk used cs
      else c # family_walk (familyOf c # used) cs)"

fun quota_walk :: "nat \<Rightarrow> nat \<Rightarrow> candidate list \<Rightarrow> candidate list" where
  "quota_walk mediaLeft weMediaLeft [] = []"
| "quota_walk mediaLeft weMediaLeft (c # cs) =
     (case cd_kind c of
        Media \<Rightarrow> if mediaLeft = 0 then quota_walk mediaLeft weMediaLeft cs
                 else c # quota_walk (mediaLeft - 1) weMediaLeft cs
      | WeMedia \<Rightarrow> if weMediaLeft = 0 then quota_walk mediaLeft weMediaLeft cs
                   else c # quota_walk mediaLeft (weMediaLeft - 1) cs)"

definition kind_count :: "publish_order_kind \<Rightarrow> candidate list \<Rightarrow> nat" where
  "kind_count k cs = length (filter (\<lambda>c. cd_kind c = k) cs)"

text \<open>A quota that its kind cannot fill goes to the other kind.\<close>

definition quotas :: "candidate list \<Rightarrow> nat \<times> nat" where
  "quotas admitted =
     (let m = kind_count Media admitted; w = length admitted - m
      in if m < MEDIA_QUOTA then (MEDIA_QUOTA, WE_MEDIA_QUOTA + (MEDIA_QUOTA - m))
         else if w < WE_MEDIA_QUOTA then (MEDIA_QUOTA + (WE_MEDIA_QUOTA - w), WE_MEDIA_QUOTA)
         else (MEDIA_QUOTA, WE_MEDIA_QUOTA))"

definition recommend :: "js_runtime \<Rightarrow> discovery_input \<Rightarrow> stats \<Rightarrow> candidate list \<Rightarrow> candidate list" where
  "recommend js input stats admissible =
     (let admitted = family_walk [] (global_rank js input stats (filter (\<lambda>c. cd_pathHits c \<noteq> []) admissible));
          (mediaTake, weMediaTake) = quotas admitted
      in take DISTRIBUTION_MAX_CANDIDATES (quota_walk mediaTake weMediaTake admitted))"

section \<open>What the panels show\<close>

record aligned_channel =
  al_resourceId :: int
  al_kind :: publish_order_kind
  al_name :: utext
  al_price :: "rat option"
  al_citations :: nat
  al_questions :: nat
  al_accounts :: "utext list"
  al_recommended :: bool
  al_variantCount :: nat
  al_priceMin :: "rat option"
  al_priceMax :: "rat option"

definition within_first :: "js_runtime \<Rightarrow> candidate list \<Rightarrow> candidate" where
  "within_first js members = hd (sort_key (within_key js) members)"

fun fold_option :: "('a \<Rightarrow> 'a \<Rightarrow> 'a) \<Rightarrow> 'a list \<Rightarrow> 'a option" where
  "fold_option f [] = None"
| "fold_option f (x # xs) = Some (foldl f x xs)"

definition aligned_of ::
  "js_runtime \<Rightarrow> stats \<Rightarrow> (publish_order_kind \<times> int) list \<Rightarrow> candidate list \<Rightarrow> aligned_channel" where
  "aligned_of js stats recommended members =
     (let rep = within_first js members; st = map (stat_for stats) members;
          prices = concat (map (\<lambda>m. option_list (cd_price m)) members)
      in \<lparr>al_resourceId = cd_resourceId rep, al_kind = cd_kind rep, al_name = cd_name rep, al_price = cd_price rep,
          al_citations = sum_list (map pt_citations st),
          al_questions = length (js_unique (concat (map pt_questions st))),
          al_accounts = js_unique (concat (map pt_accounts st)),
          al_recommended = list_ex (\<lambda>m. candidate_ref m \<in> set recommended) members,
          al_variantCount = length members, al_priceMin = fold_option min prices, al_priceMax = fold_option max prices\<rparr>)"

definition passive_candidates :: "candidate list \<Rightarrow> candidate list" where
  "passive_candidates cs = filter (\<lambda>c. list_ex (\<lambda>e. ev_path e = PassivePath) (cd_evidence c)) cs"

definition passive_aligned ::
  "js_runtime \<Rightarrow> stats \<Rightarrow> (publish_order_kind \<times> int) list \<Rightarrow> candidate list \<Rightarrow> aligned_channel list" where
  "passive_aligned js stats recommended cs =
     (let passive = passive_candidates cs;
          rows = map (\<lambda>f. aligned_of js stats recommended (filter (\<lambda>c. familyOf c = f) passive))
                   (js_unique (map familyOf passive))
      in take PASSIVE_ALIGNED_CHANNEL_CAP
           (sort_key (\<lambda>a. (- int (al_questions a), - int (al_citations a), jr_collate js (al_name a))) rows))"

record matched_channel =
  mc_entryName :: utext
  mc_matched :: bool
  mc_representativeName :: "utext option"
  mc_representativePrice :: "rat option"
  mc_variantCount :: nat
  mc_recommended :: bool

definition matched_of ::
  "js_runtime \<Rightarrow> (publish_order_kind \<times> int) list \<Rightarrow> candidate list \<Rightarrow> pref_channel \<Rightarrow> matched_channel" where
  "matched_of js recommended cs entry =
     (let members = filter (\<lambda>c. preferenceEntryMatches js entry (identity_of (cd_snapshot c))) cs
      in if members = []
         then \<lparr>mc_entryName = pc_name entry, mc_matched = False, mc_representativeName = None,
               mc_representativePrice = None, mc_variantCount = 0, mc_recommended = False\<rparr>
         else let rep = (case find (\<lambda>m. normalizeChannelName js (pc_name entry) =
                                       normalizeChannelName js (sn_name (cd_snapshot m))) members of
                           Some m \<Rightarrow> m | None \<Rightarrow> within_first js members)
              in \<lparr>mc_entryName = pc_name entry, mc_matched = True, mc_representativeName = Some (cd_name rep),
                  mc_representativePrice = cd_price rep, mc_variantCount = length members,
                  mc_recommended = list_ex (\<lambda>m. candidate_ref m \<in> set recommended) members\<rparr>)"

definition citation_domains :: "js_runtime \<Rightarrow> question_source list \<Rightarrow> utext list" where
  "citation_domains js sources =
     js_unique (concat (map (\<lambda>s. option_list (registeredDomain js (Some (qs_url s)))) sources))"

fun first_some :: "('a \<Rightarrow> 'b option) \<Rightarrow> 'a list \<Rightarrow> 'b option" where
  "first_some f [] = None"
| "first_some f (x # xs) = (case f x of Some y \<Rightarrow> Some y | None \<Rightarrow> first_some f xs)"

definition citation_site_name ::
  "js_runtime \<Rightarrow> link_resource list \<Rightarrow> question_source list \<Rightarrow> utext \<Rightarrow> utext option" where
  "citation_site_name js pool sources domain =
     (case (case poolDomainName js pool domain of
              None \<Rightarrow> None | Some n \<Rightarrow> if n = [] then None else Some n) of
        Some n \<Rightarrow> Some n
      | None \<Rightarrow>
          first_some (\<lambda>s. if registeredDomain js (Some (qs_url s)) = Some domain
                          then siteNameFromTitleSuffix (qs_title s) else None) sources)"

record discovery_summary =
  ds_inputResources :: nat
  ds_approvedResources :: nat
  ds_filteredUnavailable :: nat
  ds_filteredUnknownPrice :: nat
  ds_filteredOverPerArticleLimit :: nat
  ds_alignedResources :: nat
  ds_recommendedResources :: nat
  ds_alignedFamilies :: nat
  ds_alignedByPath :: "recall_path \<Rightarrow> nat"
  ds_citationDomains :: nat
  ds_citationDomainPoolHits :: nat

definition discovery_summary_of ::
  "js_runtime \<Rightarrow> discovery_input \<Rightarrow> distribution_resource list \<Rightarrow> distribution_resource list \<Rightarrow>
   candidate list \<Rightarrow> candidate list \<Rightarrow> discovery_summary" where
  "discovery_summary_of js input resources approved cs recommended =
     (let domains = citation_domains js (di_questionSources input)
      in \<lparr>ds_inputResources = length resources, ds_approvedResources = length approved,
          ds_filteredUnavailable = length (filter (\<lambda>r. sn_status r \<noteq> Some 2) resources),
          ds_filteredUnknownPrice =
            length (filter (\<lambda>r. sn_status r = Some 2 \<and> parsePrice js (sn_price r) = None) resources),
          ds_filteredOverPerArticleLimit =
            length (filter (\<lambda>r. sn_status r = Some 2 \<and>
              (case parsePrice js (sn_price r) of
                 None \<Rightarrow> False | Some price \<Rightarrow> di_perArticleMaxPoints input < cnyToPoints price)) resources),
          ds_alignedResources = length cs, ds_recommendedResources = length recommended,
          ds_alignedFamilies = length (js_unique (map familyOf cs)),
          ds_alignedByPath = (\<lambda>p. length (filter (\<lambda>e. ev_path e = p) (concat (map cd_evidence cs)))),
          ds_citationDomains = length domains,
          ds_citationDomainPoolHits = length (filter (\<lambda>d. poolDomainName js (map link_of resources) d \<noteq> None) domains)\<rparr>)"

section \<open>The discovery\<close>

record discovery =
  dc_candidates :: "candidate list"
  dc_resourceSnapshot :: "distribution_resource list"
  dc_passiveAligned :: "aligned_channel list"
  dc_citationSiteNames :: "(utext \<times> utext) list"
  dc_preferenceMatched :: "matched_channel list"
  dc_summary :: discovery_summary

definition approved_resources :: "js_runtime \<Rightarrow> discovery_input \<Rightarrow> distribution_resource list" where
  "approved_resources js input =
     filter (approved_resource js (di_perArticleMaxPoints input)) (last_per_key resource_key (di_resources input))"

definition stats_of :: "distribution_resource list \<Rightarrow> (candidate list \<times> passive_hit list) list \<Rightarrow> stats" where
  "stats_of resources recalled = zip (map resource_key resources) (map (\<lambda>(_, hits). stat_of hits) recalled)"

text \<open>The candidates with their families, before the fallback path, and the best one of every pack.\<close>

definition aligned_candidates ::
  "js_runtime \<Rightarrow> discovery_input \<Rightarrow> (candidate list \<times> stats) option" where
  "aligned_candidates js input =
     (let resources = last_per_key resource_key (di_resources input); approved = approved_resources js input
      in Option.bind (each_option (recall_resource js input (map link_of resources)) approved) (\<lambda>recalled.
           let stats = stats_of approved recalled
           in map_option (\<lambda>cs. (cs, stats))
                (assignTrunkFamilies js (global_rank js input stats (concat (map fst recalled))))))"

definition pool_qualifiers :: "js_runtime \<Rightarrow> discovery_input \<Rightarrow> utext list" where
  "pool_qualifiers js input =
     buildQualifierSuffixes js (map sn_name (last_per_key resource_key (di_resources input)))"

definition finish_candidates ::
  "js_runtime \<Rightarrow> (nat \<Rightarrow> rat) \<Rightarrow> discovery_input \<Rightarrow> stats \<Rightarrow> candidate list \<Rightarrow> candidate list \<times> candidate list" where
  "finish_candidates js rnd input stats cs =
     (let admissible = global_rank js input stats (pack_best js (pool_qualifiers js input) cs);
          recalled = map candidate_ref (fallback_picks js rnd input admissible);
          update = map (recall_fallback input recalled)
      in (filter (\<lambda>c. cd_pathHits c \<noteq> []) (update cs), recommend js input stats (update admissible)))"

definition buildDistributionCandidates ::
  "js_runtime \<Rightarrow> (nat \<Rightarrow> rat) \<Rightarrow> discovery_input \<Rightarrow> discovery option" where
  "buildDistributionCandidates js rnd input =
     map_option (\<lambda>(aligned, stats).
       let resources = last_per_key resource_key (di_resources input);
           (cs, recommended) = finish_candidates js rnd input stats aligned;
           refs = map candidate_ref recommended;
           domains = citation_domains js (di_questionSources input)
       in \<lparr>dc_candidates = recommended, dc_resourceSnapshot = map cd_snapshot recommended,
           dc_passiveAligned = passive_aligned js stats refs cs,
           dc_citationSiteNames =
             concat (map (\<lambda>d. case citation_site_name js (map link_of resources) (di_questionSources input) d of
                 None \<Rightarrow> [] | Some n \<Rightarrow> [(d, n)]) domains),
           dc_preferenceMatched = map (matched_of js refs cs) (di_preferenceChannels input),
           dc_summary = discovery_summary_of js input resources (approved_resources js input) cs recommended\<rparr>)
     (aligned_candidates js input)"

section \<open>The plan of the sidecar\<close>

text \<open>
  What the sidecar (\<open>src/server/geo/distribution-plan.ts\<close>) makes of a prepared plan and the two listings
  of the pool: the discovery, the assignment under the smaller of the total limit and the budget,
  and the blocking issues that are stored with the plan.
\<close>

record plan_base =
  bs_input :: discovery_input
  bs_mappingMode :: mapping_mode
  bs_ratio_media :: int
  bs_ratio_weMedia :: int
  bs_totalMaxPoints :: int
  bs_budgetCny :: rat
  bs_publishStartAt :: utext

definition normalized_pool :: "js_runtime \<Rightarrow> resource_input list \<Rightarrow> resource_input list \<Rightarrow> distribution_resource list" where
  "normalized_pool js media weMedia =
     concat (map (\<lambda>r. option_list (normalizeDistributionResource js Media r)) media) @
     concat (map (\<lambda>r. option_list (normalizeDistributionResource js WeMedia r)) weMedia)"

definition plan_assign_input :: "plan_base \<Rightarrow> candidate list \<Rightarrow> assign_input" where
  "plan_assign_input base cs =
     \<lparr>ai_articles = di_articles (bs_input base), ai_candidates = cs, ai_mappingMode = bs_mappingMode base,
      ai_ratio_media = bs_ratio_media base, ai_ratio_weMedia = bs_ratio_weMedia base,
      ai_totalMaxPoints = min (bs_totalMaxPoints base) (cnyToPoints (bs_budgetCny base)),
      ai_publishStartAt = bs_publishStartAt base, ai_industry = Some (di_industry (bs_input base)),
      ai_targetAudience = Some (di_targetAudience (bs_input base))\<rparr>"

definition unchecked_plan :: "plan_base \<Rightarrow> candidate list \<Rightarrow> assignment list \<Rightarrow> distribution_plan" where
  "unchecked_plan base cs assignments =
     \<lparr>pl_status = Draft, pl_providerState = ProviderAvailable, pl_articles = di_articles (bs_input base),
      pl_candidates = cs, pl_selectedResourceIds = concat (map (\<lambda>a. option_list (as_resourceId a)) assignments),
      pl_assignments = assignments, pl_perArticleMaxPoints = Some (di_perArticleMaxPoints (bs_input base)),
      pl_totalMaxPoints = Some (bs_totalMaxPoints base), pl_budgetCny = bs_budgetCny base,
      pl_publishStartAt = bs_publishStartAt base, pl_blockingIssues = []\<rparr>"

definition finished_plan :: "js_runtime \<Rightarrow> plan_base \<Rightarrow> candidate list \<Rightarrow> assignment list \<Rightarrow> distribution_plan" where
  "finished_plan js base cs assignments =
     (unchecked_plan base cs assignments)
       \<lparr>pl_blockingIssues := distributionPlanBlockingIssues js (unchecked_plan base cs assignments)\<rparr>"

definition discover_plan ::
  "js_runtime \<Rightarrow> (nat \<Rightarrow> rat) \<Rightarrow> plan_base \<Rightarrow> resource_input list \<Rightarrow> resource_input list \<Rightarrow>
   distribution_plan planned option" where
  "discover_plan js rnd base media weMedia =
     map_option (\<lambda>found.
       and_then (assignDistributionChannels js (plan_assign_input base (dc_candidates found)))
         (\<lambda>assignments. Inr (finished_plan js base (dc_candidates found) assignments)))
     (buildDistributionCandidates js rnd ((bs_input base)\<lparr>di_resources := normalized_pool js media weMedia\<rparr>))"

section \<open>Facts about families\<close>

definition trunk_contains :: "utext set \<Rightarrow> (utext \<times> utext) set" where
  "trunk_contains cores =
     {(long, short). long \<in> cores \<and> short \<in> cores \<and> text_includes long short \<and>
                     utf16_length short + 2 \<le> utf16_length long}"

lemma later_pairs_sorted:
  assumes "a \<in> set xs" and "b \<in> set xs" and "f a < (f b :: nat)"
  shows "(a, b) \<in> set (later_pairs (sort_key f xs))"
proof -
  let ?ys = "sort_key f xs"
  from assms obtain i j where ij: "i < length ?ys" "j < length ?ys" "?ys ! i = a" "?ys ! j = b"
    by (metis in_set_conv_nth set_sort)
  have "i < j"
  proof (rule ccontr)
    assume "\<not> i < j"
    then have "map f ?ys ! j \<le> map f ?ys ! i" using ij by (intro sorted_nth_mono) auto
    with ij assms(3) show False by simp
  qed
  with ij show ?thesis unfolding later_pairs_set by blast
qed

lemma later_pairs_members: "(a, b) \<in> set (later_pairs xs) \<Longrightarrow> a \<in> set xs \<and> b \<in> set xs"
  by (auto simp: later_pairs_set)

lemma set_trunk_edges: "set (trunk_edges cores) = trunk_contains (set cores)"
proof (intro equalityI subsetI)
  fix e
  assume "e \<in> set (trunk_edges cores)"
  then show "e \<in> trunk_contains (set cores)"
    using later_pairs_members [of _ _ "sort_key utf16_length cores"]
    by (force simp: trunk_edges_def trunk_pair_def trunk_contains_def)
next
  fix e
  assume e: "e \<in> trunk_contains (set cores)"
  obtain long short where ls: "e = (long, short)" by (cases e)
  with e have "(short, long) \<in> set (later_pairs (sort_key utf16_length cores))" "trunk_pair (short, long)"
    by (auto simp: trunk_contains_def trunk_pair_def intro: later_pairs_sorted)
  then show "e \<in> set (trunk_edges cores)" unfolding ls trunk_edges_def by force
qed

lemma zip_first:
  assumes "length names = length roots" and "x \<in> set names"
  shows "\<exists>k<length names. names ! k = x \<and> map_of (zip names roots) x = Some (roots ! k)"
  using assms
proof (induction names roots rule: list_induct2)
  case (Cons n names r roots)
  show ?case
  proof (cases "n = x")
    case True
    then show ?thesis by (intro exI [of _ 0]) simp
  next
    case False
    with Cons.prems Cons.IH obtain k where
      "k < length names" "names ! k = x" "map_of (zip names roots) x = Some (roots ! k)" by auto
    with False show ?thesis by (intro exI [of _ "Suc k"]) simp
  qed
qed simp

text \<open>
  C14: the families of channel names. The union-find search with path compression ends for every list
  of candidates, and two candidates with a name core are put into one family exactly when their
  cores are connected by steps from a core to one that it contains and exceeds by at least two
  characters: the families are the connected components that the comment describes.
\<close>

theorem trunk_families_are_components:
  "\<exists>fs. assignTrunkFamilies js cs = Some fs \<and> length fs = length cs \<and>
     (\<forall>i<length cs. \<forall>j<length cs. candidate_core js (cs ! i) \<noteq> [] \<longrightarrow> candidate_core js (cs ! j) \<noteq> [] \<longrightarrow>
        (cd_variantFamily (fs ! i) = cd_variantFamily (fs ! j) \<longleftrightarrow>
         (candidate_core js (cs ! i), candidate_core js (cs ! j)) \<in>
           (trunk_contains (candidate_core js ` set cs - {[]}) \<union>
            (trunk_contains (candidate_core js ` set cs - {[]}))\<inverse>)\<^sup>*))"
proof -
  let ?names = "filter (\<lambda>core. core \<noteq> []) (map (candidate_core js) cs)"
  let ?es = "trunk_edges (trunk_cores js cs)"
  from uf.answers [of ?es ?names] obtain rs where
    rs: "cluster_roots ?es ?names = Some rs" "length rs = length ?names" by blast
  let ?fs = "map (with_family js (zip ?names rs)) cs"
  have "set (trunk_cores js cs) = candidate_core js ` set cs - {[]}" by (auto simp: trunk_cores_def)
  then have conn: "joined ?es x y \<longleftrightarrow>
      (x, y) \<in> (trunk_contains (candidate_core js ` set cs - {[]}) \<union>
                (trunk_contains (candidate_core js ` set cs - {[]}))\<inverse>)\<^sup>*" for x y
    by (simp add: joined_def edge_set_def set_trunk_edges)
  have root: "\<exists>k<length ?names. ?names ! k = candidate_core js (cs ! i) \<and>
      cd_variantFamily (?fs ! i) = Some (rs ! k)"
    if "i < length cs" "candidate_core js (cs ! i) \<noteq> []" for i
  proof -
    from that have "candidate_core js (cs ! i) \<in> set ?names" by auto
    from zip_first [OF rs(2) [symmetric] this] obtain k where "k < length ?names"
      "?names ! k = candidate_core js (cs ! i)" "map_of (zip ?names rs) (candidate_core js (cs ! i)) = Some (rs ! k)"
      by blast
    with that(1) show ?thesis by (intro exI [of _ k]) (simp add: with_family_def)
  qed
  have "cd_variantFamily (?fs ! i) = cd_variantFamily (?fs ! j) \<longleftrightarrow>
      joined ?es (candidate_core js (cs ! i)) (candidate_core js (cs ! j))"
    if ij: "i < length cs" "j < length cs" "candidate_core js (cs ! i) \<noteq> []" "candidate_core js (cs ! j) \<noteq> []" for i j
  proof -
    from root [OF ij(1,3)] obtain k where k: "k < length ?names" "?names ! k = candidate_core js (cs ! i)"
      "cd_variantFamily (?fs ! i) = Some (rs ! k)" by blast
    from root [OF ij(2,4)] obtain l where l: "l < length ?names" "?names ! l = candidate_core js (cs ! j)"
      "cd_variantFamily (?fs ! j) = Some (rs ! l)" by blast
    from uf.same_root [OF rs(1) k(1) l(1)] show ?thesis unfolding k(2,3) l(2,3) by simp
  qed
  moreover have "assignTrunkFamilies js cs = Some ?fs" using rs(1) by (simp add: assignTrunkFamilies_def Let_def)
  ultimately show ?thesis unfolding conn by (intro exI [of _ ?fs]) simp
qed

text \<open>
  The comment at \<open>assignTrunkFamilies\<close> says that the key of a family is its shortest core. The root of
  the forest can be a longer one: when a third name contains two unrelated cores, the root of the
  first is hung below the second.
\<close>

theorem trunk_key_not_shortest:
  "cluster_roots (trunk_edges [[1, 2], [3, 4, 5], [1, 2, 9, 3, 4, 5]]) [[1, 2], [3, 4, 5], [1, 2, 9, 3, 4, 5]] =
     Some [[3, 4, 5], [3, 4, 5], [3, 4, 5]]"
  by code_simp

definition named_candidate :: "int \<Rightarrow> utext \<Rightarrow> candidate" where
  "named_candidate i name =
     (demo_candidate i Media 10)\<lparr>cd_snapshot := (demo_resource i Media)\<lparr>sn_name := name\<rparr>\<rparr>"

theorem trunk_families_are_components_witness:
  "\<exists>fs. assignTrunkFamilies demo_js [named_candidate 1 (ascii ''ab''), named_candidate 2 (ascii ''Abcd'')] = Some fs \<and>
        cd_variantFamily (fs ! 0) = cd_variantFamily (fs ! 1)"
proof -
  let ?cs = "[named_candidate 1 (ascii ''ab''), named_candidate 2 (ascii ''Abcd'')]"
  have cores: "candidate_core demo_js (?cs ! 0) = ascii ''ab''" "candidate_core demo_js (?cs ! 1) = ascii ''abcd''"
    by code_simp+
  have "text_includes (ascii ''abcd'') (ascii ''ab'')"
    "utf16_length (ascii ''ab'') + 2 \<le> utf16_length (ascii ''abcd'')" by code_simp+
  then have "(candidate_core demo_js (?cs ! 1), candidate_core demo_js (?cs ! 0)) \<in>
      trunk_contains (candidate_core demo_js ` set ?cs - {[]})"
    using cores by (simp add: trunk_contains_def ascii_def)
  then have "(candidate_core demo_js (?cs ! 0), candidate_core demo_js (?cs ! 1)) \<in>
      (trunk_contains (candidate_core demo_js ` set ?cs - {[]}) \<union>
       (trunk_contains (candidate_core demo_js ` set ?cs - {[]}))\<inverse>)\<^sup>*" by blast
  moreover have "candidate_core demo_js (?cs ! 0) \<noteq> []" "candidate_core demo_js (?cs ! 1) \<noteq> []"
    unfolding cores by (simp_all add: ascii_def)
  ultimately show ?thesis
    using trunk_families_are_components [of demo_js ?cs] by (metis One_nat_def Suc_1 lessI length_Cons list.size(3) zero_less_Suc)
qed

section \<open>Facts about evidence\<close>

lemma ev_path_merge [simp]: "ev_path (merge_evidence e item) = ev_path e"
  by (simp add: merge_evidence_def)

lemma add_evidence_paths:
  "map ev_path (add_evidence es item) =
     (if ev_path item \<in> ev_path ` set es then map ev_path es else map ev_path es @ [ev_path item])"
  by (induction es) auto

lemma by_path_snoc: "by_path (items @ [item]) = add_evidence (by_path items) item"
  by (simp add: by_path_def)

lemma by_path_paths: "distinct (map ev_path (by_path items)) \<and> ev_path ` set (by_path items) = ev_path ` set items"
proof (induction items rule: rev_induct)
  case Nil
  then show ?case by (simp add: by_path_def)
next
  case (snoc item items)
  have "set (map ev_path (by_path (items @ [item]))) = insert (ev_path item) (ev_path ` set items)"
    using snoc by (auto simp: by_path_snoc add_evidence_paths)
  moreover have "distinct (map ev_path (by_path (items @ [item])))"
    using snoc by (simp add: by_path_snoc add_evidence_paths)
  ultimately show ?case by simp
qed

lemma path_order_simps [simp]:
  "set (path_order ps) = set ps" "distinct (path_order ps) = distinct ps" "length (path_order ps) = length ps"
  "path_order ps = [] \<longleftrightarrow> ps = []"
  by (simp_all add: path_order_def) (metis length_0_conv length_sort)

lemma hits_weight_bounds:
  assumes "distinct ps"
  shows "0 \<le> hits_weight ps \<and> hits_weight ps \<le> 1"
proof -
  have paths: "set ps \<subseteq> {PassivePath, ActivePath, FallbackPath, PreferencePath}"
    using recall_path.exhaust by blast
  have nonneg: "0 \<le> path_weight p" for p by (cases p) (simp_all add: path_weight_def)
  have "hits_weight ps = sum path_weight (set ps)"
    unfolding hits_weight_def by (rule sum_list_distinct_conv_sum_set [OF assms])
  also have "\<dots> \<le> sum path_weight {PassivePath, ActivePath, FallbackPath, PreferencePath}"
    using paths nonneg by (intro sum_mono2) auto
  also have "\<dots> = 1" by (simp add: path_weight_def)
  finally have "hits_weight ps \<le> 1" .
  moreover have "0 \<le> hits_weight ps" unfolding hits_weight_def by (rule sum_list_nonneg) (use nonneg in auto)
  ultimately show ?thesis by simp
qed

section \<open>The invariant of a candidate\<close>

text \<open>
  A candidate shows one approved resource of the pool, at its price, with one piece of evidence for
  each path that it lists and the weights of those paths added up.
\<close>

definition candidate_ok :: "js_runtime \<Rightarrow> discovery_input \<Rightarrow> candidate \<Rightarrow> bool" where
  "candidate_ok js input c \<longleftrightarrow>
     cd_snapshot c \<in> set (approved_resources js input) \<and> candidate_ref c = resource_key (cd_snapshot c) \<and>
     cd_price c = parsePrice js (sn_price (cd_snapshot c)) \<and>
     av_state (cd_availability c) = ''available'' \<and> av_providerStatus (cd_availability c) = 2 \<and>
     distinct (map ev_path (cd_evidence c)) \<and> cd_pathHits c = path_order (map ev_path (cd_evidence c)) \<and>
     cd_hitCount c = length (cd_evidence c) \<and> cd_weight c = hits_weight (cd_pathHits c)"

definition no_fallback :: "candidate \<Rightarrow> bool" where
  "no_fallback c \<longleftrightarrow> FallbackPath \<notin> set (map ev_path (cd_evidence c))"

lemma candidate_of_ok:
  assumes "c \<in> set (candidate_of js input (discovery_tier input) r items)"
    and "r \<in> set (approved_resources js input)" and "FallbackPath \<notin> ev_path ` set items"
  shows "candidate_ok js input c \<and> no_fallback c \<and> cd_snapshot c = r"
  using assms by_path_paths [of items]
  by (auto simp: candidate_of_def Let_def candidate_ok_def no_fallback_def candidate_ref_def resource_key_def
      split: if_splits)

lemma with_family_simps [simp]:
  "candidate_ok js input (with_family js roots c) = candidate_ok js input c"
  "no_fallback (with_family js roots c) = no_fallback c"
  "cd_snapshot (with_family js roots c) = cd_snapshot c"
  "candidate_ref (with_family js roots c) = candidate_ref c"
  by (simp_all add: with_family_def candidate_ok_def no_fallback_def candidate_ref_def)

lemma with_fallback_simps [simp]:
  "cd_snapshot (with_fallback input c) = cd_snapshot c" "cd_kind (with_fallback input c) = cd_kind c"
  "cd_resourceId (with_fallback input c) = cd_resourceId c" "cd_price (with_fallback input c) = cd_price c"
  "cd_variantFamily (with_fallback input c) = cd_variantFamily c" "cd_name (with_fallback input c) = cd_name c"
  "cd_availability (with_fallback input c) = cd_availability c"
  "candidate_ref (with_fallback input c) = candidate_ref c"
  by (simp_all add: with_fallback_def Let_def candidate_ref_def)

lemma with_fallback_ok:
  assumes "candidate_ok js input c" and "no_fallback c"
  shows "candidate_ok js input (with_fallback input c)"
proof -
  have "ev_path (fallback_evidence input r) = FallbackPath" for r
    by (simp add: fallback_evidence_def Let_def pathEvidence_def)
  moreover have "\<And>ps p. path_order (path_order ps @ [p]) = path_order (ps @ [p])"
  proof -
    have "inj path_number"
      by (rule injI) (auto simp: path_number_def split: recall_path.splits)
    then show "path_order (path_order ps @ [p]) = path_order (ps @ [p])" for ps p
      unfolding path_order_def by (intro sort_key_inj_key_eq) (simp_all add: inj_on_subset [OF _ subset_UNIV] del: inj_on_insert)
  qed
  ultimately show ?thesis using assms
    by (simp add: candidate_ok_def no_fallback_def with_fallback_def Let_def candidate_ref_def resource_key_def)
qed

lemma recall_fallback_simps [simp]:
  "cd_snapshot (recall_fallback input refs c) = cd_snapshot c"
  "cd_kind (recall_fallback input refs c) = cd_kind c"
  "cd_variantFamily (recall_fallback input refs c) = cd_variantFamily c"
  "candidate_ref (recall_fallback input refs c) = candidate_ref c"
  "familyOf (recall_fallback input refs c) = familyOf c"
  by (simp_all add: recall_fallback_def familyOf_def split: option.split)

lemma recall_fallback_ok:
  "candidate_ok js input c \<Longrightarrow> no_fallback c \<Longrightarrow> candidate_ok js input (recall_fallback input refs c)"
  by (simp add: recall_fallback_def with_fallback_ok)

section \<open>Facts about the pipeline\<close>

lemma each_option_all2: "each_option f xs = Some ys \<Longrightarrow> list_all2 (\<lambda>x y. f x = Some y) xs ys"
proof (induction xs arbitrary: ys)
  case (Cons x xs)
  then show ?case by (auto simp: bind_eq_Some_conv)
qed simp

lemma each_option_member: "each_option f xs = Some ys \<Longrightarrow> y \<in> set ys \<Longrightarrow> \<exists>x\<in>set xs. f x = Some y"
proof (induction xs arbitrary: ys)
  case (Cons x xs)
  then show ?case by (auto simp: bind_eq_Some_conv)
qed simp

lemma last_per_key_keys: "map key (last_per_key key xs) = js_unique (map key xs)"
proof -
  have "key (last (filter (\<lambda>x. key x = k) xs)) = k" if "k \<in> key ` set xs" for k
  proof -
    from that have "filter (\<lambda>x. key x = k) xs \<noteq> []" by (auto simp: filter_empty_conv)
    from last_in_set [OF this] show ?thesis by simp
  qed
  then show ?thesis unfolding last_per_key_def map_map by (intro map_idI) auto
qed

lemma approved_keys_distinct: "distinct (map resource_key (approved_resources js input))"
  unfolding approved_resources_def by (rule distinct_map_filter) (simp add: last_per_key_keys)

lemma passive_hits_path:
  assumes "passive_hits js pool sources r = Some hits" and "h \<in> set hits"
  shows "ev_path (ph_evidence h) = PassivePath"
proof -
  from assms obtain key hs where hs: "each_option (passive_hit_of js pool r key) sources = Some hs"
    "hits = concat (map option_list hs)" by (auto simp: passive_hits_def bind_eq_Some_conv)
  with assms(2) have "Some h \<in> set hs" by (auto simp: option_list_def split: option.splits)
  then obtain s where "passive_hit_of js pool r key s = Some (Some h)"
    using each_option_member [OF hs(1)] by blast
  then show ?thesis by (auto simp: passive_hit_of_def Let_def pathEvidence_def split: if_splits)
qed

lemma active_evidence_path: "e \<in> set (active_evidence js pool m r source) \<Longrightarrow> ev_path e = ActivePath"
  by (simp add: active_evidence_def pathEvidence_def Let_def split: if_split_asm)

lemma preference_evidence_path: "e \<in> set (preference_evidence js entries r) \<Longrightarrow> ev_path e = PreferencePath"
  by (auto simp: preference_evidence_def pathEvidence_def split: option.split_asm)

lemma recall_resource_ok:
  assumes "recall_resource js input pool r = Some (cs, hits)" and "r \<in> set (approved_resources js input)"
  shows "(\<forall>c\<in>set cs. candidate_ok js input c \<and> no_fallback c \<and> cd_snapshot c = r) \<and> length cs \<le> 1"
proof -
  obtain items where items: "cs = candidate_of js input (discovery_tier input) r items"
    and paths: "FallbackPath \<notin> ev_path ` set items"
  proof
    show "cs = candidate_of js input (discovery_tier input) r
        (map ph_evidence hits @
         concat (map (active_evidence js pool (industryCategoryMatch r (discovery_tier input)) r) (di_activeSources input)) @
         preference_evidence js (di_preferenceChannels input) r)"
      using assms(1) by (auto simp: recall_resource_def)
    have "passive_hits js pool (di_questionSources input) r = Some hits"
      using assms(1) by (auto simp: recall_resource_def)
    note paths = passive_hits_path [OF this] active_evidence_path preference_evidence_path
    show "FallbackPath \<notin> ev_path ` set (map ph_evidence hits @
         concat (map (active_evidence js pool (industryCategoryMatch r (discovery_tier input)) r) (di_activeSources input)) @
         preference_evidence js (di_preferenceChannels input) r)"
      by (auto dest: paths)
  qed
  from candidate_of_ok [OF _ assms(2) paths] have "\<forall>c\<in>set cs. candidate_ok js input c \<and> no_fallback c \<and> cd_snapshot c = r"
    unfolding items by blast
  moreover have "length cs \<le> 1" by (simp add: items candidate_of_def Let_def)
  ultimately show ?thesis by simp
qed

lemma recalled_refs:
  assumes "list_all2 (\<lambda>r y. recall_resource js input pool r = Some y) rs ys"
    and "set rs \<subseteq> set (approved_resources js input)"
  shows "(\<forall>c\<in>set (concat (map fst ys)). candidate_ok js input c \<and> no_fallback c) \<and>
         subseq (map candidate_ref (concat (map fst ys))) (map resource_key rs)"
  using assms
proof (induction rs ys rule: list_all2_induct)
  case (Cons r rs y ys)
  obtain cs hits where y: "y = (cs, hits)" by (cases y)
  from recall_resource_ok [of js input pool r cs hits] Cons.hyps(1) Cons.prems y
  have cs: "\<forall>c\<in>set cs. candidate_ok js input c \<and> no_fallback c \<and> cd_snapshot c = r" "length cs \<le> 1" by auto
  then have "subseq (map candidate_ref cs) [resource_key r]"
    by (cases cs) (auto simp: candidate_ok_def)
  with Cons.IH Cons.prems have "subseq (map candidate_ref cs @ map candidate_ref (concat (map fst ys)))
      ([resource_key r] @ map resource_key rs)" by (intro list_emb_append_mono) auto
  with Cons cs y show ?case by auto
qed simp

lemma subseq_members: "subseq xs ys \<Longrightarrow> set xs \<subseteq> set ys"
  by (induction rule: list_emb.induct) auto

lemma subseq_keeps_distinct: "subseq xs ys \<Longrightarrow> distinct ys \<Longrightarrow> distinct xs"
  by (induction rule: list_emb.induct) (auto dest: subseq_members)

lemma subseq_count: "subseq xs ys \<Longrightarrow> count_list xs x \<le> count_list ys x"
  by (induction rule: list_emb.induct) auto

lemma distinct_map_sort: "distinct (map g (sort_key f xs)) \<longleftrightarrow> distinct (map g xs)"
  by (simp add: distinct_map)

lemma aligned_candidates_ok:
  assumes "aligned_candidates js input = Some (cs, stats)"
  shows "(\<forall>c\<in>set cs. candidate_ok js input c \<and> no_fallback c) \<and> distinct (map candidate_ref cs)"
proof -
  let ?pool = "map link_of (last_per_key resource_key (di_resources input))"
  from assms obtain recalled ranked where
    recalled: "each_option (recall_resource js input ?pool) (approved_resources js input) = Some recalled"
    and ranked: "ranked = global_rank js input stats (concat (map fst recalled))"
    and families: "assignTrunkFamilies js ranked = Some cs"
    by (auto simp: aligned_candidates_def Let_def bind_eq_Some_conv)
  from recalled_refs [OF each_option_all2 [OF recalled] subset_refl] have
    raw: "\<forall>c\<in>set (concat (map fst recalled)). candidate_ok js input c \<and> no_fallback c"
    "subseq (map candidate_ref (concat (map fst recalled))) (map resource_key (approved_resources js input))" by auto
  from families obtain roots where cs: "cs = map (with_family js roots) ranked"
    by (auto simp: assignTrunkFamilies_def Let_def)
  have "set ranked = set (concat (map fst recalled))" by (simp add: ranked global_rank_def)
  with raw(1) have "\<forall>c\<in>set cs. candidate_ok js input c \<and> no_fallback c" by (simp add: cs)
  moreover have "distinct (map candidate_ref (concat (map fst recalled)))"
    by (rule subseq_keeps_distinct [OF raw(2) approved_keys_distinct])
  then have "distinct (map candidate_ref ranked)"
    by (simp add: ranked global_rank_def distinct_map_sort)
  then have "distinct (map candidate_ref cs)" by (simp add: cs comp_def)
  ultimately show ?thesis by simp
qed

section \<open>Facts about the recommendation\<close>

lemma foldl_better_member: "foldl (better js) c cs \<in> set (c # cs)"
proof (induction cs arbitrary: c)
  case (Cons d cs)
  have "better js c d \<in> {c, d}" by (simp add: better_def)
  with Cons [of "better js c d"] show ?case by auto
qed simp

lemma best_of_cases:
  assumes "cs \<noteq> []"
  shows "\<exists>c\<in>set cs. best_of js cs = [c]"
proof -
  from assms obtain d ds where cs: "cs = d # ds" by (cases cs) auto
  with foldl_better_member [of js d ds] show ?thesis by auto
qed

lemma pack_best_members: "set (pack_best js q cs) \<subseteq> set cs"
proof -
  have "set (best_of js xs) \<subseteq> set xs" for xs
  proof (cases "xs = []")
    case False
    from best_of_cases [OF this, of js] show ?thesis by auto
  qed simp
  then show ?thesis by (fastforce simp: pack_best_def)
qed

lemma pack_best_keys: "map (pack_key q) (pack_best js q cs) = js_unique (map (pack_key q) cs)"
proof -
  have "map (pack_key q) (best_of js (filter (\<lambda>c. pack_key q c = k) cs)) = [k]" if "k \<in> pack_key q ` set cs" for k
  proof -
    from that have "filter (\<lambda>c. pack_key q c = k) cs \<noteq> []" by (auto simp: filter_empty_conv)
    from best_of_cases [OF this, of js] show ?thesis by auto
  qed
  then have "map (\<lambda>k. map (pack_key q) (best_of js (filter (\<lambda>c. pack_key q c = k) cs))) (js_unique (map (pack_key q) cs)) =
      map (\<lambda>k. [k]) (js_unique (map (pack_key q) cs))" by (intro map_cong refl) simp
  moreover have "concat (map (\<lambda>k. [k]) ks) = ks" for ks :: "utext list" by (induction ks) auto
  ultimately show ?thesis unfolding pack_best_def map_concat map_map comp_def by metis
qed

lemma family_walk_subseq: "subseq (family_walk used cs) cs"
  by (induction cs arbitrary: used) auto

lemma family_walk_count:
  "count_list (map familyOf (family_walk used cs)) f + count_list used f \<le> max FAMILY_QUOTA (count_list used f)"
proof (induction cs arbitrary: used)
  case (Cons c cs)
  show ?case
  proof (cases "FAMILY_QUOTA \<le> count_list used (familyOf c)")
    case True
    with Cons [of used] show ?thesis by simp
  next
    case False
    with Cons [of "familyOf c # used"] show ?thesis by (cases "f = familyOf c") (auto simp: max_def split: if_splits)
  qed
qed simp

lemma quota_walk_subseq: "subseq (quota_walk m w cs) cs"
  by (induction m w cs rule: quota_walk.induct) (auto split: publish_order_kind.split)

lemma quota_walk_counts:
  "kind_count Media (quota_walk m w cs) = min m (kind_count Media cs) \<and>
   kind_count WeMedia (quota_walk m w cs) = min w (kind_count WeMedia cs)"
proof (induction m w cs rule: quota_walk.induct)
  case (2 m w c cs)
  then show ?case by (cases "cd_kind c") (auto simp: kind_count_def)
qed (simp add: kind_count_def)

lemma kind_counts: "kind_count Media cs + kind_count WeMedia cs = length cs"
proof (induction cs)
  case (Cons c cs)
  then show ?case by (cases "cd_kind c") (simp_all add: kind_count_def)
qed (simp add: kind_count_def)

text \<open>The two quotas together leave no more than the maximum, so the final cut never cuts.\<close>

lemma quota_walk_fills:
  fixes admitted
  defines "rec \<equiv> quota_walk (fst (quotas admitted)) (snd (quotas admitted)) admitted"
  shows "length rec = min DISTRIBUTION_MAX_CANDIDATES (length admitted) \<and>
         (kind_count Media rec \<le> MEDIA_QUOTA \<or> kind_count WeMedia rec < WE_MEDIA_QUOTA) \<and>
         (kind_count WeMedia rec \<le> WE_MEDIA_QUOTA \<or> kind_count Media rec < MEDIA_QUOTA)"
proof -
  define m w where "m = kind_count Media admitted" and "w = kind_count WeMedia admitted"
  have len: "length admitted = m + w" using kind_counts [of admitted] by (simp add: m_def w_def)
  have walk: "kind_count Media rec = min (fst (quotas admitted)) m" "kind_count WeMedia rec = min (snd (quotas admitted)) w"
    unfolding rec_def m_def w_def using quota_walk_counts by blast+
  have lenr: "length rec = kind_count Media rec + kind_count WeMedia rec" by (simp add: kind_counts)
  have quotas: "quotas admitted =
      (if m < 20 then (20, 10 + (20 - m)) else if w < 10 then (20 + (10 - w), 10) else (20, 10))"
    unfolding quotas_def Let_def len MEDIA_QUOTA_def WE_MEDIA_QUOTA_def m_def [symmetric] by simp
  consider "m < 20" | "20 \<le> m" "w < 10" | "20 \<le> m" "10 \<le> w" by linarith
  then show ?thesis
    unfolding lenr walk len quotas DISTRIBUTION_MAX_CANDIDATES_def MEDIA_QUOTA_def WE_MEDIA_QUOTA_def
    by cases auto
qed

definition admitted_candidates :: "js_runtime \<Rightarrow> discovery_input \<Rightarrow> stats \<Rightarrow> candidate list \<Rightarrow> candidate list" where
  "admitted_candidates js input stats admissible =
     family_walk [] (global_rank js input stats (filter (\<lambda>c. cd_pathHits c \<noteq> []) admissible))"

lemma recommend_walk:
  "recommend js input stats cs =
   quota_walk (fst (quotas (admitted_candidates js input stats cs))) (snd (quotas (admitted_candidates js input stats cs)))
     (admitted_candidates js input stats cs)"
  using quota_walk_fills [of "admitted_candidates js input stats cs"]
  by (simp add: recommend_def admitted_candidates_def Let_def case_prod_beta)

lemma recommend_facts:
  fixes js input stats cs
  defines "rec \<equiv> recommend js input stats cs"
  shows "set rec \<subseteq> {c \<in> set cs. cd_pathHits c \<noteq> []}"
    and "distinct (map g cs) \<Longrightarrow> distinct (map g rec)"
    and "count_list (map familyOf rec) f \<le> FAMILY_QUOTA"
    and "length rec \<le> DISTRIBUTION_MAX_CANDIDATES"
    and "kind_count Media rec \<le> MEDIA_QUOTA \<or> kind_count WeMedia rec < WE_MEDIA_QUOTA"
    and "kind_count WeMedia rec \<le> WE_MEDIA_QUOTA \<or> kind_count Media rec < MEDIA_QUOTA"
proof -
  let ?hit = "global_rank js input stats (filter (\<lambda>c. cd_pathHits c \<noteq> []) cs)"
  let ?adm = "admitted_candidates js input stats cs"
  have sub: "subseq rec ?adm" unfolding rec_def recommend_walk by (rule quota_walk_subseq)
  have adm: "subseq ?adm ?hit" unfolding admitted_candidates_def by (rule family_walk_subseq)
  have both: "subseq rec ?hit" by (rule subseq_order.trans [OF sub adm])
  show "set rec \<subseteq> {c \<in> set cs. cd_pathHits c \<noteq> []}"
    using subseq_members [OF both] by (auto simp: global_rank_def)
  show "distinct (map g cs) \<Longrightarrow> distinct (map g rec)"
    by (rule subseq_keeps_distinct [OF subseq_map [OF both]])
      (simp add: global_rank_def distinct_map_sort distinct_map_filter)
  show "count_list (map familyOf rec) f \<le> FAMILY_QUOTA"
    using subseq_count [OF subseq_map [OF sub], of familyOf f] family_walk_count [of "[]" ?hit f]
    by (simp add: admitted_candidates_def)
  show "length rec \<le> DISTRIBUTION_MAX_CANDIDATES"
    "kind_count Media rec \<le> MEDIA_QUOTA \<or> kind_count WeMedia rec < WE_MEDIA_QUOTA"
    "kind_count WeMedia rec \<le> WE_MEDIA_QUOTA \<or> kind_count Media rec < MEDIA_QUOTA"
    using quota_walk_fills [of ?adm] unfolding rec_def recommend_walk by auto
qed

section \<open>Properties\<close>

lemma discovery_candidates:
  assumes "buildDistributionCandidates js rnd input = Some d"
  shows "\<exists>cs stats refs. (\<forall>c\<in>set cs. candidate_ok js input c \<and> no_fallback c) \<and> distinct (map candidate_ref cs) \<and>
     dc_candidates d = recommend js input stats
       (map (recall_fallback input refs) (global_rank js input stats (pack_best js (pool_qualifiers js input) cs)))"
proof -
  from assms obtain cs stats where aligned: "aligned_candidates js input = Some (cs, stats)"
    and d: "dc_candidates d = snd (finish_candidates js rnd input stats cs)"
    by (auto simp: buildDistributionCandidates_def Let_def case_prod_beta)
  from aligned_candidates_ok [OF aligned] d show ?thesis
    by (intro exI [of _ cs] exI [of _ stats]) (auto simp: finish_candidates_def Let_def)
qed

lemma discovery_candidate_ok:
  assumes "buildDistributionCandidates js rnd input = Some d" and "c \<in> set (dc_candidates d)"
  shows "candidate_ok js input c \<and> cd_evidence c \<noteq> []"
proof -
  from discovery_candidates [OF assms(1)] obtain cs stats refs where
    ok: "\<forall>c\<in>set cs. candidate_ok js input c \<and> no_fallback c"
    and d: "dc_candidates d = recommend js input stats
       (map (recall_fallback input refs) (global_rank js input stats (pack_best js (pool_qualifiers js input) cs)))"
    by blast
  from recommend_facts(1) assms(2) d obtain c0 where
    c0: "c0 \<in> set (pack_best js (pool_qualifiers js input) cs)" "c = recall_fallback input refs c0" "cd_pathHits c \<noteq> []"
    by (fastforce simp: global_rank_def)
  with ok pack_best_members have "candidate_ok js input c" by (metis recall_fallback_ok subsetD)
  with c0(3) show ?thesis by (simp add: candidate_ok_def)
qed

lemma candidate_ok_points:
  assumes "candidate_ok js input c"
  shows "\<exists>price. cd_price c = Some price \<and> cnyToPoints price \<le> di_perArticleMaxPoints input \<and>
           candidate_points c = cnyToPoints price"
  using assms
  by (auto simp: candidate_ok_def approved_resources_def approved_resource_def candidate_points_def split: option.splits)

text \<open>
  C12: the recommended candidates. There are at most thirty, no resource appears twice, at most two
  of one family and one of each pack; one kind exceeds its quota only by seats that the other cannot
  fill. Each is an approved resource with a known price within the limit per article, has evidence,
  exactly one piece for every path that it lists, and its weight is the sum of the weights of those
  distinct paths, a number between zero and one.
\<close>

theorem recommended_candidates_spec:
  assumes "buildDistributionCandidates js rnd input = Some d"
  shows "length (dc_candidates d) \<le> DISTRIBUTION_MAX_CANDIDATES \<and>
    distinct (map candidate_ref (dc_candidates d)) \<and>
    distinct (map (pack_key (pool_qualifiers js input)) (dc_candidates d)) \<and>
    count_list (map familyOf (dc_candidates d)) f \<le> FAMILY_QUOTA \<and>
    (kind_count Media (dc_candidates d) \<le> MEDIA_QUOTA \<or> kind_count WeMedia (dc_candidates d) < WE_MEDIA_QUOTA) \<and>
    (kind_count WeMedia (dc_candidates d) \<le> WE_MEDIA_QUOTA \<or> kind_count Media (dc_candidates d) < MEDIA_QUOTA) \<and>
    (\<forall>c\<in>set (dc_candidates d). candidate_ok js input c \<and> cd_evidence c \<noteq> [] \<and> cd_price c \<noteq> None \<and>
       candidate_points c \<le> di_perArticleMaxPoints input \<and> 0 \<le> cd_weight c \<and> cd_weight c \<le> 1)"
proof -
  from discovery_candidates [OF assms] obtain cs stats refs where
    refs: "distinct (map candidate_ref cs)"
    and d: "dc_candidates d = recommend js input stats
       (map (recall_fallback input refs) (global_rank js input stats (pack_best js (pool_qualifiers js input) cs)))"
    by blast
  let ?q = "pool_qualifiers js input"
  have keys: "pack_key ?q (recall_fallback input refs c) = pack_key ?q c" for c by (simp add: pack_key_def)
  have packs: "distinct (map (pack_key ?q) (pack_best js ?q cs))" by (simp add: pack_best_keys)
  then have "distinct (pack_best js ?q cs)" by (simp add: distinct_map)
  then have best: "distinct (map candidate_ref (pack_best js ?q cs))"
    using refs pack_best_members [of js ?q cs] by (auto simp: distinct_map intro: inj_on_subset)
  have "distinct (map candidate_ref (dc_candidates d))"
    unfolding d by (rule recommend_facts(2)) (simp add: comp_def global_rank_def distinct_map_sort best)
  moreover have "distinct (map (pack_key ?q) (dc_candidates d))"
    unfolding d by (rule recommend_facts(2)) (simp add: comp_def keys global_rank_def distinct_map_sort packs)
  moreover have "candidate_ok js input c \<and> cd_evidence c \<noteq> [] \<and> cd_price c \<noteq> None \<and>
       candidate_points c \<le> di_perArticleMaxPoints input \<and> 0 \<le> cd_weight c \<and> cd_weight c \<le> 1"
    if "c \<in> set (dc_candidates d)" for c
  proof -
    from discovery_candidate_ok [OF assms that] have ok: "candidate_ok js input c" "cd_evidence c \<noteq> []" by auto
    then have "distinct (cd_pathHits c)" "cd_weight c = hits_weight (cd_pathHits c)" by (simp_all add: candidate_ok_def)
    with hits_weight_bounds have "0 \<le> cd_weight c \<and> cd_weight c \<le> 1" by simp
    with ok candidate_ok_points [OF ok(1)] show ?thesis by auto
  qed
  ultimately show ?thesis using recommend_facts(3-6) unfolding d by blast
qed

lemma by_resource_update: "by_resource (plan\<lparr>pl_blockingIssues := x\<rparr>) = by_resource plan"
  by (intro ext) (simp add: by_resource_def)

lemma selected_issues_update: "selected_issues (plan\<lparr>pl_blockingIssues := x\<rparr>) = selected_issues plan"
  by (intro ext) (simp add: selected_issues_def by_resource_update cong: option.case_cong)

lemma selected_points_update: "selected_points (plan\<lparr>pl_blockingIssues := x\<rparr>) = selected_points plan"
  by (intro ext) (simp add: selected_points_def by_resource_update)

lemma finished_plan_issues:
  "distributionPlanBlockingIssues js (plan\<lparr>pl_blockingIssues := x\<rparr>) = distributionPlanBlockingIssues js plan"
  unfolding distributionPlanBlockingIssues_def spend_cap_def selected_issues_update selected_points_update
  by (cases plan) (simp only: distribution_plan.simps)

lemma finished_plan_confirmable:
  "assertDistributionPlanConfirmable js (finished_plan js base cs as) = Inr () \<longleftrightarrow>
   distributionPlanBlockingIssues js (finished_plan js base cs as) = []"
  unfolding assertDistributionPlanConfirmable_def finished_plan_def Let_def finished_plan_issues by simp

lemma finished_plan_simps [simp]:
  "pl_providerState (finished_plan js base cs as) = ProviderAvailable"
  "pl_articles (finished_plan js base cs as) = di_articles (bs_input base)"
  "pl_candidates (finished_plan js base cs as) = cs" "pl_assignments (finished_plan js base cs as) = as"
  "pl_selectedResourceIds (finished_plan js base cs as) = concat (map (\<lambda>a. option_list (as_resourceId a)) as)"
  "pl_perArticleMaxPoints (finished_plan js base cs as) = Some (di_perArticleMaxPoints (bs_input base))"
  "spend_cap (finished_plan js base cs as) = min (bs_totalMaxPoints base) (cnyToPoints (bs_budgetCny base))"
  by (simp_all add: finished_plan_def unchecked_plan_def spend_cap_def)

text \<open>The resources selected by an assignment are those of the picked candidates.\<close>

lemma selected_are_chosen:
  "map as_resourceId as = map (map_option cd_resourceId) picks \<Longrightarrow>
   concat (map (\<lambda>a. option_list (as_resourceId a)) as) = map cd_resourceId (chosen picks)"
proof (induction picks arbitrary: as)
  case (Cons p picks)
  then obtain a as' where as: "as = a # as'" by (cases as) auto
  with Cons show ?case by (cases p) (auto simp: option_list_def)
qed simp

lemma all_picked:
  "map as_resourceId as = map (map_option cd_resourceId) picks \<Longrightarrow>
   (\<forall>a\<in>set as. as_resourceId a \<noteq> None) \<Longrightarrow> map as_resourceId as = map (\<lambda>c. Some (cd_resourceId c)) (chosen picks)"
proof (induction picks arbitrary: as)
  case (Cons p picks)
  then obtain a as' where as: "as = a # as'" by (cases as) auto
  with Cons show ?case by (cases p) auto
qed simp

definition iso_stable :: "js_runtime \<Rightarrow> bool" where
  "iso_stable js \<longleftrightarrow> (\<forall>t stamp. jr_iso js t = Some stamp \<longrightarrow> jr_iso js stamp = Some stamp)"

lemma finished_selected_ok:
  assumes "buildDistributionCandidates js rnd input = Some d" and "distinct (map cd_resourceId (dc_candidates d))"
    and "di_perArticleMaxPoints (bs_input base) = di_perArticleMaxPoints input" and "c \<in> set (dc_candidates d)"
  shows "selected_issues (finished_plan js base (dc_candidates d) as) (cd_resourceId c) = [] \<and>
         selected_points (finished_plan js base (dc_candidates d) as) (cd_resourceId c) = candidate_points c"
proof -
  have found: "by_resource (finished_plan js base (dc_candidates d) as) (cd_resourceId c) = Some c"
    by (rule by_resource_distinct) (use assms in simp_all)
  from discovery_candidate_ok [OF assms(1,4)] have ok: "candidate_ok js input c" "cd_evidence c \<noteq> []" by auto
  from candidate_ok_points [OF ok(1)] obtain price where
    "cd_price c = Some price" "cnyToPoints price \<le> di_perArticleMaxPoints input" by blast
  moreover from ok(1) have "av_state (cd_availability c) = ''available''" "av_providerStatus (cd_availability c) = 2"
    by (simp_all add: candidate_ok_def)
  ultimately have "selected_issues (finished_plan js base (dc_candidates d) as) (cd_resourceId c) = []"
    unfolding selected_issues_none using found ok(2) assms(3) by auto
  with found show ?thesis by (simp add: selected_points_def)
qed

lemma assignment_facts:
  assumes "assignDistributionChannels js (plan_assign_input base cs) = Inr as" and "iso_stable js"
  obtains picks where "picks_ok cs (ai_totalMaxPoints (plan_assign_input base cs)) [] 0 picks"
    and "map as_articleId as = map ar_id (di_articles (bs_input base))"
    and "map as_resourceId as = map (map_option cd_resourceId) picks"
    and "\<forall>a\<in>set as. jr_iso js (as_scheduledAt a) \<noteq> None"
proof -
  let ?assign = "plan_assign_input base cs"
  define picks where "picks = picks_of js ?assign"
  have ok: "picks_ok cs (ai_totalMaxPoints ?assign) [] 0 picks"
    using pick_all_ok [of ?assign "\<lparr>st_used = [], st_mediaUsed = 0, st_allocated = 0\<rparr>"]
    by (simp add: picks_def picks_of_def) (simp add: plan_assign_input_def)
  have len: "length picks = length (di_articles (bs_input base))"
    by (simp add: picks_def picks_of_def plan_assign_input_def)
  from assms(1) obtain stamp where stamp: "validIsoTimestamp js (bs_publishStartAt base) = Inr stamp"
    and as_def: "as = map2 (assignment_of stamp) (di_articles (bs_input base)) picks"
    by (cases "validIsoTimestamp js (bs_publishStartAt base)")
      (auto simp: assignDistributionChannels_def picks_def plan_assign_input_def)
  have "jr_iso js stamp = Some stamp"
    using stamp assms(2) by (auto simp: validIsoTimestamp_def Let_def iso_stable_def split: if_splits option.splits)
  then have times: "\<forall>a\<in>set as. jr_iso js (as_scheduledAt a) \<noteq> None"
    by (auto simp: as_def assignment_of_def)
  have articles: "map as_articleId as = map ar_id (di_articles (bs_input base))"
    using len by (auto simp: as_def assignment_of_def list_eq_iff_nth_eq)
  have "map as_resourceId as = map (map_option cd_resourceId) picks"
    using len by (auto simp: as_def assignment_of_def list_eq_iff_nth_eq)
  with ok articles times show thesis by (intro that)
qed

text \<open>
  C13: the plan that the discovery leaves behind. Whenever the sidecar finishes a discovery with the
  pool available, the stored plan can be confirmed as it is exactly when there is a candidate and
  every article has got a channel: the assignment never selects a channel that the gate rejects for
  its price, its evidence, its availability, a second use or the budget. This needs different
  numbers of the articles and of the recommended resources, and a runtime that reads its own time
  stamps.
\<close>

theorem discovered_plan_confirmable:
  assumes "discover_plan js rnd base media weMedia = Some (Inr plan)"
    and "distinct (map ar_id (di_articles (bs_input base)))"
    and "distinct (map cd_resourceId (pl_candidates plan))"
    and "iso_stable js" and "0 \<le> bs_totalMaxPoints base"
  shows "assertDistributionPlanConfirmable js plan = Inr () \<longleftrightarrow>
    pl_candidates plan \<noteq> [] \<and> (\<forall>a\<in>set (pl_assignments plan). as_resourceId a \<noteq> None)"
proof -
  let ?input = "(bs_input base)\<lparr>di_resources := normalized_pool js media weMedia\<rparr>"
  from assms(1) obtain d where d: "buildDistributionCandidates js rnd ?input = Some d"
    and and_then: "and_then (assignDistributionChannels js (plan_assign_input base (dc_candidates d)))
       (\<lambda>assignments. Inr (finished_plan js base (dc_candidates d) assignments)) = Inr plan"
    by (auto simp: discover_plan_def)
  let ?assign = "plan_assign_input base (dc_candidates d)"
  from and_then obtain as where as: "assignDistributionChannels js ?assign = Inr as"
    and plan: "plan = finished_plan js base (dc_candidates d) as"
    by (cases "assignDistributionChannels js ?assign") auto
  obtain picks where ok: "picks_ok (dc_candidates d) (ai_totalMaxPoints ?assign) [] 0 picks"
    and articles: "map as_articleId as = map ar_id (di_articles (bs_input base))"
    and resources: "map as_resourceId as = map (map_option cd_resourceId) picks"
    and times: "\<forall>a\<in>set as. jr_iso js (as_scheduledAt a) \<noteq> None"
    using assignment_facts [OF as assms(4)] .
  note picked = picks_ok_chosen [OF ok]
  note selected = selected_are_chosen [OF resources]
  have each: "selected_issues plan (cd_resourceId c) = [] \<and> selected_points plan (cd_resourceId c) = candidate_points c"
    if "c \<in> set (chosen picks)" for c
    unfolding plan by (rule finished_selected_ok [OF d]) (use that picked(1) assms(3) plan in auto)
  have "map (selected_points plan) (map cd_resourceId (chosen picks)) = map candidate_points (chosen picks)"
    using each by simp
  then have sum: "sum_list (map (selected_points plan) (map cd_resourceId (chosen picks))) = total_points (chosen picks)"
    unfolding total_points_def by (rule arg_cong)
  have cap: "total_points (chosen picks) \<le> min (bs_totalMaxPoints base) (cnyToPoints (bs_budgetCny base))"
    using picked(5) assms(5) by (cases "chosen picks = []") (auto simp: plan_assign_input_def)
  show ?thesis
  proof
    assume "assertDistributionPlanConfirmable js plan = Inr ()"
    then show "pl_candidates plan \<noteq> [] \<and> (\<forall>a\<in>set (pl_assignments plan). as_resourceId a \<noteq> None)"
      unfolding plan finished_plan_confirmable blocking_issues_none assignment_issues_none by auto
  next
    assume all: "pl_candidates plan \<noteq> [] \<and> (\<forall>a\<in>set (pl_assignments plan). as_resourceId a \<noteq> None)"
    then have some: "map as_resourceId as = map (\<lambda>c. Some (cd_resourceId c)) (chosen picks)"
      using all_picked [OF resources] by (simp add: plan)
    have distinct: "distinct (map as_resourceId as)"
      unfolding some using picked(3) by (simp add: distinct_map inj_on_def)
    have "\<exists>r\<in>set (map cd_resourceId (chosen picks)). as_resourceId a = Some r" if "a \<in> set as" for a
    proof -
      from that have "as_resourceId a \<in> set (map as_resourceId as)" by simp
      then show ?thesis unfolding some by auto
    qed
    moreover have "\<forall>a\<in>set as. as_articleId a \<in> set (map ar_id (di_articles (bs_input base)))"
      unfolding articles [symmetric] by auto
    ultimately have "assignment_issues js (map ar_id (di_articles (bs_input base))) (map cd_resourceId (chosen picks)) [] [] as = []"
      unfolding assignment_issues_none using times distinct assms(2) articles by simp
    then show "assertDistributionPlanConfirmable js plan = Inr ()"
      unfolding plan finished_plan_confirmable blocking_issues_none finished_plan_simps selected articles
      using all each sum cap picked(3) by (simp add: plan selected)
  qed
qed

definition demo_pool_input :: resource_input where
  "demo_pool_input =
     \<lparr>in_id = 5, in_name = Some [65, 66], in_status = Some 2, in_price = Some (PriceText (ascii ''10'')),
      in_published_rate = None, in_entrance_link = None, in_case_link = None, in_remark = None,
      in_channel_type = None, in_industry_category = None, in_area = None, in_can_weekend = None,
      in_publish_speed = None, in_published_avg = None, in_platform = None, in_geo_platforms = Some [Some [71]]\<rparr>"

definition demo_base :: plan_base where
  "demo_base =
     \<lparr>bs_input = \<lparr>di_industry = [], di_targetAudience = [], di_questionSources = [], di_activeSources = [],
                  di_preferenceChannels = [], di_perArticleMaxPoints = 500, di_articles = [demo_article [1]],
                  di_resources = []\<rparr>,
      bs_mappingMode = OneToOne, bs_ratio_media = 1, bs_ratio_weMedia = 1, bs_totalMaxPoints = 400,
      bs_budgetCny = 30, bs_publishStartAt = [50]\<rparr>"

definition demo_input :: discovery_input where
  "demo_input = (bs_input demo_base)\<lparr>di_resources := normalized_pool demo_js [demo_pool_input] []\<rparr>"

text \<open>A pool with one resource that only the sampling of the fallback path recalls.\<close>

lemma finish_single:
  assumes "tier_of js input c \<le> 2"
  shows "snd (finish_candidates js rnd input stats [c]) = [with_fallback input c]"
proof -
  have best: "pack_best js q [c] = [c]" for q by (simp add: pack_best_def js_unique_def)
  have rank: "global_rank js input stats [x] = [x]" for x by (simp add: global_rank_def)
  consider "tier_of js input c = 0" | "tier_of js input c = 1" | "tier_of js input c = 2" using assms by linarith
  then have picks: "fallback_picks js rnd input [c] = [c]"
    by cases (simp_all add: fallback_picks_def shuffled_def FALLBACK_VERTICAL_QUOTA_def FALLBACK_TOTAL_CAP_def)
  have hits: "cd_pathHits (with_fallback input c) \<noteq> []" by (simp add: with_fallback_def Let_def)
  have "recommend js input stats [with_fallback input c] = [with_fallback input c]"
    by (cases "cd_kind c") (simp_all add: recommend_def rank hits FAMILY_QUOTA_def quotas_def kind_count_def
        MEDIA_QUOTA_def WE_MEDIA_QUOTA_def DISTRIBUTION_MAX_CANDIDATES_def)
  then show ?thesis by (simp add: finish_candidates_def Let_def best rank picks recall_fallback_def)
qed

lemma demo_discovery:
  "\<exists>d c. buildDistributionCandidates demo_js (\<lambda>k. 0) demo_input = Some d \<and> dc_candidates d = [with_fallback demo_input c] \<and>
     candidate_ref c = (Media, 5) \<and> cd_price c = Some 10"
proof -
  have "map_option (\<lambda>(cs, stats). (tl cs, tier_of demo_js demo_input (hd cs), candidate_ref (hd cs), cd_price (hd cs), cs = []))
      (aligned_candidates demo_js demo_input) = Some ([], 2, (Media, 5), Some 10, False)" by code_simp
  then obtain cs stats where aligned: "aligned_candidates demo_js demo_input = Some (cs, stats)" "tl cs = []" "cs \<noteq> []"
    "tier_of demo_js demo_input (hd cs) = 2" "candidate_ref (hd cs) = (Media, 5)" "cd_price (hd cs) = Some 10"
    by auto
  then have cs: "cs = [hd cs]" by (cases cs) auto
  have "snd (finish_candidates demo_js (\<lambda>k. 0) demo_input stats cs) = [with_fallback demo_input (hd cs)]"
    by (subst cs, rule finish_single) (simp add: aligned)
  with aligned show ?thesis
    by (auto simp: buildDistributionCandidates_def Let_def case_prod_beta intro!: exI [of _ "hd cs"])
qed

theorem recommended_candidates_witness:
  "\<exists>d. buildDistributionCandidates demo_js (\<lambda>k. 0) demo_input = Some d \<and>
       map candidate_ref (dc_candidates d) = [(Media, 5)] \<and> cd_evidence (hd (dc_candidates d)) \<noteq> [] \<and>
       candidate_points (hd (dc_candidates d)) \<le> 500"
proof -
  from demo_discovery obtain d c where d: "buildDistributionCandidates demo_js (\<lambda>k. 0) demo_input = Some d"
    "dc_candidates d = [with_fallback demo_input c]" "candidate_ref c = (Media, 5)" by blast
  from recommended_candidates_spec [OF d(1)] d show ?thesis
    by (auto simp: demo_input_def demo_base_def)
qed

theorem discovered_plan_confirmable_witness:
  "\<exists>plan. discover_plan demo_js (\<lambda>k. 0) demo_base [demo_pool_input] [] = Some (Inr plan) \<and>
     assertDistributionPlanConfirmable demo_js plan = Inr () \<and> assigned_ids plan = [5]"
proof -
  from demo_discovery obtain d c where d: "buildDistributionCandidates demo_js (\<lambda>k. 0) demo_input = Some d"
    "dc_candidates d = [with_fallback demo_input c]" "candidate_ref c = (Media, 5)" "cd_price c = Some 10" by blast
  let ?c = "with_fallback demo_input c"
  let ?as = "[assignment_of [50] (demo_article [1]) (Some ?c)]"
  have points: "cnyToPoints 10 = 160" "cnyToPoints 30 = 480" by code_simp+
  have id5: "cd_resourceId ?c = 5" using d(3) by (simp add: candidate_ref_def)
  have "affordable 400 ?c" using points by (simp add: affordable_def d(4))
  then have picks: "picks_of demo_js (plan_assign_input demo_base [?c]) = [Some ?c]"
    by (simp add: picks_of_def pick_candidate_def candidateForArticle_def plan_assign_input_def demo_base_def points)
  have "assignDistributionChannels demo_js (plan_assign_input demo_base [?c]) = Inr ?as"
    by (simp add: assignDistributionChannels_def validIsoTimestamp_def demo_js_def picks [unfolded demo_js_def]
        js_trim_def) (simp add: plan_assign_input_def demo_base_def js_space_def)
  then have plan: "discover_plan demo_js (\<lambda>k. 0) demo_base [demo_pool_input] [] =
      Some (Inr (finished_plan demo_js demo_base [?c] ?as))"
    using d(1,2) by (simp add: discover_plan_def demo_input_def)
  have "distinct (map ar_id (di_articles (bs_input demo_base)))" "0 \<le> bs_totalMaxPoints demo_base"
    by (simp_all add: demo_base_def)
  moreover have "iso_stable demo_js" by (simp add: iso_stable_def demo_js_def)
  ultimately have "assertDistributionPlanConfirmable demo_js (finished_plan demo_js demo_base [?c] ?as) = Inr ()"
    using discovered_plan_confirmable [OF plan] by (simp add: assignment_of_def)
  with plan id5 show ?thesis by (auto simp: assigned_ids_def assignment_of_def)
qed

lemma each_option_None: "each_option f xs = None \<longleftrightarrow> (\<exists>x\<in>set xs. f x = None)"
  by (induction xs) (auto simp: bind_eq_None_conv)

lemma passive_hits_None:
  "passive_hits js pool sources r = None \<longleftrightarrow>
   accountKeyFromUrl js (sn_entranceLink r) = None \<or>
   (\<exists>s\<in>set sources. isMultiTenantPlatformUrl js (Some (qs_url s)) \<and> accountKeyFromUrl js (Some (qs_url s)) = None)"
proof -
  have "passive_hit_of js pool r key s = None \<longleftrightarrow>
      isMultiTenantPlatformUrl js (Some (qs_url s)) \<and> accountKeyFromUrl js (Some (qs_url s)) = None" for key s
    by (auto simp: passive_hit_of_def account_label_def split: option.splits)
  then show ?thesis by (auto simp: passive_hits_def bind_eq_None_conv each_option_None)
qed

lemma decode_branch:
  "(if s \<noteq> None then Some s
    else if Q then (case d of None \<Rightarrow> None
                    | Some p \<Rightarrow> (case f p of Some i \<Rightarrow> Some (g i)
                                | None \<Rightarrow> (case h p of Some i \<Rightarrow> Some (k i) | None \<Rightarrow> Some r)))
    else Some r) = None \<longleftrightarrow> s = None \<and> Q \<and> d = None"
  by (auto split: option.split)

lemma account_key_throws:
  "accountKeyFromUrl js (Some u) = None \<longleftrightarrow>
    u \<noteq> [] \<and> (\<exists>parsed. jr_url js u = Some parsed \<and> jr_decode js (up_pathname parsed) = None \<and>
       (text_suffix (ascii ''sina.com.cn'') (bare_host js (up_hostname parsed)) \<or>
        text_suffix (ascii ''sina.cn'') (bare_host js (up_hostname parsed))) \<and>
       \<not> (host_within (bare_host js (up_hostname parsed)) (ascii ''sohu.com'') \<and>
          first_match sohu_mark (up_pathname parsed) \<noteq> None))"
proof (cases "u = [] \<or> jr_url js u = None")
  case True
  then show ?thesis by (auto simp: accountKeyFromUrl_def)
next
  case False
  then obtain parsed where "u \<noteq> []" "jr_url js u = Some parsed" by auto
  then show ?thesis
    by (simp only: accountKeyFromUrl_def Let_def option.case if_False decode_branch option.inject ex_simps simp_thms) auto
qed

text \<open>
  C39: when the discovery fails. With the pool loaded it throws exactly when some approved resource
  has an entrance link, or is met by a question source on a shared platform, in which
  \<open>accountKeyFromUrl\<close> throws; nothing else in the discovery throws or runs for ever. That function
  throws for every page of the sina hosts whose path is not a well formed escape sequence.
\<close>

theorem discovery_fails_exactly:
  "(buildDistributionCandidates js rnd input = None \<longleftrightarrow>
    (\<exists>r\<in>set (approved_resources js input).
       accountKeyFromUrl js (sn_entranceLink r) = None \<or>
       (\<exists>s\<in>set (di_questionSources input).
          isMultiTenantPlatformUrl js (Some (qs_url s)) \<and> accountKeyFromUrl js (Some (qs_url s)) = None))) \<and>
   (accountKeyFromUrl js (Some u) = None \<longleftrightarrow>
    u \<noteq> [] \<and> (\<exists>parsed. jr_url js u = Some parsed \<and> jr_decode js (up_pathname parsed) = None \<and>
       (text_suffix (ascii ''sina.com.cn'') (bare_host js (up_hostname parsed)) \<or>
        text_suffix (ascii ''sina.cn'') (bare_host js (up_hostname parsed))) \<and>
       \<not> (host_within (bare_host js (up_hostname parsed)) (ascii ''sohu.com'') \<and>
          first_match sohu_mark (up_pathname parsed) \<noteq> None)))"
proof
  have recall: "recall_resource js input pool r = None \<longleftrightarrow> passive_hits js pool (di_questionSources input) r = None"
    for pool r by (simp add: recall_resource_def)
  have never: "(assignTrunkFamilies js cs = None) = False" for cs
  proof -
    obtain rs where "cluster_roots (trunk_edges (trunk_cores js cs))
        (filter (\<lambda>core. core \<noteq> []) (map (candidate_core js) cs)) = Some rs" using uf.answers by blast
    then show ?thesis by (simp add: assignTrunkFamilies_def Let_def)
  qed
  have "aligned_candidates js input = None \<longleftrightarrow>
      (\<exists>r\<in>set (approved_resources js input).
         passive_hits js (map link_of (last_per_key resource_key (di_resources input))) (di_questionSources input) r = None)"
    by (auto simp: aligned_candidates_def Let_def bind_eq_None_conv each_option_None recall never)
  then show "buildDistributionCandidates js rnd input = None \<longleftrightarrow>
    (\<exists>r\<in>set (approved_resources js input).
       accountKeyFromUrl js (sn_entranceLink r) = None \<or>
       (\<exists>s\<in>set (di_questionSources input).
          isMultiTenantPlatformUrl js (Some (qs_url s)) \<and> accountKeyFromUrl js (Some (qs_url s)) = None))"
    by (simp add: buildDistributionCandidates_def passive_hits_None)
  show "accountKeyFromUrl js (Some u) = None \<longleftrightarrow>
    u \<noteq> [] \<and> (\<exists>parsed. jr_url js u = Some parsed \<and> jr_decode js (up_pathname parsed) = None \<and>
       (text_suffix (ascii ''sina.com.cn'') (bare_host js (up_hostname parsed)) \<or>
        text_suffix (ascii ''sina.cn'') (bare_host js (up_hostname parsed))) \<and>
       \<not> (host_within (bare_host js (up_hostname parsed)) (ascii ''sohu.com'') \<and>
          first_match sohu_mark (up_pathname parsed) \<noteq> None))"
    by (rule account_key_throws)
qed


end
