(* ===== verification/Probe.thy ===== *)
theory Probe
  imports Recall
begin

text \<open>
  The reading of AI answers, \<open>src/shared/geo/baseline.ts\<close>: the answer text and the citations of a provider
  response, the links inside an answer, the analysis of mentions and recommendations with its excerpt
  windows, the diagnosis of a question and the rates of a baseline. Texts are lists of UTF-16 units here,
  so that \<open>slice\<close>, \<open>indexOf\<close> and \<open>length\<close> count as in the code. The URL parser is the one of \<open>js_runtime\<close>.
\<close>

section \<open>The answer\<close>

definition jtext :: "json \<Rightarrow> string \<Rightarrow> utext option" where
  "jtext j k = (case jget j k of Some (JStr t) \<Rightarrow> if js_trim t = [] then None else Some t | _ \<Rightarrow> None)"

definition jarray :: "json \<Rightarrow> string \<Rightarrow> json list" where
  "jarray j k = (case jget j k of Some (JArr xs) \<Rightarrow> xs | _ \<Rightarrow> [])"

definition block_texts :: "json \<Rightarrow> utext list" where
  "block_texts block =
     (if jget block ''type'' = Some (JStr (ascii ''output_text''))
      then map js_trim (option_list (jtext block ''text'')) else [])"

definition part_texts :: "json \<Rightarrow> utext list" where
  "part_texts part =
     (case part of
        JStr t \<Rightarrow> if js_trim t = [] then [] else [t]
      | _ \<Rightarrow> concat (map (\<lambda>k. map js_trim (option_list (jtext part k))) [''text'', ''output_text'']))"

definition item_texts :: "json \<Rightarrow> utext list" where
  "item_texts item =
     concat (map block_texts (jarray item ''blocks'')) @ option_list (jtext item ''content'') @
     concat (map part_texts (jarray item ''content''))"

definition rawAnswerFromProvider :: "json \<Rightarrow> utext" where
  "rawAnswerFromProvider value =
     (case jtext value ''output_text'' of
        Some t \<Rightarrow> js_trim t
      | None \<Rightarrow> js_trim (join_texts [10] (concat (map item_texts (jarray value ''output'')))))"

section \<open>Citations\<close>

datatype provenance = StructuredProvider | AnswerLink

record probe_citation =
  cit_url :: utext
  cit_title :: "utext option"
  cit_siteName :: "utext option"
  cit_provenance :: provenance

definition probe_url :: "js_runtime \<Rightarrow> utext \<Rightarrow> utext option" where
  "probe_url js value =
     (case jr_url js (js_trim value) of
        None \<Rightarrow> None
      | Some url \<Rightarrow>
          if up_protocol url \<noteq> ascii ''http:'' \<and> up_protocol url \<noteq> ascii ''https:'' then None
          else Some (up_href url))"

text \<open>
  \<open>Object.entries\<close>: the keys that are array indices come first, in their numeric order, then the others
  in the order of their first occurrence; a repeated key has its last value.
\<close>

definition index_key :: "string \<Rightarrow> bool" where
  "index_key k \<longleftrightarrow>
     k \<noteq> [] \<and> list_all is_digit k \<and> (hd k = CHR ''0'' \<longrightarrow> k = ''0'') \<and> digits_value (ascii k) < 2 ^ 32 - 1"

definition object_entries :: "(string \<times> json) list \<Rightarrow> (string \<times> json) list" where
  "object_entries fs =
     (let keys = js_unique (map fst fs)
      in concat (map (\<lambda>k. map (Pair k) (option_list (map_of (rev fs) k)))
           (sort_key (\<lambda>k. digits_value (ascii k)) (filter index_key keys) @ filter (\<lambda>k. \<not> index_key k) keys)))"

definition ascii_lower :: "char \<Rightarrow> char" where
  "ascii_lower c = (let n = (of_char c :: nat) in if 65 \<le> n \<and> n \<le> 90 then char_of (n + 32) else c)"

definition link_key :: "string \<Rightarrow> bool" where
  "link_key k \<longleftrightarrow> map ascii_lower k \<in> {''url'', ''link'', ''href'', ''source_url''}"

definition first_text :: "json \<Rightarrow> string list \<Rightarrow> utext option" where
  "first_text node keys =
     (case concat (map (\<lambda>k. option_list (jtext node k)) keys) of [] \<Rightarrow> None | t # _ \<Rightarrow> Some (js_trim t))"

lemma object_entries_size:
  assumes "e \<in> set (object_entries fs)"
  shows "size (snd e) < Suc (size_list (size_prod f size) fs)"
proof -
  from assms obtain k where "map_of (rev fs) k = Some (snd e)"
    by (auto simp: object_entries_def Let_def option_list_def split: option.splits)
  then have "(k, snd e) \<in> set fs" by (metis map_of_SomeD set_rev)
  then have "size_prod f size (k, snd e) < Suc (size_list (size_prod f size) fs)"
    using size_list_estimation' [of "(k, snd e)" fs "size_prod f size (k, snd e)" "size_prod f size"] by simp
  then show ?thesis by simp
qed

text \<open>The links that the walk meets, with the names of their object, in the order of the visit.\<close>

function structured_links :: "js_runtime \<Rightarrow> json \<Rightarrow> probe_citation list" where
  "structured_links js (JArr xs) = concat (map (structured_links js) xs)"
| "structured_links js (JObj fs) =
     concat (map (\<lambda>(k, v).
       (case v of
          JStr t \<Rightarrow>
            if link_key k
            then map (\<lambda>u. \<lparr>cit_url = u, cit_title = first_text (JObj fs) [''title'', ''name''],
                          cit_siteName = first_text (JObj fs) [''site_name'', ''sitename''],
                          cit_provenance = StructuredProvider\<rparr>)
                   (option_list (probe_url js t))
            else []
        | _ \<Rightarrow> []) @ structured_links js v) (object_entries fs))"
| "structured_links js JNull = []"
| "structured_links js (JBool b) = []"
| "structured_links js (JNum n) = []"
| "structured_links js (JStr t) = []"
  by pat_completeness auto
termination
proof (relation "measure (\<lambda>(js, j). size j)", goal_cases)
  case (2 js xs x)
  then show ?case by (simp add: size_list_estimation' less_Suc_eq_le)
next
  case (3 js fs e k v)
  then have "e = (k, v)" and "size v < Suc (size_list (size_prod (\<lambda>x. 0) size) fs)"
    using object_entries_size [of e fs "\<lambda>x. 0"] by auto
  then show ?case by simp
qed simp

text \<open>Only the first citation of a URL is kept.\<close>

fun keep_new :: "utext list \<Rightarrow> probe_citation list \<Rightarrow> probe_citation list" where
  "keep_new seen [] = []"
| "keep_new seen (c # cs) =
     (if cit_url c \<in> set seen then keep_new seen cs else c # keep_new (cit_url c # seen) cs)"

definition structuredCitations :: "js_runtime \<Rightarrow> json \<Rightarrow> probe_citation list" where
  "structuredCitations js value = keep_new [] (structured_links js value)"

section \<open>Links inside the answer\<close>

definition url_scheme :: "utext \<Rightarrow> (utext \<times> utext) option" where
  "url_scheme t =
     (case strip_prefix (ascii ''https://'') t of
        Some r \<Rightarrow> Some (ascii ''https://'', r)
      | None \<Rightarrow> map_option (Pair (ascii ''http://'')) (strip_prefix (ascii ''http://'') t))"

text \<open>\<open>http://\<close> or \<open>https://\<close> and the longest run of characters of a class, which is not empty.\<close>

definition url_run :: "(nat \<Rightarrow> bool) \<Rightarrow> utext \<Rightarrow> (utext \<times> utext) option" where
  "url_run ok t =
     (case url_scheme t of
        None \<Rightarrow> None
      | Some (scheme, r) \<Rightarrow>
          let run = takeWhile ok r in if run = [] then None else Some (scheme @ run, dropWhile ok r))"

definition markdown_here :: "utext \<Rightarrow> ((utext \<times> utext option) \<times> utext) option" where
  "markdown_here t =
     (case strip_prefix [91] t of
        None \<Rightarrow> None
      | Some r \<Rightarrow>
          let label = takeWhile (\<lambda>c. c \<noteq> 93) r
          in if label = [] then None
             else case strip_prefix [93, 40] (dropWhile (\<lambda>c. c \<noteq> 93) r) of
                    None \<Rightarrow> None
                  | Some r1 \<Rightarrow>
                      (case url_run (\<lambda>c. \<not> js_space c \<and> c \<noteq> 41) r1 of
                         None \<Rightarrow> None
                       | Some (url, r2) \<Rightarrow>
                           map_option (Pair (url, Some (js_trim label))) (strip_prefix [41] r2)))"

definition bare_stop :: "nat \<Rightarrow> bool" where
  "bare_stop c \<longleftrightarrow> js_space c \<or> c \<in> set [60, 62, 34, 39, 41, 93, 65292, 12290,
    65307]"

definition bare_here :: "utext \<Rightarrow> ((utext \<times> utext option) \<times> utext) option" where
  "bare_here t = map_option (\<lambda>(url, r). ((url, None), r)) (url_run (\<lambda>c. \<not> bare_stop c) t)"

text \<open>All matches of a global pattern; a match consumes at least one character.\<close>

function all_matches :: "(utext \<Rightarrow> ('a \<times> utext) option) \<Rightarrow> utext \<Rightarrow> 'a list" where
  "all_matches pat [] = []"
| "all_matches pat (c # t) =
     (case pat (c # t) of
        Some (x, r) \<Rightarrow> if length r < length (c # t) then x # all_matches pat r else []
      | None \<Rightarrow> all_matches pat t)"
  by pat_completeness auto
termination by (relation "measure (\<lambda>(pat, t). length t)") auto

definition answer_links :: "js_runtime \<Rightarrow> utext \<Rightarrow> probe_citation list" where
  "answer_links js answer =
     concat (map (\<lambda>(url, title).
         map (\<lambda>u. \<lparr>cit_url = u, cit_title = title, cit_siteName = None, cit_provenance = AnswerLink\<rparr>)
           (option_list (probe_url js url)))
       (all_matches markdown_here answer @ all_matches bare_here answer))"

definition parseGeoProbeProviderResponse :: "js_runtime \<Rightarrow> json \<Rightarrow> string + (utext \<times> probe_citation list)" where
  "parseGeoProbeProviderResponse js raw =
     (let answer = rawAnswerFromProvider raw; structured = structuredCitations js raw
      in if answer = [] then Inl ''geo_baseline_empty_response''
         else Inr (answer, structured @ keep_new (map cit_url structured) (answer_links js answer)))"

section \<open>The analysis\<close>

definition normalizedBrandNames :: "utext list \<Rightarrow> utext list" where
  "normalizedBrandNames values =
     sort_key (\<lambda>n. - int (length n)) (js_unique (filter (\<lambda>n. n \<noteq> []) (map js_trim values)))"

definition relevantExcerpt :: "utext \<Rightarrow> nat \<Rightarrow> nat \<Rightarrow> utext" where
  "relevantExcerpt answer index len =
     (let start = index - 60; stop = min (length answer) (index + len + 80)
      in js_trim (collapse_spaces (drop start (take stop answer))))"

text \<open>The positions that repeated \<open>indexOf\<close> calls find, each behind the end of the one before.\<close>

function occurrences :: "utext \<Rightarrow> nat \<Rightarrow> utext \<Rightarrow> nat list" where
  "occurrences name i [] = []"
| "occurrences name i (c # t) =
     (if name \<noteq> [] \<and> text_prefix name (c # t)
      then i # occurrences name (i + length name) (drop (length name) (c # t))
      else occurrences name (Suc i) t)"
  by pat_completeness auto
termination by (relation "measure (\<lambda>(name, i, t). length t)") (auto simp: neq_Nil_conv)

definition POSITIVE_CUES :: "utext list" where
  "POSITIVE_CUES =
     [[25512, 33616], [39318, 36873], [20248, 20808, 36873, 25321], [20540, 24471, 36873, 25321], [20540,
       24471, 32771, 34385], [20540, 24471, 20449, 36182], [24314, 35758, 36873, 25321], [24314, 35758,
       32771, 34385], [27036, 21333], [25490, 21517],
      [21475, 30865, 36739, 22909], [21475, 30865, 20248, 31168], [38752, 35889]]"

definition NEGATIVE_CUES :: "utext list" where
  "NEGATIVE_CUES = [[19981, 25512, 33616], [19981, 24314, 35758], [19981, 20540, 24471], [36991, 20813,
    36873, 25321], [35880, 24910, 36873, 25321], [39118, 38505], [25237, 35785], [19981, 38752, 35889]]"

definition has_cue :: "utext list \<Rightarrow> utext \<Rightarrow> bool" where
  "has_cue cues excerpt \<longleftrightarrow> list_ex (text_includes excerpt) cues"

record probe_analysis =
  pa_brandMentioned :: bool
  pa_brandRecommended :: bool
  pa_hasCitationEvidence :: bool
  pa_mentionExcerpt :: "utext option"
  pa_recommendationExcerpt :: "utext option"
  pa_competitorMentions :: "utext list"
  pa_competitorExcerpt :: "utext option"
  pa_suspectedNegative :: bool

definition mention_excerpts :: "utext \<Rightarrow> utext list \<Rightarrow> utext list" where
  "mention_excerpts answer brandNames =
     concat (map (\<lambda>name. map (\<lambda>i. relevantExcerpt answer i (length name)) (occurrences name 0 answer))
       (normalizedBrandNames brandNames))"

definition competitors_in :: "utext \<Rightarrow> utext list \<Rightarrow> utext list" where
  "competitors_in answer names = filter (\<lambda>n. occurrences n 0 answer \<noteq> []) (normalizedBrandNames names)"

definition first_of :: "'a list \<Rightarrow> 'a option" where
  "first_of xs = (case xs of [] \<Rightarrow> None | x # _ \<Rightarrow> Some x)"

definition analyzeGeoProbeAnswer ::
  "utext \<Rightarrow> utext list \<Rightarrow> probe_citation list \<Rightarrow> utext list \<Rightarrow> probe_analysis" where
  "analyzeGeoProbeAnswer answer brandNames citations competitorNames =
     (let excerpts = mention_excerpts answer brandNames;
          recommended = filter (\<lambda>e. has_cue POSITIVE_CUES e \<and> \<not> has_cue NEGATIVE_CUES e) excerpts;
          competitors = competitors_in answer competitorNames
      in \<lparr>pa_brandMentioned = (excerpts \<noteq> []), pa_brandRecommended = (recommended \<noteq> []),
          pa_hasCitationEvidence = (citations \<noteq> []),
          pa_mentionExcerpt = first_of excerpts, pa_recommendationExcerpt = first_of recommended,
          pa_competitorMentions = competitors,
          pa_competitorExcerpt =
            first_of (map (\<lambda>n. relevantExcerpt answer (hd (occurrences n 0 answer)) (length n)) competitors),
          pa_suspectedNegative = list_ex (has_cue NEGATIVE_CUES) excerpts\<rparr>)"

section \<open>Diagnosis and rates\<close>

datatype question_diagnosis = SuspectedNegative | CompetitorDominated | Absent | LowRanked | DiagnosisOk

text \<open>The rank is \<open>None\<close> when a unit carries no notion of rank, \<open>Some None\<close> when it was not found.\<close>

definition classifyGeoQuestionDiagnosis :: "probe_analysis option \<Rightarrow> nat option option \<Rightarrow> question_diagnosis" where
  "classifyGeoQuestionDiagnosis analysis rankPosition =
     (case analysis of
        None \<Rightarrow> Absent
      | Some a \<Rightarrow>
          if pa_suspectedNegative a then SuspectedNegative
          else if \<not> pa_brandMentioned a
          then (if pa_competitorMentions a \<noteq> [] then CompetitorDominated else Absent)
          else if rankPosition = Some None then LowRanked
          else DiagnosisOk)"

datatype unit_status = UnitPending | UnitRunning | UnitSucceeded | UnitFailed

record evidence_unit =
  eu_id :: utext
  eu_status :: unit_status
  eu_analysis :: "probe_analysis option"

record baseline_metrics =
  bm_total :: nat
  bm_completed :: nat
  bm_succeeded :: nat
  bm_failed :: nat
  bm_pending :: int
  bm_brandMentioned :: nat
  bm_brandRecommended :: nat
  bm_withCitationEvidence :: nat
  bm_mentionRate :: "int option"
  bm_recommendationRate :: "int option"
  bm_citationRate :: "int option"
  bm_mentionedIds :: "utext list"
  bm_recommendedIds :: "utext list"
  bm_citedIds :: "utext list"
  bm_failedIds :: "utext list"

definition units_with :: "(probe_analysis \<Rightarrow> bool) \<Rightarrow> evidence_unit list \<Rightarrow> evidence_unit list" where
  "units_with p units = filter (\<lambda>u. case eu_analysis u of None \<Rightarrow> False | Some a \<Rightarrow> p a) units"

definition unit_rate :: "nat \<Rightarrow> nat \<Rightarrow> int option" where
  "unit_rate succeeded n =
     (if succeeded = 0 then None else Some (math_round (of_nat n / of_nat succeeded * 100)))"

definition aggregateGeoBaselineUnits :: "evidence_unit list \<Rightarrow> baseline_metrics" where
  "aggregateGeoBaselineUnits units =
     (let succeeded = filter (\<lambda>u. eu_status u = UnitSucceeded) units;
          failed = filter (\<lambda>u. eu_status u = UnitFailed) units;
          mentioned = units_with pa_brandMentioned succeeded;
          recommended = units_with pa_brandRecommended succeeded;
          cited = units_with pa_hasCitationEvidence succeeded;
          rate = (\<lambda>us. unit_rate (length succeeded) (length us))
      in \<lparr>bm_total = length units, bm_completed = length succeeded + length failed,
          bm_succeeded = length succeeded, bm_failed = length failed,
          bm_pending = int (length units) - int (length succeeded) - int (length failed),
          bm_brandMentioned = length mentioned, bm_brandRecommended = length recommended,
          bm_withCitationEvidence = length cited, bm_mentionRate = rate mentioned, bm_recommendationRate = rate recommended,
          bm_citationRate = rate cited, bm_mentionedIds = map eu_id mentioned,
          bm_recommendedIds = map eu_id recommended, bm_citedIds = map eu_id cited,
          bm_failedIds = map eu_id failed\<rparr>)"

section \<open>Facts\<close>

lemma occurrences_match:
  assumes "i \<in> set (occurrences name k t)"
  shows "k \<le> i \<and> text_prefix name (drop (i - k) t)"
  using assms
proof (induction name k t rule: occurrences.induct)
  case (2 name k c t)
  show ?case
  proof (cases "name \<noteq> [] \<and> text_prefix name (c # t)")
    case True
    show ?thesis
    proof (cases "i = k")
      case False
      with True 2(3) have "i \<in> set (occurrences name (k + length name) (drop (length name) (c # t)))" by simp
      from 2(1) [OF True this] have *: "k + length name \<le> i"
        "text_prefix name (drop (i - (k + length name)) (drop (length name) (c # t)))" by auto
      then have "i - (k + length name) + length name = i - k" by simp
      with * show ?thesis by (metis drop_drop add_leD1)
    qed (use True in simp)
  next
    case False
    with 2(3) have "i \<in> set (occurrences name (Suc k) t)" by auto
    from 2(2) [OF False this] show ?thesis by (auto simp: Suc_le_eq drop_Cons')
  qed
qed simp

lemma occurrences_none:
  "occurrences name k t = [] \<longleftrightarrow> name = [] \<or> \<not> text_includes t name"
proof (induction name k t rule: occurrences.induct)
  case (1 name k)
  then show ?case by auto
next
  case (2 name k c t)
  then show ?case by (cases "name \<noteq> [] \<and> text_prefix name (c # t)") auto
qed

lemma set_normalizedBrandNames: "set (normalizedBrandNames names) = js_trim ` set names - {[]}"
  by (auto simp: normalizedBrandNames_def)

lemma mention_excerpts_none:
  "mention_excerpts answer names = [] \<longleftrightarrow> (\<forall>b\<in>set names. js_trim b \<noteq> [] \<longrightarrow> \<not> text_includes answer (js_trim b))"
  by (auto simp: mention_excerpts_def set_normalizedBrandNames occurrences_none)

text \<open>The place that an excerpt shows.\<close>

definition excerpt_at :: "utext \<Rightarrow> utext list \<Rightarrow> utext \<Rightarrow> bool" where
  "excerpt_at answer names e \<longleftrightarrow>
     (\<exists>b\<in>set names. \<exists>i. js_trim b \<noteq> [] \<and> text_prefix (js_trim b) (drop i answer) \<and>
        e = relevantExcerpt answer i (length (js_trim b)))"

lemma mention_excerpts_at: "e \<in> set (mention_excerpts answer names) \<Longrightarrow> excerpt_at answer names e"
  by (fastforce simp: mention_excerpts_def set_normalizedBrandNames excerpt_at_def dest: occurrences_match)

lemma first_of_Some: "first_of xs = Some x \<Longrightarrow> x \<in> set xs"
  by (auto simp: first_of_def split: list.splits)

lemma first_of_None [simp]: "first_of xs = None \<longleftrightarrow> xs = []"
  by (auto simp: first_of_def split: list.splits)



lemma keep_new_urls:
  "distinct (map cit_url (keep_new seen cs)) \<and> set (map cit_url (keep_new seen cs)) = cit_url ` set cs - set seen \<and>
   set (keep_new seen cs) \<subseteq> set cs"
  by (induction seen cs rule: keep_new.induct) auto

lemma structured_links_urls: "c \<in> set (structured_links js j) \<Longrightarrow> \<exists>t. probe_url js t = Some (cit_url c)"
proof (induction js j rule: structured_links.induct)
  case (2 js fs)
  from 2(2) obtain k v where kv: "(k, v) \<in> set (object_entries fs)"
    and c: "c \<in> set (structured_links js v) \<or> (\<exists>t. v = JStr t \<and> probe_url js t = Some (cit_url c))"
    by (force simp: option_list_def split: json.splits option.splits if_splits)
  then show ?case using 2(1) [OF kv refl] by auto
qed auto

lemma answer_links_urls: "c \<in> set (answer_links js answer) \<Longrightarrow> \<exists>t. probe_url js t = Some (cit_url c)"
  by (auto simp: answer_links_def option_list_def split: option.splits)

text \<open>
  The reading of a provider response. It fails exactly when there is no answer text; otherwise
  every citation, of the response or of the links in the answer, is an \<open>http\<close> or \<open>https\<close> address, and no
  address is cited twice.
\<close>

theorem parseGeoProbeProviderResponse_spec:
  "case parseGeoProbeProviderResponse js raw of
     Inl e \<Rightarrow> e = ''geo_baseline_empty_response'' \<and> rawAnswerFromProvider raw = []
   | Inr (answer, citations) \<Rightarrow>
       answer = rawAnswerFromProvider raw \<and> answer \<noteq> [] \<and> distinct (map cit_url citations) \<and>
       cit_url ` set citations =
         cit_url ` set (structured_links js raw) \<union> cit_url ` set (answer_links js answer) \<and>
       set (map cit_url citations) \<subseteq> {u. \<exists>t. probe_url js t = Some u}"
proof (cases "rawAnswerFromProvider raw = []")
  case True
  then show ?thesis by (simp add: parseGeoProbeProviderResponse_def)
next
  case False
  let ?s = "structuredCitations js raw" and ?l = "answer_links js (rawAnswerFromProvider raw)"
  let ?c = "?s @ keep_new (map cit_url ?s) ?l"
  have s: "distinct (map cit_url ?s)" "cit_url ` set ?s = cit_url ` set (structured_links js raw)"
    using keep_new_urls [of "[]" "structured_links js raw"] by (simp_all add: structuredCitations_def)
  have l: "distinct (map cit_url (keep_new (map cit_url ?s) ?l))"
    "cit_url ` set (keep_new (map cit_url ?s) ?l) = cit_url ` set ?l - cit_url ` set ?s"
    using keep_new_urls [of "map cit_url ?s" ?l] by simp_all
  have "cit_url ` set ?c = cit_url ` set (structured_links js raw) \<union> cit_url ` set ?l"
    unfolding set_append image_Un l(2) s(2) by blast
  moreover have "distinct (map cit_url ?c)" using s(1) l by auto
  moreover have "cit_url ` set (structured_links js raw) \<union> cit_url ` set ?l \<subseteq> {u. \<exists>t. probe_url js t = Some u}"
    by (auto dest: structured_links_urls answer_links_urls)
  ultimately show ?thesis
    using False by (simp add: parseGeoProbeProviderResponse_def Let_def)
qed

lemma unit_rate_bounds:
  assumes "unit_rate n k = Some r" and "k \<le> n"
  shows "0 \<le> r \<and> r \<le> 100"
proof -
  from assms have "n \<noteq> 0" and r: "r = math_round (of_nat k / of_nat n * 100)" by (auto simp: unit_rate_def split: if_splits)
  with assms(2) have "(of_nat k / of_nat n :: rat) \<le> 1" "0 \<le> (of_nat k / of_nat n :: rat)" by simp_all
  then show ?thesis unfolding r math_round_def by (auto intro: order_trans simp: le_floor_iff floor_le_iff)
qed

text \<open>The rates of a baseline are percentages of the succeeded units, and nothing is counted twice.\<close>

theorem aggregateGeoBaselineUnits_bounds:
  assumes "m = aggregateGeoBaselineUnits units"
  shows "0 \<le> bm_pending m \<and> int (bm_total m) = int (bm_completed m) + bm_pending m \<and>
    (bm_mentionRate m = None \<longleftrightarrow> bm_succeeded m = 0) \<and>
    (\<forall>r. Some r \<in> {bm_mentionRate m, bm_recommendationRate m, bm_citationRate m} \<longrightarrow> 0 \<le> r \<and> r \<le> 100)"
proof -
  have split3: "length (filter (\<lambda>u. eu_status u = UnitSucceeded) us) + length (filter (\<lambda>u. eu_status u = UnitFailed) us)
      \<le> length us" for us by (induction us) auto
  have within: "length (units_with p us) \<le> length us" for p us by (simp add: units_with_def)
  let ?ok = "filter (\<lambda>u. eu_status u = UnitSucceeded) units"
  have rates: "bm_mentionRate m = unit_rate (length ?ok) (length (units_with pa_brandMentioned ?ok))"
    "bm_recommendationRate m = unit_rate (length ?ok) (length (units_with pa_brandRecommended ?ok))"
    "bm_citationRate m = unit_rate (length ?ok) (length (units_with pa_hasCitationEvidence ?ok))"
    and counts: "bm_succeeded m = length ?ok" "bm_total m = length units"
    "bm_completed m = length ?ok + length (filter (\<lambda>u. eu_status u = UnitFailed) units)"
    "bm_pending m = int (length units) - int (length ?ok) - int (length (filter (\<lambda>u. eu_status u = UnitFailed) units))"
    unfolding assms aggregateGeoBaselineUnits_def by (simp_all add: Let_def)
  have "0 \<le> r \<and> r \<le> 100" if "Some r = unit_rate (length ?ok) (length (units_with p ?ok))" for r p
    using unit_rate_bounds [OF that [symmetric] within] .
  moreover have "unit_rate (length ?ok) k = None \<longleftrightarrow> length ?ok = 0" for k by (simp add: unit_rate_def)
  moreover have "0 \<le> int (length units) - int (length ?ok) - int (length (filter (\<lambda>u. eu_status u = UnitFailed) units))"
    using split3 [of units] by simp
  ultimately show ?thesis unfolding rates counts by simp
qed

end
