(* ===== verification/Monitoring.thy ===== *)
theory Monitoring
  imports Probe Distribution
begin

text \<open>
  What the desktop shows after a publication: the status codes of channel orders
  (\<open>src/shared/geo/publishScheduler.ts\<close>, whose ledger effect at the gateway is in \<open>PublishOrders\<close>), and the
  monitoring of \<open>src/shared/geo/postPublishMonitoring.ts\<close>: the explicit rank of a brand in an answer, the
  trend of a metric and the counts of a run. Texts are lists of UTF-16 units.
\<close>

section \<open>Status codes\<close>

definition PUBLISH_RETRY_BACKOFF_MS :: "int list" where
  "PUBLISH_RETRY_BACKOFF_MS = [3000, 3000]"

definition publishRetryBackoffMs :: "rat \<Rightarrow> int option" where
  "publishRetryBackoffMs attempt =
     (if \<not> is_integer attempt \<or> attempt < 1 then None
      else let i = nat \<lfloor>attempt\<rfloor> - 1
           in if i < length PUBLISH_RETRY_BACKOFF_MS then Some (PUBLISH_RETRY_BACKOFF_MS ! i) else None)"

definition publishOrderRefundsPoints :: "rat option \<Rightarrow> bool" where
  "publishOrderRefundsPoints status \<longleftrightarrow> status = Some 2 \<or> status = Some 5 \<or> status = Some 7"

definition publishOrderStatusActive :: "rat option \<Rightarrow> bool" where
  "publishOrderStatusActive status \<longleftrightarrow> status = None \<or> status = Some 1 \<or> status = Some 3 \<or> status = Some 6"

definition PUBLISH_ORDER_STATUS_LABEL :: "(rat \<times> utext) list" where
  "PUBLISH_ORDER_STATUS_LABEL =
     [(1, [24453, 22788, 29702]), (2, [24050, 25298, 31295]), (3, [21457, 24067, 20013]), (4, [24050, 21457,
       24067]), (5, [24050, 21462, 28040]), (6, [36864, 27454, 20013]), (7, [24050, 36864, 27454]),
      (8, [36864, 27454, 34987, 25298]), (9, [24050, 20851, 38381]), (10, [34917, 21457, 20013]), (11,
        [24050, 34917, 21457]), (12, [24050, 25910, 24405])]"

definition publishOrderStatusLabel :: "js_runtime \<Rightarrow> rat option \<Rightarrow> utext" where
  "publishOrderStatusLabel js status =
     (case status of
        None \<Rightarrow> [35746, 21333, 23578, 26410, 21463, 29702]
      | Some s \<Rightarrow> (case map_of PUBLISH_ORDER_STATUS_LABEL s of
                     Some label \<Rightarrow> label | None \<Rightarrow> [28192, 36947, 29366, 24577, 32] @
                       jr_show js s))"

datatype platform_status = Submitted | Published | Indexed | Rejected

definition mapSupermediaStatus :: "rat \<Rightarrow> platform_status option" where
  "mapSupermediaStatus code =
     (if code \<in> {1, 3, 6, 8} then Some Submitted
      else if code \<in> {4, 10, 11} then Some Published
      else if code = 12 then Some Indexed
      else if code \<in> {2, 5, 7, 9} then Some Rejected
      else None)"

section \<open>The explicit rank\<close>

text \<open>
  The four patterns are sequences of literals with alternatives, runs of a class, an optional or a
  bounded run, the captured rank and the look at the next character. The matcher backtracks as the
  regular expressions of JavaScript do: longest run first, alternatives in their order.
\<close>

datatype rank_item =
    OneOf "utext list"
  | Run "nat \<Rightarrow> bool"
  | UpTo nat "nat \<Rightarrow> bool"
  | Capture "nat list"
  | NextIs "nat \<Rightarrow> bool"

fun item_steps :: "rank_item \<Rightarrow> nat" where
  "item_steps (OneOf ws) = length ws + 1"
| "item_steps (Run p) = 1"
| "item_steps (UpTo n p) = n + 1"
| "item_steps (Capture cs) = 1"
| "item_steps (NextIs p) = 1"

function rank_match :: "rank_item list \<Rightarrow> nat \<Rightarrow> utext \<Rightarrow> nat option" where
  "rank_match [] found t = Some found"
| "rank_match (OneOf [] # items) found t = None"
| "rank_match (OneOf (w # ws) # items) found t =
     (case (case strip_prefix w t of None \<Rightarrow> None | Some r \<Rightarrow> rank_match items found r) of
        Some x \<Rightarrow> Some x
      | None \<Rightarrow> rank_match (OneOf ws # items) found t)"
| "rank_match (Run p # items) found [] = rank_match items found []"
| "rank_match (Run p # items) found (c # t) =
     (case (if p c then rank_match (Run p # items) found t else None) of
        Some x \<Rightarrow> Some x
      | None \<Rightarrow> rank_match items found (c # t))"
| "rank_match (UpTo 0 p # items) found t = rank_match items found t"
| "rank_match (UpTo (Suc n) p # items) found [] = rank_match items found []"
| "rank_match (UpTo (Suc n) p # items) found (c # t) =
     (case (if p c then rank_match (UpTo n p # items) found t else None) of
        Some x \<Rightarrow> Some x
      | None \<Rightarrow> rank_match items found (c # t))"
| "rank_match (Capture cs # items) found [] = None"
| "rank_match (Capture cs # items) found (c # t) = (if c \<in> set cs then rank_match items c t else None)"
| "rank_match (NextIs p # items) found t =
     (if t = [] \<or> p (hd t) then rank_match items found t else None)"
  by pat_completeness auto
termination
  by (relation "measures [\<lambda>(items, f, t). sum_list (map item_steps items), \<lambda>(items, f, t). length t]") auto

definition sentence_start :: "nat \<Rightarrow> bool" where
  "sentence_start c \<longleftrightarrow> c \<in> {10, 13} \<union> set [65307, 12290]"

definition name_end :: "nat \<Rightarrow> bool" where
  "name_end c \<longleftrightarrow> js_space c \<or> c \<in> set [65292, 44, 12290, 65307, 59, 65306, 58,
    65288, 40]"

definition rank_joint :: "nat \<Rightarrow> bool" where
  "rank_joint c \<longleftrightarrow> js_space c \<or> c \<in> set [65306, 58, 12289, 46, 45]"

text \<open>The leftmost match, at the start of the text or behind a sentence mark.\<close>

fun rank_search :: "rank_item list \<Rightarrow> utext \<Rightarrow> nat option" where
  "rank_search items [] = None"
| "rank_search items (c # t) =
     (case (if sentence_start c then rank_match items 0 t else None) of
        Some x \<Rightarrow> Some x
      | None \<Rightarrow> rank_search items t)"

definition rank_find :: "rank_item list \<Rightarrow> utext \<Rightarrow> nat option" where
  "rank_find items t = (case rank_match items 0 t of Some x \<Rightarrow> Some x | None \<Rightarrow> rank_search items t)"

definition TOP_MARKS :: "utext list" where
  "TOP_MARKS = [ascii ''TOP'', ascii ''Top'', ascii ''top'']"

definition rank_patterns :: "utext \<Rightarrow> rank_item list list" where
  "rank_patterns brand =
     [[Run js_space, OneOf TOP_MARKS, Run js_space, Capture [49, 50, 51], UpTo 4 rank_joint, OneOf [brand],
       NextIs name_end],
      [Run js_space, OneOf [[31532]], Run js_space, Capture [19968, 20108, 19977, 49, 50, 51], OneOf
        [[21517], [20301], []], UpTo 4 rank_joint,
       OneOf [brand], NextIs name_end],
      [Run js_space, OneOf [brand], UpTo 4 rank_joint, OneOf TOP_MARKS, Run js_space, Capture [49, 50, 51],
        NextIs name_end],
      [Run js_space, OneOf [brand], Run js_space, OneOf [[25490, 21517], []], OneOf [[31532]], Run js_space,
       Capture [19968, 20108, 19977, 49, 50, 51], OneOf [[21517], [20301], []], NextIs name_end]]"

definition rank_value :: "nat \<Rightarrow> nat option" where
  "rank_value c =
     (if c \<in> set [49, 19968] then Some 1 else if c \<in> set [50, 20108] then Some 2 else if c \<in> set
       [51, 19977] then Some 3 else None)"

definition rank_of_brand :: "utext \<Rightarrow> utext \<Rightarrow> nat list" where
  "rank_of_brand answer brand =
     concat (map (\<lambda>items. case rank_find items answer of
         None \<Rightarrow> [] | Some c \<Rightarrow> option_list (rank_value c)) (rank_patterns brand))"

definition parseExplicitTopThreeRank :: "utext \<Rightarrow> utext list \<Rightarrow> nat option" where
  "parseExplicitTopThreeRank answer brandNames =
     first_of (concat (map (rank_of_brand answer) (filter (\<lambda>b. b \<noteq> []) (map js_trim brandNames))))"

section \<open>Trends\<close>

datatype metric_trend = TrendUp | TrendDown | TrendFlat | TrendFluctuating | TrendInsufficient

definition classifyGeoMetricTrend :: "rat option list \<Rightarrow> metric_trend" where
  "classifyGeoMetricTrend values =
     (let usable = concat (map option_list values); n = length usable
      in if n < 2 then TrendInsufficient
         else let latest = usable ! (n - 1) - usable ! (n - 2)
              in if latest = 0 then TrendFlat
                 else if \<not> (3 \<le> n \<and> sgn (usable ! (n - 2) - usable ! (n - 3)) = sgn latest) then TrendFluctuating
                 else if 0 < latest then TrendUp else TrendDown)"

section \<open>The counts of a run\<close>

datatype monitor_kind = PublishStatus | AccessIndexing | BaselineProbe

datatype indexing_state = IsIndexed | NotIndexed | IndexingUnknown

record baseline_evidence =
  be_brandMentioned :: bool
  be_rankPosition :: "nat option"
  be_citedArticleIds :: "utext list"
  be_citedUrls :: "utext list"

datatype monitor_evidence =
    StatusEvidence platform_status
  | AccessEvidence bool indexing_state
  | BaselineEvidence baseline_evidence

record monitor_unit =
  mu_kind :: monitor_kind
  mu_status :: unit_status
  mu_publishItemId :: "utext option"
  mu_evidence :: "monitor_evidence option"

record monitor_aggregate =
  ma_successfulUnits :: nat
  ma_failedUnits :: nat
  ma_publishedItems :: nat
  ma_indexedItems :: nat
  ma_accessibleItems :: nat
  ma_accessSamples :: nat
  ma_baselineProbes :: nat
  ma_brandMentioned :: nat
  ma_topThree :: nat
  ma_citedArticleIds :: "utext list"
  ma_citedUrls :: "utext list"

definition units_of :: "monitor_kind \<Rightarrow> monitor_unit list \<Rightarrow> monitor_unit list" where
  "units_of k units = filter (\<lambda>u. mu_kind u = k) (filter (\<lambda>u. mu_status u = UnitSucceeded) units)"

definition probe_evidence :: "monitor_unit list \<Rightarrow> baseline_evidence list" where
  "probe_evidence units =
     concat (map (\<lambda>u. case mu_evidence u of Some (BaselineEvidence e) \<Rightarrow> [e] | _ \<Rightarrow> []) (units_of BaselineProbe units))"

definition published_unit :: "monitor_unit \<Rightarrow> bool" where
  "published_unit u \<longleftrightarrow>
     mu_evidence u = Some (StatusEvidence Published) \<or> mu_evidence u = Some (StatusEvidence Indexed)"

definition indexed_unit :: "monitor_unit \<Rightarrow> bool" where
  "indexed_unit u \<longleftrightarrow>
     (case mu_evidence u of
        Some (StatusEvidence s) \<Rightarrow> s = Indexed
      | Some (AccessEvidence a i) \<Rightarrow> i = IsIndexed
      | _ \<Rightarrow> False)"

definition accessible_unit :: "monitor_unit \<Rightarrow> bool" where
  "accessible_unit u \<longleftrightarrow> (case mu_evidence u of Some (AccessEvidence a i) \<Rightarrow> a | _ \<Rightarrow> False)"

definition aggregatePostPublishMonitorUnits :: "monitor_unit list \<Rightarrow> monitor_aggregate" where
  "aggregatePostPublishMonitorUnits units =
     (let publish = units_of PublishStatus units; access = units_of AccessIndexing units; evidence = probe_evidence units
      in \<lparr>ma_successfulUnits = length (filter (\<lambda>u. mu_status u = UnitSucceeded) units),
          ma_failedUnits = length (filter (\<lambda>u. mu_status u = UnitFailed) units),
          ma_publishedItems = length (filter published_unit publish),
          ma_indexedItems =
            length (js_unique (concat (map (\<lambda>u. option_list (mu_publishItemId u))
              (filter indexed_unit (publish @ access))))),
          ma_accessibleItems = length (filter accessible_unit access),
          ma_accessSamples = length access,
          ma_baselineProbes = length evidence,
          ma_brandMentioned = length (filter be_brandMentioned evidence),
          ma_topThree = length (filter (\<lambda>e. be_rankPosition e \<noteq> None) evidence),
          ma_citedArticleIds = sort (js_unique (concat (map be_citedArticleIds evidence))),
          ma_citedUrls = sort (js_unique (concat (map be_citedUrls evidence)))\<rparr>)"

section \<open>The dashboard\<close>

text \<open>The availability of a metric in \<open>src/shared/geo/dashboard.ts\<close>.\<close>

datatype dashboard_availability = DashEmpty | DashUnavailable | DashPartial | DashAvailable

record dashboard_metric =
  dm_key :: string
  dm_value :: "rat option"
  dm_availability :: dashboard_availability
  dm_engineFilterApplies :: bool

definition applyGeoDashboardProviderAvailability ::
  "utext option \<Rightarrow> (utext \<times> bool) list \<Rightarrow> dashboard_metric list \<Rightarrow> dashboard_metric list" where
  "applyGeoDashboardProviderAvailability engineId providerEngines metrics =
     (let relevant = (case engineId of
                        None \<Rightarrow> providerEngines
                      | Some e \<Rightarrow> if e = [] then providerEngines else filter (\<lambda>p. fst p = e) providerEngines);
          providerAvailable = list_ex snd relevant
      in map (\<lambda>m. if dm_engineFilterApplies m \<and> dm_availability m = DashEmpty \<and> \<not> providerAvailable
                  then m\<lparr>dm_availability := DashUnavailable\<rparr> else m) metrics)"

definition geoDashboardMetric :: "dashboard_metric list \<Rightarrow> string \<Rightarrow> string + dashboard_metric" where
  "geoDashboardMetric metrics key =
     (case find (\<lambda>m. dm_key m = key) metrics of
        None \<Rightarrow> Inl (''geo_dashboard_metric_missing:'' @ key) | Some m \<Rightarrow> Inr m)"

section \<open>Facts\<close>

lemma text_includes_behind: "text_includes r w \<Longrightarrow> text_includes (p @ r) w"
  by (metis append_assoc text_includes_iff)

lemma text_includes_self: "text_includes (w @ r) w"
  by (metis append_Nil text_includes_iff)

text \<open>What a match proves about the text.\<close>

definition rank_seen :: "rank_item list \<Rightarrow> nat \<Rightarrow> utext \<Rightarrow> nat \<Rightarrow> bool" where
  "rank_seen items found t x \<longleftrightarrow>
     (\<forall>ws. OneOf ws \<in> set items \<longrightarrow> (\<exists>w\<in>set ws. text_includes t w)) \<and>
     (if \<exists>cs. Capture cs \<in> set items then \<exists>cs. Capture cs \<in> set items \<and> x \<in> set cs \<and> x \<in> set t else x = found)"

lemma rank_seen_behind: "rank_seen items found r x \<Longrightarrow> rank_seen items found (p @ r) x"
  unfolding rank_seen_def by (auto simp: text_includes_behind split: if_splits) (metis text_includes_behind)+

lemma rank_seen_skip:
  assumes "rank_seen items found t x" and "\<And>ws. i \<noteq> OneOf ws" and "\<And>cs. i \<noteq> Capture cs"
  shows "rank_seen (i # items) found t x"
  using assms unfolding rank_seen_def by (auto split: if_splits)

lemma rank_match_seen: "rank_match items found t = Some x \<Longrightarrow> rank_seen items found t x"
proof (induction items found t rule: rank_match.induct)
  case (1 found t)
  then show ?case by (simp add: rank_seen_def)
next
  case (3 w ws items found t)
  show ?case
  proof (cases "case strip_prefix w t of None \<Rightarrow> None | Some r \<Rightarrow> rank_match items found r")
    case None
    with 3 have "rank_seen (OneOf ws # items) found t x" by simp
    then show ?thesis unfolding rank_seen_def by (auto split: if_splits)
  next
    case (Some y)
    with 3(3) have "y = x" by simp
    with Some obtain r where r: "strip_prefix w t = Some r" "rank_match items found r = Some x"
      by (auto split: option.splits)
    then have "rank_seen items found (w @ r) x" using 3(1) rank_seen_behind by blast
    moreover have "t = w @ r" using r(1) by (simp add: strip_prefix_Some_iff)
    ultimately show ?thesis unfolding rank_seen_def by (auto simp: text_includes_self split: if_splits)
  qed
next
  case (4 p items found)
  then show ?case by (auto intro: rank_seen_skip)
next
  case (5 p items found c t)
  then show ?case
    using rank_seen_behind [of "Run p # items" found t x "[c]"]
    by (auto intro: rank_seen_skip split: option.splits if_splits)
next
  case (6 p items found t)
  then show ?case by (auto intro: rank_seen_skip)
next
  case (7 n p items found)
  then show ?case by (auto intro: rank_seen_skip)
next
  case (8 n p items found c t)
  have "rank_seen items found (c # t) x"
    if "p c" "rank_match (UpTo n p # items) found t = Some x"
    using rank_seen_behind [OF 8(1) [OF that], of "[c]"] unfolding rank_seen_def by (auto split: if_splits)
  with 8 show ?case by (auto intro: rank_seen_skip split: option.splits if_splits)
next
  case (10 cs items found c t)
  then have "c \<in> set cs" "rank_seen items c t x" by (auto split: if_splits)
  then show ?case
    using rank_seen_behind [of items c t x "[c]"] unfolding rank_seen_def by (auto split: if_splits)
next
  case (11 p items found t)
  then show ?case by (auto intro: rank_seen_skip split: if_splits)
qed simp_all

lemma rank_find_seen: "rank_find items t = Some x \<Longrightarrow> \<exists>found. rank_seen items found t x"
proof -
  have search: "rank_search items t = Some x \<Longrightarrow> rank_seen items 0 t x" for t
  proof (induction items t rule: rank_search.induct)
    case (2 items c t)
    then show ?case
      using rank_seen_behind [of items 0 t x "[c]"] by (auto dest: rank_match_seen split: option.splits if_splits)
  qed simp
  assume "rank_find items t = Some x"
  then show ?thesis by (auto simp: rank_find_def dest: rank_match_seen search split: option.splits)
qed

lemma rank_of_brand_explicit:
  assumes "r \<in> set (rank_of_brand answer brand)"
  shows "text_includes answer brand \<and> (\<exists>w\<in>set ([31532] # TOP_MARKS). text_includes answer
    w) \<and>
    (\<exists>c\<in>set answer. rank_value c = Some r)"
proof -
  from assms obtain items c where items: "items \<in> set (rank_patterns brand)" and "rank_find items answer = Some c"
    and r: "rank_value c = Some r"
    by (auto simp: rank_of_brand_def option_list_def split: option.splits) (metis (no_types))
  then obtain found where seen: "rank_seen items found answer c" using rank_find_seen by blast
  from items have "OneOf [brand] \<in> set items" "OneOf TOP_MARKS \<in> set items \<or> OneOf [[31532]]
    \<in> set items"
    "\<exists>cs. Capture cs \<in> set items" by (auto simp: rank_patterns_def)
  with seen r show ?thesis unfolding rank_seen_def by (fastforce split: if_splits)
qed

lemma rank_match_upto:
  assumes "rank_match items found t = Some found" and "\<And>cs. Capture cs \<notin> set items"
  shows "rank_match (UpTo n p # items) found t = Some found"
proof (induction n)
  case (Suc n)
  show ?case
  proof (cases t)
    case (Cons c u)
    have "x = found" if "rank_match (UpTo n p # items) found u = Some x" for x
      using rank_match_seen [OF that] assms(2) by (auto simp: rank_seen_def)
    with assms(1) Cons show ?thesis by (auto split: option.splits)
  qed (use assms(1) in simp)
qed (use assms(1) in simp)

lemma rank_match_run_skip: "t = [] \<or> \<not> p (hd t) \<Longrightarrow> rank_match (Run p # items) found t = rank_match items found t"
  by (cases t) auto

lemma top_rank_found:
  assumes "m \<in> set TOP_MARKS" and "c \<in> set [49, 50, 51]" and "rest = [] \<or> name_end (hd rest)"
  shows "rank_find (hd (rank_patterns brand)) (m @ c # brand @ rest) = Some c"
proof -
  let ?rest = "[OneOf [brand], NextIs name_end]"
  have "rank_match ?rest c (brand @ rest) = Some c" using assms(3) by simp
  then have "rank_match (UpTo 4 rank_joint # ?rest) c (brand @ rest) = Some c" by (rule rank_match_upto) auto
  then have "rank_match (Capture [49, 50, 51] # UpTo 4 rank_joint # ?rest) 0 (c # brand @ rest) = Some c"
    using assms(2) by simp
  moreover have "\<not> js_space c" using assms(2) by (auto simp: js_space_def)
  ultimately have "rank_match (Run js_space # Capture [49, 50, 51] # UpTo 4 rank_joint # ?rest) 0 (c # brand
    @ rest) = Some c"
    by (simp only: rank_match_run_skip list.sel simp_thms)
  moreover have "m = ascii ''TOP'' \<or> m = ascii ''Top'' \<or> m = ascii ''top''"
    using assms(1) by (auto simp: TOP_MARKS_def)
  ultimately have "rank_match (OneOf TOP_MARKS # Run js_space # Capture [49, 50, 51] # UpTo 4 rank_joint #
    ?rest) 0
      (m @ c # brand @ rest) = Some c"
    unfolding TOP_MARKS_def by (elim disjE) (simp_all add: ascii_def)
  moreover have "m @ c # brand @ rest \<noteq> [] \<and> \<not> js_space (hd (m @ c # brand @ rest))"
    using assms(1) by (auto simp: TOP_MARKS_def ascii_def js_space_def)
  ultimately have "rank_match (hd (rank_patterns brand)) 0 (m @ c # brand @ rest) = Some c"
    by (simp only: rank_patterns_def list.sel rank_match_run_skip simp_thms)
  then show ?thesis by (simp add: rank_find_def)
qed




text \<open>
  A trend needs two equal signs: a rise or a fall is shown only for three values in a row, whatever
  gaps lie between them.
\<close>

theorem classifyGeoMetricTrend_confirmed:
  "(classifyGeoMetricTrend values = TrendUp \<longleftrightarrow>
     (\<exists>us a b c. concat (map option_list values) = us @ [a, b, c] \<and> a < b \<and> b < c)) \<and>
   (classifyGeoMetricTrend values = TrendDown \<longleftrightarrow>
     (\<exists>us a b c. concat (map option_list values) = us @ [a, b, c] \<and> c < b \<and> b < a))"
proof -
  let ?u = "concat (map option_list values)"
  consider "length ?u < 2" | a b where "?u = [a, b]" | us a b c where "?u = us @ [a, b, c]"
  proof (cases ?u rule: rev_cases)
    case (snoc vs c)
    then show ?thesis
      by (cases vs rule: rev_cases; cases "butlast vs" rule: rev_cases) (auto intro: that)
  qed (auto intro: that)
  then show ?thesis
  proof cases
    case 3
    then show ?thesis
      by (simp add: classifyGeoMetricTrend_def Let_def nth_append sgn_if)
  qed (auto simp: classifyGeoMetricTrend_def Let_def)
qed


end
