(* ===== verification/QuestionPool.thy ===== *)
theory QuestionPool
  imports Distribution "HOL-Library.Sublist"
begin

text \<open>
  The question pool, \<open>src/shared/geo/questionPool.ts\<close>: the parameters, the parsing of mined keywords and of
  question candidates out of the answer of a language model, and the score of a candidate, with the
  reference evaluator of \<open>portContract.ts\<close>. \<open>JSON.parse\<close> is an argument (\<open>None\<close> when it throws); the vectors
  are lists of real numbers, so the rounding of the arithmetic is left out.
\<close>

section \<open>Parameters\<close>

record pool_parameters =
  pp_candidateLimit :: rat
  pp_recentSelectionLimit :: rat

definition normalizeQuestionPoolParameters :: "rat option \<Rightarrow> rat option \<Rightarrow> pool_parameters" where
  "normalizeQuestionPoolParameters candidateLimit recentSelectionLimit =
     \<lparr>pp_candidateLimit = min 20 (max 1 (js_trunc (case candidateLimit of None \<Rightarrow> 20 | Some n \<Rightarrow> n))),
      pp_recentSelectionLimit =
        min 50 (max 1 (js_trunc (case recentSelectionLimit of None \<Rightarrow> 20 | Some n \<Rightarrow> n)))\<rparr>"

section \<open>The JSON in an answer\<close>

definition fence :: utext where
  "fence = [96, 96, 96]"

definition strip_fence :: "utext \<Rightarrow> utext" where
  "strip_fence t =
     (let opened = (case strip_prefix fence t of
                      None \<Rightarrow> t
                    | Some r \<Rightarrow> dropWhile js_space
                        (if map ascii_fold (take 4 r) = ascii ''json'' then drop 4 r else r))
      in if text_suffix fence opened
         then rev (dropWhile js_space (drop 3 (rev opened))) else opened)"

definition extractJsonObject :: "(utext \<Rightarrow> json option) \<Rightarrow> utext \<Rightarrow> json option" where
  "extractJsonObject parse raw =
     (let cleaned = strip_fence (js_trim raw)
      in if 123 \<notin> set cleaned \<or> 125 \<notin> set cleaned then None
         else let start = length (takeWhile (\<lambda>c. c \<noteq> 123) cleaned);
                  stop = length (dropWhile (\<lambda>c. c \<noteq> 125) (rev cleaned)) - 1
              in if stop \<le> start then None
                 else case parse (drop start (take (stop + 1) cleaned)) of
                        Some (JObj fs) \<Rightarrow> Some (JObj fs)
                      | _ \<Rightarrow> None)"

section \<open>Mined keywords\<close>

datatype keyword_category = CoreTerm | SceneTerm | LongtailTerm

datatype keyword_heat = HeatHigh | HeatMedium | HeatLow

record mined_keyword =
  mk_id :: string
  mk_term :: utext
  mk_category :: keyword_category
  mk_heat :: keyword_heat

definition category_key :: "keyword_category \<Rightarrow> string" where
  "category_key c = (case c of CoreTerm \<Rightarrow> ''core'' | SceneTerm \<Rightarrow> ''scene'' | LongtailTerm \<Rightarrow> ''longtail'')"

definition normalizeHeat :: "json option \<Rightarrow> keyword_heat" where
  "normalizeHeat v =
     (if v \<in> {Some (JStr (ascii ''high'')), Some (JStr [39640])} then HeatHigh
      else if v \<in> {Some (JStr (ascii ''low'')), Some (JStr [20302])} then HeatLow
      else HeatMedium)"

definition containsBrandName :: "js_runtime \<Rightarrow> utext list \<Rightarrow> utext \<Rightarrow> bool" where
  "containsBrandName js brandNames term \<longleftrightarrow>
     list_ex (\<lambda>name. jr_lower js (js_trim name) \<noteq> [] \<and>
       text_includes (jr_lower js (js_trim term)) (jr_lower js (js_trim name))) brandNames"

definition TERM_FORBIDDEN_PUNCTUATION :: "nat set" where
  "TERM_FORBIDDEN_PUNCTUATION = set [65292, 44, 12289, 65307, 59, 12290, 65294, 46, 65281, 33, 65311, 63,
    65306, 58, 183, 34, 39, 12300, 12301, 12304, 12305, 65288, 65289, 40, 41]"

definition TERM_MAX_CHARACTERS :: nat where
  "TERM_MAX_CHARACTERS = 30"

definition BRAND_TERM_LIMIT :: nat where
  "BRAND_TERM_LIMIT = 1"

record mining =
  mn_keywords :: "mined_keyword list"
  mn_seen :: "utext list"
  mn_brandCount :: nat

definition term_admitted :: "js_runtime \<Rightarrow> utext list \<Rightarrow> utext list \<Rightarrow> utext \<Rightarrow> bool" where
  "term_admitted js existing seen term \<longleftrightarrow>
     term \<noteq> [] \<and> jr_lower js term \<notin> set seen \<and> jr_lower js term \<notin> set existing \<and>
     list_all (\<lambda>c. c \<notin> TERM_FORBIDDEN_PUNCTUATION) term \<and> length term \<le> TERM_MAX_CHARACTERS"

definition mine_item ::
  "js_runtime \<Rightarrow> utext list \<Rightarrow> utext list \<Rightarrow> keyword_category \<Rightarrow> mining \<Rightarrow> json \<Rightarrow> mining" where
  "mine_item js brandNames existing category m item =
     (case jget item ''term'' of
        Some (JStr raw) \<Rightarrow>
          let term = js_trim raw; brand = containsBrandName js brandNames term;
              counted = m\<lparr>mn_brandCount := mn_brandCount m + (if brand then 1 else 0)\<rparr>
          in if \<not> term_admitted js existing (mn_seen m) term then m
             else if brand \<and> BRAND_TERM_LIMIT < mn_brandCount counted then counted
             else counted\<lparr>mn_keywords := mn_keywords m @
                     [\<lparr>mk_id = ''kw-'' @ show_nat (length (mn_keywords m) + 1), mk_term = term,
                       mk_category = category, mk_heat = normalizeHeat (jget item ''heat'')\<rparr>],
                   mn_seen := jr_lower js term # mn_seen m\<rparr>
      | _ \<Rightarrow> m)"

definition mine_bucket ::
  "js_runtime \<Rightarrow> utext list \<Rightarrow> utext list \<Rightarrow> json \<Rightarrow> mining \<Rightarrow> keyword_category \<Rightarrow> mining" where
  "mine_bucket js brandNames existing parsed m category =
     (case jget parsed (category_key category) of
        Some (JArr items) \<Rightarrow> foldl (mine_item js brandNames existing category) m items
      | _ \<Rightarrow> m)"

definition mine_all :: "js_runtime \<Rightarrow> utext list \<Rightarrow> utext list \<Rightarrow> json option \<Rightarrow> mining" where
  "mine_all js brandNames existing parsed =
     (let start = \<lparr>mn_keywords = [], mn_seen = [], mn_brandCount = 0\<rparr>
      in case parsed of
           None \<Rightarrow> start
         | Some j \<Rightarrow> foldl (mine_bucket js brandNames existing j) start [CoreTerm, SceneTerm, LongtailTerm])"

definition parseMinedKeywords ::
  "js_runtime \<Rightarrow> (utext \<Rightarrow> json option) \<Rightarrow> utext \<Rightarrow> utext list \<Rightarrow> utext list \<Rightarrow> string + mined_keyword list" where
  "parseMinedKeywords js parse raw brandNames existingTerms =
     (let m = mine_all js brandNames (map (\<lambda>t. jr_lower js (js_trim t)) existingTerms) (extractJsonObject parse raw)
      in if mn_keywords m = [] then Inl ''question_pool_empty_keywords'' else Inr (mn_keywords m))"

section \<open>Question candidates\<close>

record question_candidate =
  qc_text :: utext
  qc_recommended :: bool
  qc_sourceKeywords :: "utext list"

definition question_end :: "nat \<Rightarrow> bool" where
  "question_end c \<longleftrightarrow> js_space c \<or> c \<in> set [65311, 63, 12290, 65281, 33]"

definition question_identity :: "js_runtime \<Rightarrow> utext \<Rightarrow> utext" where
  "question_identity js t = rev (dropWhile question_end (rev (jr_lower js t)))"

definition source_keywords :: "utext list \<Rightarrow> json \<Rightarrow> utext list" where
  "source_keywords terms item =
     (case jget item ''sourceKeywords'' of
        Some (JArr xs) \<Rightarrow>
          js_unique (filter (\<lambda>t. t \<noteq> [] \<and> t \<in> set terms)
            (concat (map (\<lambda>x. case x of JStr t \<Rightarrow> [js_trim t] | _ \<Rightarrow> []) xs)))
      | _ \<Rightarrow> [])"

definition question_of :: "utext list \<Rightarrow> json \<Rightarrow> question_candidate option" where
  "question_of terms item =
     (case jget item ''text'' of
        Some (JStr raw) \<Rightarrow>
          if js_trim raw = [] \<or> source_keywords terms item = [] then None
          else Some \<lparr>qc_text = js_trim raw, qc_recommended = (jget item ''recommended'' = Some (JBool True)),
                     qc_sourceKeywords = source_keywords terms item\<rparr>
      | _ \<Rightarrow> None)"

fun take_questions ::
  "js_runtime \<Rightarrow> utext list \<Rightarrow> int \<Rightarrow> utext list \<Rightarrow> question_candidate list \<Rightarrow> json list \<Rightarrow> question_candidate list" where
  "take_questions js terms limit seen acc [] = acc"
| "take_questions js terms limit seen acc (item # items) =
     (case question_of terms item of
        None \<Rightarrow> take_questions js terms limit seen acc items
      | Some q \<Rightarrow>
          let identity = question_identity js (qc_text q)
          in if identity \<in> set seen then take_questions js terms limit seen acc items
             else if limit \<le> int (length acc + 1) then acc @ [q]
             else take_questions js terms limit (identity # seen) (acc @ [q]) items)"

definition parseQuestionCandidates ::
  "js_runtime \<Rightarrow> (utext \<Rightarrow> json option) \<Rightarrow> utext \<Rightarrow> mined_keyword list \<Rightarrow> int \<Rightarrow> question_candidate list" where
  "parseQuestionCandidates js parse raw keywords limit =
     (case extractJsonObject parse raw of
        None \<Rightarrow> []
      | Some parsed \<Rightarrow>
          (case jget parsed ''questions'' of
             Some (JArr items) \<Rightarrow> take_questions js (map mk_term keywords) limit [] [] items
           | _ \<Rightarrow> []))"

section \<open>Scores\<close>

definition clampGeoScore :: "real \<Rightarrow> int" where
  "clampGeoScore x = max 0 (min 100 \<lfloor>x + 1 / 2\<rfloor>)"

definition dot_product :: "real list \<Rightarrow> real list \<Rightarrow> real" where
  "dot_product xs ys = sum_list (map2 (*) xs ys)"

definition geoCosineSimilarity :: "real list \<Rightarrow> real list \<Rightarrow> real" where
  "geoCosineSimilarity left right =
     (if left = [] \<or> length left \<noteq> length right then 0
      else if dot_product left left = 0 \<or> dot_product right right = 0 then 0
      else dot_product left right / (sqrt (dot_product left left) * sqrt (dot_product right right)))"

definition scoreGeoQuestionMatch :: "real \<Rightarrow> int" where
  "scoreGeoQuestionMatch cosine = clampGeoScore (max 0 cosine * 100)"

definition scoreGeoQuestionPotential :: "real \<Rightarrow> int" where
  "scoreGeoQuestionPotential nearest = clampGeoScore ((1 - nearest) * 50)"

datatype question_priority = HighPriority | MediumPriority | LowPriority

definition classifyGeoQuestionPriority :: "int \<Rightarrow> int \<Rightarrow> question_priority" where
  "classifyGeoQuestionPriority m potential =
     (if 150 \<le> m + potential then HighPriority else if 100 \<le> m + potential then MediumPriority else LowPriority)"

definition scoreGeoQuestionCandidate ::
  "real list option \<Rightarrow> real list option \<Rightarrow> real list list \<Rightarrow> int \<times> int \<times> question_priority" where
  "scoreGeoQuestionCandidate questionVector profileAnchorVector poolVectors =
     (case questionVector of
        None \<Rightarrow> (50, 50, MediumPriority)
      | Some q \<Rightarrow>
          let m = (case profileAnchorVector of
                     None \<Rightarrow> 50 | Some a \<Rightarrow> scoreGeoQuestionMatch (geoCosineSimilarity q a));
              nearest = (if poolVectors = [] then 0
                         else foldl (\<lambda>n v. max n (geoCosineSimilarity q v)) (-1) poolVectors);
              potential = scoreGeoQuestionPotential nearest
          in (m, potential, classifyGeoQuestionPriority m potential))"

record question_score =
  qp_relevance :: int
  qp_recentPoolSimilarity :: int
  qp_optimizationPotential :: int
  qp_priorityTotal :: int
  qp_priority :: question_priority

definition nearest_recent :: "real list \<Rightarrow> real list list \<Rightarrow> real" where
  "nearest_recent q vectors =
     (case map (geoCosineSimilarity q) vectors of [] \<Rightarrow> 0 | s # ss \<Rightarrow> foldl max s ss)"

definition scoreQuestionPoolCandidate :: "real list \<Rightarrow> real list \<Rightarrow> real list list \<Rightarrow> question_score" where
  "scoreQuestionPoolCandidate questionVector knowledgeVector recentSelectedVectors =
     (let relevance = scoreGeoQuestionMatch (geoCosineSimilarity questionVector knowledgeVector);
          nearest = nearest_recent questionVector recentSelectedVectors;
          potential = scoreGeoQuestionPotential nearest
      in \<lparr>qp_relevance = relevance,
          qp_recentPoolSimilarity = \<lfloor>max (-1) (min 1 nearest) * 100 + 1 / 2\<rfloor>,
          qp_optimizationPotential = potential, qp_priorityTotal = relevance + potential,
          qp_priority = classifyGeoQuestionPriority relevance potential\<rparr>)"

section \<open>The price filter of the contract\<close>

definition isGeoChannelQualityEligible :: "js_runtime \<Rightarrow> utext option \<Rightarrow> int option \<Rightarrow> bool" where
  "isGeoChannelQualityEligible js price perArticleMaxPoints =
     (case price of
        None \<Rightarrow> False
      | Some p \<Rightarrow>
          js_trim p \<noteq> [] \<and>
          (case jr_number js p of
             None \<Rightarrow> False
           | Some n \<Rightarrow> 0 \<le> n \<and>
               cnyToPoints n \<le> (case perArticleMaxPoints of None \<Rightarrow> DEFAULT_PER_ARTICLE_MAX_POINTS | Some m \<Rightarrow> m)))"

section \<open>Keywords\<close>

text \<open>What every state of the mining keeps.\<close>

definition mining_ok :: "js_runtime \<Rightarrow> utext list \<Rightarrow> utext list \<Rightarrow> mining \<Rightarrow> bool" where
  "mining_ok js brandNames existing m \<longleftrightarrow>
     (let ks = mn_keywords m in
      set (mn_seen m) = set (map (\<lambda>k. jr_lower js (mk_term k)) ks) \<and> distinct (map (\<lambda>k. jr_lower js (mk_term k)) ks) \<and>
      (\<forall>k\<in>set ks. term_admitted js existing [] (mk_term k)) \<and>
      length (filter (\<lambda>k. containsBrandName js brandNames (mk_term k)) ks) \<le> min BRAND_TERM_LIMIT (mn_brandCount m) \<and>
      map mk_id ks = map (\<lambda>i. ''kw-'' @ show_nat i) [1..<length ks + 1])"

lemma mine_item_ok:
  assumes "mining_ok js brandNames existing m"
  shows "mining_ok js brandNames existing (mine_item js brandNames existing category m item)"
proof (cases "\<exists>raw. jget item ''term'' = Some (JStr raw)")
  case False
  then have "mine_item js brandNames existing category m item = m"
    by (auto simp: mine_item_def split: option.splits json.splits)
  with assms show ?thesis by simp
next
  case True
  then obtain raw where raw: "jget item ''term'' = Some (JStr raw)" by blast
  let ?t = "js_trim raw"
  let ?brand = "containsBrandName js brandNames ?t"
  consider "\<not> term_admitted js existing (mn_seen m) ?t"
    | "term_admitted js existing (mn_seen m) ?t" "?brand" "BRAND_TERM_LIMIT < mn_brandCount m + 1"
    | "term_admitted js existing (mn_seen m) ?t" "\<not> (?brand \<and> BRAND_TERM_LIMIT < mn_brandCount m + 1)"
    by blast
  then show ?thesis
  proof cases
    case 1
    with assms raw show ?thesis by (simp add: mine_item_def)
  next
    case 2
    with assms raw show ?thesis by (auto simp: mine_item_def mining_ok_def Let_def)
  next
    case 3
    then have new: "jr_lower js ?t \<notin> set (mn_seen m)" "term_admitted js existing [] ?t"
      by (auto simp: term_admitted_def)
    show ?thesis
    proof (cases ?brand)
      case True
      with 3(2) have "mn_brandCount m = 0" by (auto simp: BRAND_TERM_LIMIT_def)
      with assms raw 3 new True show ?thesis
        by (auto simp: mine_item_def mining_ok_def Let_def BRAND_TERM_LIMIT_def)
    next
      case False
      with assms raw 3 new show ?thesis by (auto simp: mine_item_def mining_ok_def Let_def)
    qed
  qed
qed

lemma mine_all_ok: "mining_ok js brandNames existing (mine_all js brandNames existing parsed)"
proof -
  have items: "mining_ok js brandNames existing m \<Longrightarrow>
      mining_ok js brandNames existing (foldl (mine_item js brandNames existing category) m xs)" for m xs category
    by (induction xs arbitrary: m) (auto intro: mine_item_ok)
  have "mining_ok js brandNames existing m \<Longrightarrow>
      mining_ok js brandNames existing (mine_bucket js brandNames existing j m category)" for m j category
    by (auto simp: mine_bucket_def intro: items split: option.splits json.splits)
  then have "mining_ok js brandNames existing m \<Longrightarrow>
      mining_ok js brandNames existing (foldl (mine_bucket js brandNames existing j) m cs)" for m j cs
    by (induction cs arbitrary: m) auto
  moreover have "mining_ok js brandNames existing \<lparr>mn_keywords = [], mn_seen = [], mn_brandCount = 0\<rparr>"
    by (simp add: mining_ok_def)
  ultimately show ?thesis unfolding mine_all_def Let_def by (cases parsed) (simp_all del: foldl_Cons)
qed

text \<open>
  C33: the gate for mined keywords, whatever the language model answers. The keywords are different
  but for their case, none is known already, each is a term of 1 to 30 characters without any
  separating punctuation, at most one of them contains a brand name, and they are numbered in order.
\<close>

theorem parseMinedKeywords_gate:
  assumes "parseMinedKeywords js parse raw brandNames existing = Inr ks"
  shows "ks \<noteq> [] \<and> distinct (map (\<lambda>k. jr_lower js (mk_term k)) ks) \<and>
    (\<forall>k\<in>set ks. mk_term k \<noteq> [] \<and> length (mk_term k) \<le> TERM_MAX_CHARACTERS \<and>
       set (mk_term k) \<inter> TERM_FORBIDDEN_PUNCTUATION = {} \<and>
       jr_lower js (mk_term k) \<notin> (\<lambda>t. jr_lower js (js_trim t)) ` set existing) \<and>
    length (filter (\<lambda>k. containsBrandName js brandNames (mk_term k)) ks) \<le> 1 \<and>
    map mk_id ks = map (\<lambda>i. ''kw-'' @ show_nat i) [1..<length ks + 1]"
proof -
  let ?existing = "map (\<lambda>t. jr_lower js (js_trim t)) existing"
  have ks: "ks \<noteq> []" "ks = mn_keywords (mine_all js brandNames ?existing (extractJsonObject parse raw))"
    using assms by (auto simp: parseMinedKeywords_def Let_def split: if_splits)
  from mine_all_ok [of js brandNames ?existing "extractJsonObject parse raw"]
  have ok: "distinct (map (\<lambda>k. jr_lower js (mk_term k)) ks)" "\<forall>k\<in>set ks. term_admitted js ?existing [] (mk_term k)"
    "length (filter (\<lambda>k. containsBrandName js brandNames (mk_term k)) ks) \<le> 1"
    "map mk_id ks = map (\<lambda>i. ''kw-'' @ show_nat i) [1..<length ks + 1]"
    unfolding mining_ok_def Let_def ks(2) [symmetric] by (simp_all add: BRAND_TERM_LIMIT_def)
  from ok(2) have "\<forall>k\<in>set ks. mk_term k \<noteq> [] \<and> length (mk_term k) \<le> TERM_MAX_CHARACTERS \<and>
       set (mk_term k) \<inter> TERM_FORBIDDEN_PUNCTUATION = {} \<and>
       jr_lower js (mk_term k) \<notin> (\<lambda>t. jr_lower js (js_trim t)) ` set existing"
    by (auto simp: term_admitted_def list_all_iff)
  with ks(1) ok(1,3,4) show ?thesis by blast
qed

definition demo_keywords :: json where
  "demo_keywords =
     JObj [(''core'', JArr [JObj [(''term'', JStr (ascii ''Tea ''))], JObj [(''term'', JStr (ascii ''tea''))],
                            JObj [(''term'', JStr (ascii ''acme tea''))], JObj [(''term'', JStr (ascii ''acme cup''))]])]"

theorem parseMinedKeywords_witness:
  "\<exists>ks. parseMinedKeywords demo_js (\<lambda>t. Some demo_keywords) (ascii ''{}'') [ascii ''Acme''] [] = Inr ks \<and>
        map mk_term ks = [ascii ''Tea'', ascii ''acme tea''] \<and>
        length (filter (\<lambda>k. containsBrandName demo_js [ascii ''Acme''] (mk_term k)) ks) \<le> 1"
proof -
  let ?run = "parseMinedKeywords demo_js (\<lambda>t. Some demo_keywords) (ascii ''{}'') [ascii ''Acme''] []"
  have terms: "map_sum id (map mk_term) ?run = Inr [ascii ''Tea'', ascii ''acme tea'']" by code_simp
  then obtain ks where ks: "?run = Inr ks" "map mk_term ks = [ascii ''Tea'', ascii ''acme tea'']"
    by (cases ?run) auto
  from parseMinedKeywords_gate [OF ks(1)]
  have "length (filter (\<lambda>k. containsBrandName demo_js [ascii ''Acme''] (mk_term k)) ks) \<le> 1" by (elim conjE)
  with ks show ?thesis by (intro exI [of _ ks] conjI)
qed

text \<open>The questions: few, different, and each backed by a keyword of the pool.\<close>

lemma question_of_backed:
  "question_of terms item = Some q \<Longrightarrow>
     qc_text q \<noteq> [] \<and> qc_sourceKeywords q \<noteq> [] \<and> distinct (qc_sourceKeywords q) \<and> set (qc_sourceKeywords q) \<subseteq> set terms"
  by (auto simp: question_of_def source_keywords_def split: option.splits json.splits if_splits)

lemma take_questions_spec:
  assumes "\<forall>q\<in>set acc. \<exists>item. question_of terms item = Some q"
    and "distinct (map (\<lambda>q. question_identity js (qc_text q)) acc)" and "set seen = set (map (\<lambda>q. question_identity js (qc_text q)) acc)"
    and "int (length acc) < max 1 limit"
  shows "(\<forall>q\<in>set (take_questions js terms limit seen acc items). \<exists>item. question_of terms item = Some q) \<and>
    distinct (map (\<lambda>q. question_identity js (qc_text q)) (take_questions js terms limit seen acc items)) \<and>
    int (length (take_questions js terms limit seen acc items)) \<le> max 1 limit"
  using assms
proof (induction js terms limit seen acc items rule: take_questions.induct)
  case (2 js terms limit seen acc item items)
  show ?case
  proof (cases "question_of terms item")
    case None
    with 2 show ?thesis by simp
  next
    case (Some q)
    show ?thesis
    proof (cases "question_identity js (qc_text q) \<in> set seen")
      case True
      with Some 2 show ?thesis by simp
    next
      case False
      have q: "\<forall>q\<in>set (acc @ [q]). \<exists>item. question_of terms item = Some q" using 2(4) Some by auto
      have d: "distinct (map (\<lambda>q. question_identity js (qc_text q)) (acc @ [q]))" using 2(5,6) False by auto
      show ?thesis
      proof (cases "limit \<le> int (length acc + 1)")
        case True
        with Some False q d 2(7) show ?thesis by auto
      next
        case False': False
        with Some False q d 2(3) [OF Some refl False False' q d] 2(6) show ?thesis by auto
      qed
    qed
  qed
qed auto

theorem parseQuestionCandidates_gate:
  assumes "qs = parseQuestionCandidates js parse raw keywords limit"
  shows "int (length qs) \<le> max 1 limit \<and> distinct (map (\<lambda>q. question_identity js (qc_text q)) qs) \<and>
    (\<forall>q\<in>set qs. qc_text q \<noteq> [] \<and> qc_sourceKeywords q \<noteq> [] \<and> distinct (qc_sourceKeywords q) \<and>
       set (qc_sourceKeywords q) \<subseteq> mk_term ` set keywords)"
proof -
  have "(\<forall>q\<in>set qs. \<exists>item. question_of (map mk_term keywords) item = Some q) \<and>
      distinct (map (\<lambda>q. question_identity js (qc_text q)) qs) \<and> int (length qs) \<le> max 1 limit"
    using take_questions_spec [of "[]" "map mk_term keywords" js "[]" limit]
    by (auto simp: assms parseQuestionCandidates_def split: option.splits json.splits)
  then show ?thesis by (fastforce dest: question_of_backed)
qed

section \<open>Scores are percentages\<close>

lemma dot_self_nonneg: "0 \<le> dot_product xs xs"
  by (induction xs) (simp_all add: dot_product_def)

lemma dot_product_Cons [simp]: "dot_product (x # xs) (y # ys) = x * y + dot_product xs ys"
  by (simp add: dot_product_def)

lemma dot_product_scale:
  "dot_product xs (map ((*) c) ys) = c * dot_product xs ys"
  "dot_product (map ((*) c) ys) xs = c * dot_product ys xs"
proof -
  show "dot_product xs (map ((*) c) ys) = c * dot_product xs ys"
    by (induction xs ys rule: list_induct2') (simp_all add: dot_product_def algebra_simps)
  show "dot_product (map ((*) c) ys) xs = c * dot_product ys xs"
    by (induction ys xs rule: list_induct2') (simp_all add: dot_product_def algebra_simps)
qed

text \<open>The inequality of Cauchy and Schwarz.\<close>

lemma four_product: "4 * a * b \<le> (a + b)\<^sup>2" for a b :: real
  using zero_le_power2 [of "a - b"] by (simp add: power2_eq_square algebra_simps)

lemma dot_product_bound:
  "length xs = length ys \<Longrightarrow> (dot_product xs ys)\<^sup>2 \<le> dot_product xs xs * dot_product ys ys"
proof (induction xs ys rule: list_induct2)
  case (Cons x xs y ys)
  let ?A = "dot_product xs xs" and ?B = "dot_product ys ys" and ?C = "dot_product xs ys"
  have nonneg: "0 \<le> ?A" "0 \<le> ?B" by (simp_all add: dot_self_nonneg)
  let ?u = "x\<^sup>2 * ?B + y\<^sup>2 * ?A"
  have "(2 * x * y * ?C)\<^sup>2 = 4 * (x\<^sup>2 * y\<^sup>2) * ?C\<^sup>2" by (simp add: power_mult_distrib)
  also have "\<dots> \<le> 4 * (x\<^sup>2 * y\<^sup>2) * (?A * ?B)" using Cons.IH by (intro mult_left_mono) simp_all
  also have "\<dots> = 4 * (x\<^sup>2 * ?B) * (y\<^sup>2 * ?A)" by simp
  also have "\<dots> \<le> ?u\<^sup>2"
    by (rule four_product)
  finally have "2 * x * y * ?C \<le> ?u"
    by (rule power2_le_imp_le) (use nonneg in simp)
  then have "(x * y + ?C)\<^sup>2 \<le> (x\<^sup>2 + ?A) * (y\<^sup>2 + ?B)"
    using Cons.IH by (simp add: power2_eq_square algebra_simps)
  then show ?case by (simp add: power2_eq_square)
qed (simp add: dot_product_def)

lemma cosine_bounds: "\<bar>geoCosineSimilarity xs ys\<bar> \<le> 1"
proof (cases "xs \<noteq> [] \<and> length xs = length ys \<and> dot_product xs xs \<noteq> 0 \<and> dot_product ys ys \<noteq> 0")
  case True
  let ?n = "sqrt (dot_product xs xs) * sqrt (dot_product ys ys)"
  have pos: "0 < ?n" using True dot_self_nonneg [of xs] dot_self_nonneg [of ys] by simp
  have "\<bar>dot_product xs ys\<bar> = sqrt ((dot_product xs ys)\<^sup>2)" by simp
  also have "\<dots> \<le> sqrt (dot_product xs xs * dot_product ys ys)"
    using True dot_product_bound by (simp del: real_sqrt_abs)
  finally have "\<bar>dot_product xs ys\<bar> \<le> ?n" by (simp add: real_sqrt_mult)
  then show ?thesis using True pos by (simp add: geoCosineSimilarity_def abs_divide)
qed (auto simp: geoCosineSimilarity_def)

lemma cosine_of_multiple:
  assumes "0 < c" and "dot_product q q \<noteq> 0"
  shows "geoCosineSimilarity q (map ((*) c) q) = 1"
proof -
  have "q \<noteq> []" using assms(2) by (auto simp: dot_product_def)
  moreover have "sqrt (dot_product q q) * sqrt (c * (c * dot_product q q)) = c * dot_product q q"
  proof -
    have "sqrt (dot_product q q) * sqrt (c * (c * dot_product q q)) = sqrt ((c * dot_product q q)\<^sup>2)"
      by (simp only: real_sqrt_mult [symmetric] power2_eq_square mult_ac)
    then show ?thesis using assms(1) dot_self_nonneg [of q] by simp
  qed
  ultimately show ?thesis using assms by (simp add: geoCosineSimilarity_def dot_product_scale)
qed

lemma foldl_max: "foldl max (a :: real) xs = Max (insert a (set xs))"
proof (induction xs arbitrary: a)
  case (Cons x xs)
  have "Max (insert (max a x) (set xs)) = Max (insert a (insert x (set xs)))"
    by (cases "set xs = {}") (simp_all add: max.assoc)
  with Cons show ?case by simp
qed simp

lemma nearest_recent_max:
  "vs \<noteq> [] \<Longrightarrow> nearest_recent q vs = Max (geoCosineSimilarity q ` set vs)"
  by (cases vs) (simp_all add: nearest_recent_def foldl_max)

lemma reference_nearest:
  assumes "vs \<noteq> []"
  shows "foldl (\<lambda>n v. max n (geoCosineSimilarity q v)) (-1) vs = nearest_recent q vs"
proof -
  have "foldl (\<lambda>n v. max n (geoCosineSimilarity q v)) a us = foldl max a (map (geoCosineSimilarity q) us)" for a us
    by (induction us arbitrary: a) simp_all
  moreover from assms obtain v ws where vs: "vs = v # ws" by (cases vs) auto
  moreover have "-1 \<le> geoCosineSimilarity q v" using cosine_bounds [of q v] by (simp add: abs_le_iff)
  ultimately show ?thesis by (simp add: nearest_recent_def max_absorb2)
qed

lemma nearest_recent_bounds: "-1 \<le> nearest_recent q vs \<and> nearest_recent q vs \<le> 1"
proof (cases "vs = []")
  case False
  then have "nearest_recent q vs \<in> geoCosineSimilarity q ` set vs"
    by (simp add: nearest_recent_max del: image_insert)
  then show ?thesis using cosine_bounds [of q] by (auto simp: abs_le_iff)
qed (simp add: nearest_recent_def)



text \<open>
  The filter of the contract is the price part of the approved pool: a readable price within the
  limit per article.
\<close>

theorem isGeoChannelQualityEligible_price:
  "isGeoChannelQualityEligible js price limit \<longleftrightarrow>
     (\<exists>n. parsePrice js price = Some n \<and>
        cnyToPoints n \<le> (case limit of None \<Rightarrow> DEFAULT_PER_ARTICLE_MAX_POINTS | Some m \<Rightarrow> m))"
  by (auto simp: isGeoChannelQualityEligible_def parsePrice_def split: option.splits)

end
