(* ===== verification/Roster.thy ===== *)
theory Roster
  imports Distribution
begin

text \<open>
  The list of competitors, \<open>src/shared/geo/competitorRoster.ts\<close>, on top of the brand profile of
  \<open>src/shared/geo/profileInjection.ts\<close>: the identity keys, the two tiers that a ranking article draws its
  five names from, the test for names of one brand, the removal of the brand from its own lists, and
  the old evidence headers. \<open>JSON.parse\<close> is an argument (\<open>None\<close> when it throws).
\<close>

section \<open>The profile\<close>

datatype profile_field =
    FullName | ShortNames | Addresses | ServiceArea | IndustryField | Products | RelatedBrands | Competitors
  | PotentialCompetitors | TargetCustomers | CoreAdvantages | TrustEndorsements | CustomerPainPoints
  | CustomerCases | ContactInfo | DerivedKeywords

definition field_name :: "profile_field \<Rightarrow> string" where
  "field_name f =
     (case f of
        FullName \<Rightarrow> ''fullName'' | ShortNames \<Rightarrow> ''shortNames'' | Addresses \<Rightarrow> ''addresses''
      | ServiceArea \<Rightarrow> ''serviceArea'' | IndustryField \<Rightarrow> ''industry'' | Products \<Rightarrow> ''products''
      | RelatedBrands \<Rightarrow> ''relatedBrands'' | Competitors \<Rightarrow> ''competitors''
      | PotentialCompetitors \<Rightarrow> ''potentialCompetitors'' | TargetCustomers \<Rightarrow> ''targetCustomers''
      | CoreAdvantages \<Rightarrow> ''coreAdvantages'' | TrustEndorsements \<Rightarrow> ''trustEndorsements''
      | CustomerPainPoints \<Rightarrow> ''customerPainPoints'' | CustomerCases \<Rightarrow> ''customerCases''
      | ContactInfo \<Rightarrow> ''contactInfo'' | DerivedKeywords \<Rightarrow> ''derivedKeywords'')"

record profile_fact =
  bf_predicate :: utext
  bf_normalizedValueJson :: utext

definition parseFactValue :: "(utext \<Rightarrow> json option) \<Rightarrow> profile_fact \<Rightarrow> json" where
  "parseFactValue parse fc =
     (case parse (bf_normalizedValueJson fc) of Some j \<Rightarrow> j | None \<Rightarrow> JStr (bf_normalizedValueJson fc))"

definition stringValues :: "json \<Rightarrow> utext list" where
  "stringValues j =
     (case j of
        JStr t \<Rightarrow> if js_trim t = [] then [] else [js_trim t]
      | JArr xs \<Rightarrow> filter (\<lambda>t. t \<noteq> []) (concat (map (\<lambda>x. case x of JStr t \<Rightarrow> [js_trim t] | _ \<Rightarrow> []) xs))
      | _ \<Rightarrow> [])"

text \<open>A missing field of the profile is the empty list.\<close>

definition profileValues ::
  "js_runtime \<Rightarrow> (utext \<Rightarrow> json option) \<Rightarrow> profile_fact list \<Rightarrow> profile_field \<Rightarrow> utext list" where
  "profileValues js parse facts f =
     js_unique (concat (map (\<lambda>fc. stringValues (parseFactValue parse fc))
       (filter (\<lambda>fc. text_suffix (46 # jr_lower js (ascii (field_name f))) (jr_lower js (bf_predicate fc))) facts)))"

definition firstConfirmedProfileValue :: "(profile_field \<Rightarrow> utext list) \<Rightarrow> profile_field list \<Rightarrow> utext option" where
  "firstConfirmedProfileValue profile order =
     (case concat (map (\<lambda>f. take 1 (profile f)) order) of [] \<Rightarrow> None | v # _ \<Rightarrow> Some v)"

definition resolveBrandName :: "(profile_field \<Rightarrow> utext list) \<Rightarrow> utext \<Rightarrow> utext" where
  "resolveBrandName profile workspaceName =
     (case firstConfirmedProfileValue profile [FullName, ShortNames] of Some v \<Rightarrow> v | None \<Rightarrow> workspaceName)"

definition resolveRankingTargetBrand :: "(profile_field \<Rightarrow> utext list) \<Rightarrow> utext \<Rightarrow> utext" where
  "resolveRankingTargetBrand profile workspaceName =
     (case firstConfirmedProfileValue profile [ShortNames, FullName] of Some v \<Rightarrow> v | None \<Rightarrow> workspaceName)"

section \<open>Identity keys\<close>

definition fold_width :: "nat \<Rightarrow> nat" where
  "fold_width c = (if 65281 \<le> c \<and> c \<le> 65374 then c - 65248 else if c = 12288 then 32 else c)"

definition foldFullWidthAndLowercase :: "js_runtime \<Rightarrow> utext \<Rightarrow> utext" where
  "foldFullWidthAndLowercase js t = filter (\<lambda>c. \<not> js_space c) (jr_lower js (map fold_width t))"

definition rosterIdentityKey :: "js_runtime \<Rightarrow> utext \<Rightarrow> utext" where
  "rosterIdentityKey js t = foldFullWidthAndLowercase js (filter (\<lambda>c. c \<notin> set [42, 96, 95,
    126]) t)"

definition TRADITIONAL_TO_SIMPLIFIED :: "(nat \<times> nat) list" where
  "TRADITIONAL_TO_SIMPLIFIED =
    [
     (37002, 36793), (39854, 40092), (35352, 35760), (38918, 39034), (24291, 24191), (26481, 19996),
      (29138, 28903), (38622, 40481), (39770, 40060), (35948, 29482), (40565, 21348), (27284,
      26723), (39208, 39302), (24307, 21381), (20491, 20010), (38515, 38472), (40643, 40644),
      (33865, 21494), (33836, 19975), (33288, 20852), (35920, 20016), (23527, 23425), (40845,
      40857), (40179, 20964), (40629, 38754), (39151, 39277), (38642, 20113), (28771, 28286),
      (38272, 38376), (36554, 36710), (22580, 22330), (27138, 20048), (32227, 32536), (38263,
      38271), (38525, 38451), (37528, 38125), (37586, 38155), (33775, 21326), (32879, 32852),
      (29128, 28783), (29200, 28809), (37707, 38149), (40573, 30416), (37292, 37233), (33240,
      33098), (40232, 40493), (40285, 40517), (37670, 38182), (34349, 20848), (25033, 24212),
      (38555, 38469), (32026, 32423), (32113, 32479), (37559, 38144), (24288, 21378), (26989, 19994)]"

definition toSimplifiedChinese :: "utext \<Rightarrow> utext" where
  "toSimplifiedChinese t =
     map (\<lambda>c. case map_of TRADITIONAL_TO_SIMPLIFIED c of Some d \<Rightarrow> d | None \<Rightarrow> c) t"

definition bracket_here :: "utext \<Rightarrow> utext option" where
  "bracket_here t =
     (case t of
        [] \<Rightarrow> None
      | c # r \<Rightarrow>
          let inside = (\<lambda>d. d \<notin> set [65288, 40, 12304, 91, 65341, 65289, 41, 12305, 93])
          in if c \<notin> set [65288, 40, 12304, 91, 65339] then None
             else case dropWhile inside r of
                    [] \<Rightarrow> None
                  | d # rest \<Rightarrow> if d \<in> set [65289, 41, 12305, 93] then Some rest else None)"

function remove_brackets :: "utext \<Rightarrow> utext" where
  "remove_brackets [] = []"
| "remove_brackets (c # t) =
     (case bracket_here (c # t) of Some rest \<Rightarrow> remove_brackets rest | None \<Rightarrow> c # remove_brackets t)"
  by pat_completeness auto
termination
proof (relation "measure length", goal_cases)
  case (3 c t rest)
  then have "\<exists>p d. dropWhile p t = d # rest"
    by (auto simp: bracket_here_def Let_def split: if_splits list.splits)
  then obtain p d where "dropWhile p t = d # rest" by blast
  then have "length (d # rest) \<le> length t" by (metis length_dropWhile_le)
  then show ?case by simp
qed simp_all

definition competitorIdentityKey :: "js_runtime \<Rightarrow> utext \<Rightarrow> utext" where
  "competitorIdentityKey js t = jr_lower js (js_trim (remove_brackets (toSimplifiedChinese t)))"

section \<open>The ranking roster\<close>

definition RANKING_COMPETITORS_INSUFFICIENT_CODE :: string where
  "RANKING_COMPETITORS_INSUFFICIENT_CODE = ''article_generation_ranking_competitors_insufficient''"

definition RANKING_COMPETITORS_REQUIRED_COUNT :: nat where
  "RANKING_COMPETITORS_REQUIRED_COUNT = 5"

record roster_identity =
  id_workspaceBrandName :: utext
  id_fullNames :: "utext list"
  id_shortNames :: "utext list"
  id_relatedBrands :: "utext list"

definition sameOrNestedEntityName :: "utext \<Rightarrow> utext \<Rightarrow> bool" where
  "sameOrNestedEntityName left right \<longleftrightarrow> left = right \<or> text_includes left right \<or> text_includes right left"

definition excluded_keys :: "js_runtime \<Rightarrow> roster_identity \<Rightarrow> utext list" where
  "excluded_keys js identity =
     filter (\<lambda>k. k \<noteq> []) (map (rosterIdentityKey js)
       (id_workspaceBrandName identity # id_fullNames identity @ id_shortNames identity @ id_relatedBrands identity))"

fun admit_names :: "js_runtime \<Rightarrow> utext list \<Rightarrow> utext list \<Rightarrow> utext list \<Rightarrow> utext list" where
  "admit_names js excluded seen [] = []"
| "admit_names js excluded seen (name # names) =
     (let key = rosterIdentityKey js name
      in if key = [] \<or> key \<in> set seen \<or> list_ex (sameOrNestedEntityName key) excluded
         then admit_names js excluded seen names
         else name # admit_names js excluded (key # seen) names)"

definition filterValidRankingCompetitors :: "js_runtime \<Rightarrow> utext list \<Rightarrow> roster_identity \<Rightarrow> utext list" where
  "filterValidRankingCompetitors js names identity = admit_names js (excluded_keys js identity) [] names"

definition mergeRankingCompetitorTiers ::
  "js_runtime \<Rightarrow> utext list \<Rightarrow> utext list \<Rightarrow> roster_identity \<Rightarrow> utext list" where
  "mergeRankingCompetitorTiers js directNames potentialNames identity =
     (let direct = filterValidRankingCompetitors js directNames identity;
          directNormalized = map (rosterIdentityKey js) direct
      in direct @ filter (\<lambda>name. \<not> list_ex (sameOrNestedEntityName (rosterIdentityKey js name)) directNormalized)
           (filterValidRankingCompetitors js potentialNames identity))"

record ranking_roster =
  rr_targetBrand :: utext
  rr_competitors :: "utext list"

definition profile_identity :: "(profile_field \<Rightarrow> utext list) \<Rightarrow> utext \<Rightarrow> roster_identity" where
  "profile_identity profile workspaceBrandName =
     \<lparr>id_workspaceBrandName = workspaceBrandName, id_fullNames = profile FullName,
      id_shortNames = profile ShortNames, id_relatedBrands = profile RelatedBrands\<rparr>"

definition resolveRankingRoster ::
  "js_runtime \<Rightarrow> (utext \<Rightarrow> json option) \<Rightarrow> profile_fact list \<Rightarrow> utext \<Rightarrow> string + ranking_roster" where
  "resolveRankingRoster js parse facts workspaceBrandName =
     (let profile = profileValues js parse facts;
          competitors = mergeRankingCompetitorTiers js (profile Competitors) (profile PotentialCompetitors)
                          (profile_identity profile workspaceBrandName)
      in if length competitors < RANKING_COMPETITORS_REQUIRED_COUNT
         then Inl (RANKING_COMPETITORS_INSUFFICIENT_CODE @ '':'' @ show_nat (length competitors))
         else Inr \<lparr>rr_targetBrand = js_trim (resolveRankingTargetBrand profile workspaceBrandName),
                   rr_competitors = take RANKING_COMPETITORS_REQUIRED_COUNT competitors\<rparr>)"

definition titleRedLineCompetitors :: "utext list \<Rightarrow> utext list \<Rightarrow> utext list" where
  "titleRedLineCompetitors directNames potentialNames = directNames @ potentialNames"

section \<open>The rows of the card\<close>

definition isDirectCompetitorTierField :: "string \<Rightarrow> bool" where
  "isDirectCompetitorTierField f \<longleftrightarrow> f = ''competitors''"

definition isPotentialCompetitorTierField :: "string \<Rightarrow> bool" where
  "isPotentialCompetitorTierField f \<longleftrightarrow> f = ''potentialCompetitors''"

definition isCompetitorTierField :: "string \<Rightarrow> bool" where
  "isCompetitorTierField f \<longleftrightarrow> isDirectCompetitorTierField f \<or> isPotentialCompetitorTierField f"

definition competitorCardRowField :: "string \<Rightarrow> string" where
  "competitorCardRowField f = (if isPotentialCompetitorTierField f then ''competitors'' else f)"

definition competitorCardTierOrder :: "string \<Rightarrow> nat" where
  "competitorCardTierOrder f = (if isPotentialCompetitorTierField f then 1 else 0)"

definition competitorCardPotentialDividerAt :: "string list \<Rightarrow> nat option" where
  "competitorCardPotentialDividerAt fs =
     (let before = takeWhile (\<lambda>f. \<not> isPotentialCompetitorTierField f) fs
      in if length before < length fs then Some (length before) else None)"

section \<open>Names of one brand\<close>

text \<open>The forms of a company at the end of a registered name: a line of business, a group, shares.\<close>

definition COMPANY_FORMS :: "utext list" where
  "COMPANY_FORMS =
     [biz @ grp @ stock @ [26377, 38480] @ liab @ [20844, 21496].
       biz \<leftarrow> [[39184, 39278, 31649, 29702], [39184, 39278, 26381, 21153], [20225, 19994, 31649,
         29702], [39135, 21697], [20379, 24212, 38142], [31185, 25216], [20449, 24687, 25216, 26415], []],
       grp \<leftarrow> [[38598, 22242], []], stock \<leftarrow> [[32929, 20221], []], liab \<leftarrow>
         [[36131, 20219], []]]"

fun strip_company :: "utext \<Rightarrow> utext" where
  "strip_company [] = []"
| "strip_company (c # t) = (if c # t \<in> set COMPANY_FORMS then [] else c # strip_company t)"

definition brand_key :: "js_runtime \<Rightarrow> utext \<Rightarrow> utext" where
  "brand_key js t =
     (let key = competitorIdentityKey js t; stripped = strip_company key
      in if 3 \<le> utf16_length stripped then stripped else key)"

definition strip_unit :: "utext \<Rightarrow> utext" where
  "strip_unit t = (if t \<noteq> [] \<and> last t \<in> set [30465, 24066, 21306, 21439] then butlast t else
    t)"

definition region_variants :: "js_runtime \<Rightarrow> utext list \<Rightarrow> utext list" where
  "region_variants js hints =
     js_unique (filter (\<lambda>v. v \<noteq> []) (concat (map (\<lambda>h. [brand_key js h, strip_unit (brand_key js h)]) hints)))"

definition name_segments :: "js_runtime \<Rightarrow> utext list \<Rightarrow> utext \<Rightarrow> utext list" where
  "name_segments js hints t =
     filter (\<lambda>s. 2 \<le> utf16_length s \<and>
         \<not> list_ex (\<lambda>v. text_includes s v \<or> text_includes v s) (region_variants js hints))
       (map (brand_key js) (split_at (\<lambda>c. c \<in> {183, 12539, 8231, 8226}) t))"

definition sameBrandIdentity :: "js_runtime \<Rightarrow> utext \<Rightarrow> utext \<Rightarrow> utext list \<Rightarrow> bool" where
  "sameBrandIdentity js a b hints \<longleftrightarrow>
     (let ka = brand_key js a; kb = brand_key js b
      in ka \<noteq> [] \<and> kb \<noteq> [] \<and>
         (ka = kb \<or> text_includes ka kb \<or> text_includes kb ka \<or>
          list_ex (text_includes kb) (name_segments js hints a) \<or>
          list_ex (text_includes ka) (name_segments js hints b)))"

definition roster_cjk :: "nat \<Rightarrow> bool" where
  "roster_cjk c \<longleftrightarrow> 13312 \<le> c \<and> c \<le> 40959 \<or> 63744 \<le> c \<and> c \<le> 64255"

fun multisetDifference :: "utext \<Rightarrow> utext \<Rightarrow> nat" where
  "multisetDifference left [] = 0"
| "multisetDifference left (c # right) =
     (if c \<in> set left then multisetDifference (remove1 c left) right else Suc (multisetDifference left right))"

definition isSimilarSelfName :: "utext \<Rightarrow> utext \<Rightarrow> bool" where
  "isSimilarSelfName candidate self =
     (let left = filter (\<lambda>c. \<not> js_space c) candidate; right = filter (\<lambda>c. \<not> js_space c) self
      in utf16_length left = utf16_length right \<and> 2 \<le> utf16_length left \<and> utf16_length left \<le> 4 \<and>
         list_ex roster_cjk left \<and> list_ex roster_cjk right \<and> multisetDifference left right \<le> 1)"

datatype fact_value = OneValue utext | ManyValues "utext list"

record roster_fact =
  rf_field :: string
  rf_value :: fact_value

definition fact_values :: "roster_fact \<Rightarrow> utext list" where
  "fact_values fc = (case rf_value fc of OneValue v \<Rightarrow> [v] | ManyValues vs \<Rightarrow> vs)"

definition self_key :: "js_runtime \<Rightarrow> utext \<Rightarrow> utext" where
  "self_key js t = jr_lower js (js_trim t)"

definition self_names :: "js_runtime \<Rightarrow> utext \<Rightarrow> roster_fact list \<Rightarrow> utext list" where
  "self_names js brandName facts =
     js_unique (filter (\<lambda>n. 2 \<le> utf16_length n) (map (self_key js)
       (brandName # concat (map fact_values (filter (\<lambda>f. rf_field f \<in> {''fullName'', ''shortNames''}) facts)))))"

definition is_self :: "js_runtime \<Rightarrow> utext list \<Rightarrow> utext \<Rightarrow> bool" where
  "is_self js selfNames t \<longleftrightarrow>
     (let n = self_key js t
      in 2 \<le> utf16_length n \<and>
         list_ex (\<lambda>s. s = n \<or> text_includes s n \<or> text_includes n s \<or> isSimilarSelfName n s) selfNames)"

definition roster_field :: "string \<Rightarrow> bool" where
  "roster_field f \<longleftrightarrow> f \<in> {''relatedBrands'', ''competitors'', ''potentialCompetitors''}"

definition drop_self :: "js_runtime \<Rightarrow> utext list \<Rightarrow> roster_fact \<Rightarrow> roster_fact list" where
  "drop_self js selfNames fc =
     (if \<not> roster_field (rf_field fc) then [fc]
      else let kept = filter (\<lambda>v. \<not> is_self js selfNames v) (fact_values fc)
           in if length kept = length (fact_values fc) then [fc]
              else if kept \<noteq> [] then [fc\<lparr>rf_value := ManyValues kept\<rparr>] else [])"

definition dropSelfReferences :: "js_runtime \<Rightarrow> utext \<Rightarrow> roster_fact list \<Rightarrow> roster_fact list" where
  "dropSelfReferences js brandName facts = concat (map (drop_self js (self_names js brandName facts)) facts)"

section \<open>Old evidence headers\<close>

record competitor_detail =
  cp_name :: utext
  cp_region :: utext
  cp_similarBusiness :: utext

definition COMPETITOR_DETAILS_PREFIX :: utext where
  "COMPETITOR_DETAILS_PREFIX = ascii ''[[xiaojing-competitor-details:v1]]''"

definition COMPETITOR_DETAILS_LIMIT :: nat where
  "COMPETITOR_DETAILS_LIMIT = 20"

definition trimmed_field :: "json \<Rightarrow> string \<Rightarrow> utext" where
  "trimmed_field item k = (case jget item k of Some (JStr t) \<Rightarrow> js_trim t | _ \<Rightarrow> [])"

fun keep_details :: "js_runtime \<Rightarrow> utext list \<Rightarrow> json list \<Rightarrow> competitor_detail list" where
  "keep_details js seen [] = []"
| "keep_details js seen (item # items) =
     (let name = trimmed_field item ''name''; region = trimmed_field item ''region'';
          similar = trimmed_field item ''similarBusiness''; token = jr_lower js name
      in if name = [] \<or> region = [] \<or> similar = [] \<or> token \<in> set seen then keep_details js seen items
         else \<lparr>cp_name = name, cp_region = region, cp_similarBusiness = similar\<rparr> #
              keep_details js (token # seen) items)"

definition normalizeDetails :: "js_runtime \<Rightarrow> json \<Rightarrow> competitor_detail list" where
  "normalizeDetails js input =
     (case input of JArr items \<Rightarrow> keep_details js [] (take COMPETITOR_DETAILS_LIMIT items) | _ \<Rightarrow> [])"

definition decodeCompetitorEvidence ::
  "js_runtime \<Rightarrow> (utext \<Rightarrow> json option) \<Rightarrow> utext \<Rightarrow> competitor_detail list \<times> utext" where
  "decodeCompetitorEvidence js parse excerpt =
     (case strip_prefix COMPETITOR_DETAILS_PREFIX excerpt of
        None \<Rightarrow> ([], excerpt)
      | Some r \<Rightarrow>
          ((case parse (takeWhile (\<lambda>c. c \<noteq> 10) r) of None \<Rightarrow> [] | Some j \<Rightarrow> normalizeDetails js j),
           drop 1 (dropWhile (\<lambda>c. c \<noteq> 10) r)))"

definition collectCompetitorDetails ::
  "js_runtime \<Rightarrow> (utext \<Rightarrow> json option) \<Rightarrow> utext list \<Rightarrow> competitor_detail list" where
  "collectCompetitorDetails js parse excerpts =
     last_per_key (\<lambda>d. jr_lower js (cp_name d)) (concat (map (\<lambda>e. fst (decodeCompetitorEvidence js parse e)) excerpts))"

definition formatCompetitorDisplayNames :: "js_runtime \<Rightarrow> utext list \<Rightarrow> competitor_detail list \<Rightarrow> utext list" where
  "formatCompetitorDisplayNames js names details =
     map (\<lambda>name. case map_of (rev (map (\<lambda>d. (jr_lower js (cp_name d), d)) details)) (self_key js name) of
         None \<Rightarrow> name
       | Some d \<Rightarrow> cp_name d @ [65372] @ cp_region d @ [65372] @ cp_similarBusiness d) names"

definition formatCompetitorFactValue ::
  "js_runtime \<Rightarrow> (utext \<Rightarrow> json option) \<Rightarrow> utext list \<Rightarrow> utext list \<Rightarrow> utext list" where
  "formatCompetitorFactValue js parse names excerpts =
     formatCompetitorDisplayNames js names (collectCompetitorDetails js parse excerpts)"

section \<open>Facts\<close>

lemma admit_names_spec:
  "set (admit_names js excluded seen names) \<subseteq> set names \<and>
   distinct (map (rosterIdentityKey js) (admit_names js excluded seen names)) \<and>
   (\<forall>n\<in>set (admit_names js excluded seen names).
      rosterIdentityKey js n \<notin> set seen \<and> rosterIdentityKey js n \<noteq> [] \<and>
      (\<forall>k\<in>set excluded. \<not> sameOrNestedEntityName (rosterIdentityKey js n) k))"
proof (induction js excluded seen names rule: admit_names.induct)
  case (2 js excluded seen name names)
  let ?k = "rosterIdentityKey js name"
  show ?case
  proof (cases "?k = [] \<or> ?k \<in> set seen \<or> list_ex (sameOrNestedEntityName ?k) excluded")
    case True
    then have "admit_names js excluded seen (name # names) = admit_names js excluded seen names" by (simp add: Let_def)
    with 2(1) [OF refl True] show ?thesis by auto
  next
    case False
    then have "admit_names js excluded seen (name # names) = name # admit_names js excluded (?k # seen) names"
      by (simp add: Let_def)
    with 2(2) [OF refl False] False show ?thesis by (fastforce simp: list_ex_iff)
  qed
qed simp

text \<open>Nothing that may enter is left out: its key is taken by an admitted name.\<close>

lemma admit_names_complete:
  assumes "n \<in> set names" and "rosterIdentityKey js n \<noteq> []"
    and "\<forall>k\<in>set excluded. \<not> sameOrNestedEntityName (rosterIdentityKey js n) k"
  shows "rosterIdentityKey js n \<in> set seen \<union> set (map (rosterIdentityKey js) (admit_names js excluded seen names))"
  using assms
proof (induction js excluded seen names rule: admit_names.induct)
  case (2 js excluded seen name names)
  let ?k = "rosterIdentityKey js name"
  show ?case
  proof (cases "?k = [] \<or> ?k \<in> set seen \<or> list_ex (sameOrNestedEntityName ?k) excluded")
    case True
    have "n = name \<Longrightarrow> rosterIdentityKey js n \<in> set seen" using True 2(4,5) by (auto simp: list_ex_iff)
    with True 2 show ?thesis by (cases "n = name") (simp_all add: Let_def)
  next
    case False
    with 2 show ?thesis by (cases "n = name") (simp_all add: Let_def)
  qed
qed simp

lemma nested_refl: "sameOrNestedEntityName k k"
  by (simp add: sameOrNestedEntityName_def)

definition roster_valid :: "js_runtime \<Rightarrow> roster_identity \<Rightarrow> utext \<Rightarrow> bool" where
  "roster_valid js identity n \<longleftrightarrow>
     rosterIdentityKey js n \<noteq> [] \<and>
     (\<forall>k\<in>set (excluded_keys js identity). \<not> sameOrNestedEntityName (rosterIdentityKey js n) k)"

lemma filterValid_spec:
  "set (filterValidRankingCompetitors js names identity) \<subseteq> set names"
  "distinct (map (rosterIdentityKey js) (filterValidRankingCompetitors js names identity))"
  "n \<in> set (filterValidRankingCompetitors js names identity) \<Longrightarrow> roster_valid js identity n"
  "n \<in> set names \<Longrightarrow> roster_valid js identity n \<Longrightarrow>
     rosterIdentityKey js n \<in> rosterIdentityKey js ` set (filterValidRankingCompetitors js names identity)"
  using admit_names_spec [of js "excluded_keys js identity" "[]" names]
    admit_names_complete [of n names js "excluded_keys js identity" "[]"]
  by (auto simp: filterValidRankingCompetitors_def roster_valid_def)

lemma mergeRankingCompetitorTiers_spec:
  "\<exists>ds ps. mergeRankingCompetitorTiers js direct potential identity = ds @ ps \<and> ds = filterValidRankingCompetitors js direct identity \<and>
    set ps \<subseteq> set potential \<and> (\<forall>n\<in>set (ds @ ps). roster_valid js identity n) \<and>
    distinct (map (rosterIdentityKey js) (ds @ ps)) \<and>
    (\<forall>d\<in>set ds. \<forall>p\<in>set ps. \<not> sameOrNestedEntityName (rosterIdentityKey js p) (rosterIdentityKey js d))"
proof -
  let ?ds = "filterValidRankingCompetitors js direct identity"
  let ?all = "filterValidRankingCompetitors js potential identity"
  let ?ps = "filter (\<lambda>name. \<not> list_ex (sameOrNestedEntityName (rosterIdentityKey js name)) (map (rosterIdentityKey js) ?ds)) ?all"
  have apart: "\<forall>d\<in>set ?ds. \<forall>p\<in>set ?ps. \<not> sameOrNestedEntityName (rosterIdentityKey js p) (rosterIdentityKey js d)"
    by (auto simp: list_ex_iff)
  then have disjoint: "set (map (rosterIdentityKey js) ?ds) \<inter> set (map (rosterIdentityKey js) ?ps) = {}"
    using nested_refl by fastforce
  have "distinct (map (rosterIdentityKey js) ?ps)"
    using filterValid_spec(2) [of js potential identity] by (simp add: distinct_map_filter)
  with disjoint have "distinct (map (rosterIdentityKey js) (?ds @ ?ps))"
    using filterValid_spec(2) [of js direct identity] by simp
  moreover have "\<forall>n\<in>set (?ds @ ?ps). roster_valid js identity n" by (auto intro: filterValid_spec(3))
  moreover have "set ?ps \<subseteq> set potential" using filterValid_spec(1) [of js potential identity] by auto
  moreover have "mergeRankingCompetitorTiers js direct potential identity = ?ds @ ?ps"
    by (simp add: mergeRankingCompetitorTiers_def Let_def)
  ultimately show ?thesis using apart by blast
qed


definition demo_fact :: "string \<Rightarrow> string \<Rightarrow> profile_fact" where
  "demo_fact field v = \<lparr>bf_predicate = ascii (''p.'' @ field), bf_normalizedValueJson = ascii v\<rparr>"

definition demo_facts :: "profile_fact list" where
  "demo_facts = [demo_fact ''shortnames'' ''Aa'', demo_fact ''competitors'' ''Bee'', demo_fact ''competitors'' ''Aab'',
     demo_fact ''potentialcompetitors'' ''Be'', demo_fact ''potentialcompetitors'' ''Cc'',
     demo_fact ''potentialcompetitors'' ''Dd'', demo_fact ''potentialcompetitors'' ''Gg'', demo_fact ''competitors'' ''Ff'']"


text \<open>Both names are treated alike, and a name with a key is its own brand.\<close>

theorem sameBrandIdentity_symmetric:
  "sameBrandIdentity js a b hints = sameBrandIdentity js b a hints \<and>
   (sameBrandIdentity js a a hints \<longleftrightarrow> brand_key js a \<noteq> [])"
  by (auto simp: sameBrandIdentity_def Let_def)

lemma drop_self_spec:
  "concat (map (drop_self js names) (drop_self js names fc)) = drop_self js names fc"
  "g \<in> set (drop_self js names fc) \<Longrightarrow> rf_field g = rf_field fc \<and>
     (roster_field (rf_field fc) \<longrightarrow>
        fact_values g = filter (\<lambda>v. \<not> is_self js names v) (fact_values fc)) \<and>
     (\<not> roster_field (rf_field fc) \<longrightarrow> g = fc)"
proof -
  let ?kept = "filter (\<lambda>v. \<not> is_self js names v) (fact_values fc)"
  have same: "?kept = fact_values fc" if "length ?kept = length (fact_values fc)"
    using that by (metis filter_id_conv length_filter_less less_irrefl)
  have once: "drop_self js names (fc\<lparr>rf_value := ManyValues ?kept\<rparr>) = [fc\<lparr>rf_value := ManyValues ?kept\<rparr>]"
    by (simp add: drop_self_def fact_values_def Let_def)
  show "concat (map (drop_self js names) (drop_self js names fc)) = drop_self js names fc"
  proof (cases "\<not> roster_field (rf_field fc) \<or> length ?kept = length (fact_values fc)")
    case True
    then have "drop_self js names fc = [fc]" by (auto simp: drop_self_def Let_def)
    then show ?thesis by simp
  next
    case False
    then have "drop_self js names fc = (if ?kept \<noteq> [] then [fc\<lparr>rf_value := ManyValues ?kept\<rparr>] else [])"
      by (simp add: drop_self_def Let_def)
    with once show ?thesis by simp
  qed
  assume g: "g \<in> set (drop_self js names fc)"
  show "rf_field g = rf_field fc \<and>
     (roster_field (rf_field fc) \<longrightarrow> fact_values g = ?kept) \<and> (\<not> roster_field (rf_field fc) \<longrightarrow> g = fc)"
  proof (cases "\<not> roster_field (rf_field fc) \<or> length ?kept = length (fact_values fc)")
    case True
    then have "drop_self js names fc = [fc]" by (auto simp: drop_self_def Let_def)
    with g True same show ?thesis by auto
  next
    case False
    then have "drop_self js names fc = (if ?kept \<noteq> [] then [fc\<lparr>rf_value := ManyValues ?kept\<rparr>] else [])"
      by (simp add: drop_self_def Let_def)
    with g False show ?thesis by (auto simp: fact_values_def split: if_splits)
  qed
qed

lemma filter_concat_same:
  assumes "\<And>x. filter P (f x) = filter P [x]"
  shows "filter P (concat (map f xs)) = filter P xs"
proof (induction xs)
  case (Cons x xs)
  then show ?case using assms [of x] by simp
qed simp

lemma self_names_kept: "self_names js brandName (dropSelfReferences js brandName facts) = self_names js brandName facts"
proof -
  let ?names = "self_names js brandName facts"
  let ?id = "\<lambda>f. rf_field f \<in> {''fullName'', ''shortNames''}"
  have "filter ?id (drop_self js ?names fc) = filter ?id [fc]" for fc
  proof (cases "roster_field (rf_field fc)")
    case True
    then have "\<not> ?id fc" by (auto simp: roster_field_def)
    moreover have "\<forall>g\<in>set (drop_self js ?names fc). \<not> ?id g"
      using drop_self_spec(2) [of _ js ?names fc] calculation by metis
    ultimately show ?thesis by (simp add: filter_empty_conv)
  qed (simp add: drop_self_def)
  then have "filter ?id (dropSelfReferences js brandName facts) = filter ?id facts"
    unfolding dropSelfReferences_def by (rule filter_concat_same)
  then show ?thesis by (simp add: self_names_def)
qed


definition demo_roster :: "roster_fact list" where
  "demo_roster = [\<lparr>rf_field = ''shortNames'', rf_value = OneValue [28810, 29677, 38271]\<rparr>,
     \<lparr>rf_field = ''competitors'', rf_value = ManyValues [[28810, 20107, 29677], [28023, 24213,
       25438]]\<rparr>]"


text \<open>A name is shown with the details of a source only when that source names it.\<close>

theorem formatCompetitorFactValue_attached:
  "list_all2 (\<lambda>shown name. shown = name \<or>
     (\<exists>d\<in>set (concat (map (\<lambda>e. fst (decodeCompetitorEvidence js parse e)) excerpts)).
        jr_lower js (cp_name d) = self_key js name \<and>
        shown = cp_name d @ [65372] @ cp_region d @ [65372] @ cp_similarBusiness d))
     (formatCompetitorFactValue js parse names excerpts) names"
proof -
  let ?all = "concat (map (\<lambda>e. fst (decodeCompetitorEvidence js parse e)) excerpts)"
  have last: "set (last_per_key key xs) \<subseteq> set xs" for key :: "competitor_detail \<Rightarrow> utext" and xs
  proof
    fix y
    assume "y \<in> set (last_per_key key xs)"
    then obtain x where x: "x \<in> set xs" "y = last (filter (\<lambda>z. key z = key x) xs)" by (auto simp: last_per_key_def)
    then have "filter (\<lambda>z. key z = key x) xs \<noteq> []" by (auto simp: filter_empty_conv)
    from last_in_set [OF this] x(2) show "y \<in> set xs" by simp
  qed
  then have "set (collectCompetitorDetails js parse excerpts) \<subseteq> set ?all"
    unfolding collectCompetitorDetails_def .
  moreover have "d \<in> set ds \<and> jr_lower js (cp_name d) = k"
    if "map_of (rev (map (\<lambda>d. (jr_lower js (cp_name d), d)) ds)) k = Some d" for ds k d
    using map_of_SomeD [OF that] by auto
  ultimately show ?thesis
    unfolding formatCompetitorFactValue_def formatCompetitorDisplayNames_def
    by (auto simp: list_all2_conv_all_nth split: option.split) blast
qed

end
